(* ===== verification/Mdio_Prelude.thy ===== *)
theory Mdio_Prelude
  imports Main "HOL-Library.Word" "HOL-Library.Monad_Syntax"
begin

unbundle bit_operations_syntax

text \<open>
  Shared vocabulary of the development: the C integer types as words, the collections of
  simplification rules the component theories fill, results of C functions that may hit an
  unrecoverable fault, and the generic facts on words and lists that more than one component
  needs.
\<close>

section \<open>Integer types\<close>

type_synonym u8 = "8 word"
type_synonym u16 = "16 word"
type_synonym u18 = "18 word"
type_synonym u32 = "32 word"
type_synonym u64 = "64 word"

section \<open>Collections\<close>

named_theorems insn_simps \<open>encoding and decoding of instructions\<close>
named_theorems run_simps \<open>symbolic execution of program fragments\<close>
named_theorems code_shape \<open>which instructions a code generator appends\<close>

section \<open>Faults\<close>

text \<open>
  A C function of the kernel module either returns or faults. A fault is a failed
  \<^verbatim>\<open>BUG_ON\<close>, or a use of a message buffer that was freed or never allocated.
\<close>

datatype crash = BUG | Bad_Msg

fun crash_bind :: "crash + 'a \<Rightarrow> ('a \<Rightarrow> crash + 'b) \<Rightarrow> crash + 'b" where
  "crash_bind (Inl c) f = Inl c"
| "crash_bind (Inr x) f = f x"

lemma crash_bind_Inr_iff:
  "crash_bind m f = Inr y \<longleftrightarrow> (\<exists>x. m = Inr x \<and> f x = Inr y)"
  by (cases m) auto

lemma crash_bind_Inl_iff:
  "crash_bind m f = Inl c \<longleftrightarrow> m = Inl c \<or> (\<exists>x. m = Inr x \<and> f x = Inl c)"
  by (cases m) auto

lemma crash_bind_assoc:
  "crash_bind (crash_bind m f) g = crash_bind m (\<lambda>x. crash_bind (f x) g)"
  by (cases m) auto

section \<open>Error numbers\<close>

definition EINVAL :: int where "EINVAL = 22"
definition ENOMEM :: int where "ENOMEM = 12"
definition ENODEV :: int where "ENODEV = 19"
definition ERANGE :: int where "ERANGE = 34"
definition ENOSYS :: int where "ENOSYS = 38"
definition EMSGSIZE :: int where "EMSGSIZE = 90"
definition ENOTSUP :: int where "ENOTSUP = 95"
definition ETIMEDOUT :: int where "ETIMEDOUT = 110"

lemmas errno_defs = EINVAL_def ENOMEM_def ENODEV_def ERANGE_def ENOSYS_def EMSGSIZE_def ENOTSUP_def
  ETIMEDOUT_def

section \<open>Words\<close>

lemma mask16_eq: "(0xffff :: 'a::len word) = mask 16"
  by (simp add: mask_eq_exp_minus_1)

lemma word18_mode_cases:
  "drop_bit 16 (a :: u18) = 0 \<or> drop_bit 16 a = 1 \<or> drop_bit 16 a = 2 \<or> drop_bit 16 a = 3"
proof -
  have "unat (drop_bit 16 a) < 4"
  proof -
    have "unat (drop_bit 16 a) = unat a div 2 ^ 16"
      by (subst unat_drop_bit_eq) (rule drop_bit_eq_div)
    moreover have "unat a < 2 ^ 18"
      using unsigned_less [of a, where ?'a = nat] by simp
    ultimately show ?thesis by simp
  qed
  then have "unat (drop_bit 16 a) \<in> {0, 1, 2, 3}" by auto
  then show ?thesis by (auto simp: word_unat_eq_iff)
qed

lemma unat_and_7_less: "unat ((a :: 'a::len word) AND 7) < 8" if "3 < LENGTH('a)"
proof -
  have "a AND 7 = take_bit 3 a"
    by (simp add: take_bit_eq_mask mask_eq_exp_minus_1)
  then show ?thesis
    using take_bit_nat_less_exp [of 3 "unat a"] by (simp add: unsigned_take_bit_eq)
qed

section \<open>Lists\<close>

lemma nth_append_middle: "(xs @ ys @ zs) ! (length xs + k) = ys ! k" if "k < length ys"
  using that by (simp add: nth_append)

end
