(* ===== verification/Mdio_Insn.thy ===== *)
theory Mdio_Insn
  imports Mdio_Prelude
begin

text \<open>
  The byte code that \<^verbatim>\<open>mdio\<close> sends to the \<^verbatim>\<open>mdio-netlink\<close> kernel module:
  \<^verbatim>\<open>include/linux/mdio-netlink.h\<close> (opcodes, argument modes, the instruction word) and the
  constructor macros and \<^verbatim>\<open>mdio_prog_push\<close> of \<^verbatim>\<open>src/mdio/mdio.h\<close> and
  \<^verbatim>\<open>src/mdio/mdio.c\<close>. \<open>decode\<close> reads an instruction the way the comments of the
  header document it (\<^verbatim>\<open>read dev(RI), port(RI), dst(R)\<close> and so on).
\<close>

section \<open>The instruction word\<close>

datatype mdio_nl_op =
  OP_UNSPEC | OP_READ | OP_WRITE | OP_AND | OP_OR | OP_ADD | OP_JEQ | OP_JNE | OP_EMIT

primrec op_code :: "mdio_nl_op \<Rightarrow> u8" where
  "op_code OP_UNSPEC = 0"
| "op_code OP_READ = 1"
| "op_code OP_WRITE = 2"
| "op_code OP_AND = 3"
| "op_code OP_OR = 4"
| "op_code OP_ADD = 5"
| "op_code OP_JEQ = 6"
| "op_code OP_JNE = 7"
| "op_code OP_EMIT = 8"

definition MDIO_NL_OP_MAX :: u8 where
  "MDIO_NL_OP_MAX = 8"

text \<open>Reading the byte back as an enumerator; other bytes reach the \<^verbatim>\<open>default\<close> label.\<close>

definition op_of_code :: "u8 \<Rightarrow> mdio_nl_op option" where
  "op_of_code b =
     (if b = 0 then Some OP_UNSPEC else if b = 1 then Some OP_READ
      else if b = 2 then Some OP_WRITE else if b = 3 then Some OP_AND
      else if b = 4 then Some OP_OR else if b = 5 then Some OP_ADD
      else if b = 6 then Some OP_JEQ else if b = 7 then Some OP_JNE
      else if b = 8 then Some OP_EMIT else None)"

lemma op_of_code_op_code [simp]: "op_of_code (op_code x) = Some x"
  by (cases x) (simp_all add: op_of_code_def)

lemma op_of_code_Some: "op_of_code b = Some x \<Longrightarrow> b = op_code x"
  by (auto simp: op_of_code_def split: if_splits)

definition ARG_NONE :: u18 where "ARG_NONE = 0"
definition ARG_REG :: u18 where "ARG_REG = 1"
definition ARG_IMM :: u18 where "ARG_IMM = 2"
definition ARG_RESERVED :: u18 where "ARG_RESERVED = 3"

text \<open>
  \<^verbatim>\<open>struct mdio_nl_insn\<close>: a 64-bit word of bit fields. The fields are kept at their
  widths; their position in the word is the compiler's and both sides share it.
\<close>

record mdio_nl_insn =
  insn_op :: u8
  insn_reserved :: "2 word"
  insn_arg0 :: u18
  insn_arg1 :: u18
  insn_arg2 :: u18

section \<open>Constructor macros\<close>

definition REG :: "u16 \<Rightarrow> u18" where
  "REG r = push_bit 16 ARG_REG OR ucast r"

definition IMM :: "u16 \<Rightarrow> u18" where
  "IMM n = push_bit 16 ARG_IMM OR ucast n"

text \<open>
  \<^verbatim>\<open>GOTO(_from, _to)\<close> is an immediate that holds \<^verbatim>\<open>_to - _from - 1\<close>, computed on
  \<^verbatim>\<open>int\<close> and cut to 16 bits.
\<close>

definition GOTO :: "int \<Rightarrow> int \<Rightarrow> u18" where
  "GOTO from to = push_bit 16 ARG_IMM OR ucast (word_of_int (to - from - 1) :: u16)"

definition INSN :: "mdio_nl_op \<Rightarrow> u18 \<Rightarrow> u18 \<Rightarrow> u18 \<Rightarrow> mdio_nl_insn" where
  "INSN x a0 a1 a2 =
     \<lparr>insn_op = op_code x, insn_reserved = 0, insn_arg0 = a0, insn_arg1 = a1, insn_arg2 = a2\<rparr>"

text \<open>
  \<^verbatim>\<open>struct mdio_prog\<close> is a growing array with its length: a list. \<^verbatim>\<open>mdio_prog_push\<close>
  appends one instruction.
\<close>

type_synonym mdio_prog = "mdio_nl_insn list"

definition MDIO_PROG_EMPTY :: mdio_prog where
  "MDIO_PROG_EMPTY = []"

definition mdio_prog_push :: "mdio_prog \<Rightarrow> mdio_nl_insn \<Rightarrow> mdio_prog" where
  "mdio_prog_push prog insn = prog @ [insn]"

abbreviation prog_len :: "mdio_prog \<Rightarrow> int" where
  "prog_len prog \<equiv> int (length prog)"

lemma GOTO_IMM: "GOTO from to = IMM (word_of_int (to - from - 1))"
  by (simp add: GOTO_def IMM_def)

text \<open>The two halves of an argument: mode in the top two bits, payload in the low sixteen.\<close>

lemma arg_mode: "drop_bit 16 (push_bit 16 (a :: u18) OR ucast (r :: u16)) = take_bit 2 a"
  by (rule bit_word_eqI) (auto simp: bit_simps dest: bit_imp_le_length)

lemma arg_payload: "(ucast ((push_bit 16 (a :: u18) OR ucast (r :: u16)) AND 0xffff) :: u16) = r"
  unfolding mask16_eq by (rule bit_word_eqI) (auto simp: bit_simps)

lemma arg_regno: "(push_bit 16 (a :: u18) OR ucast (r :: u16)) AND 7 = ucast (r AND 7)"
proof -
  have 7: "(7 :: 'a::len word) = mask 3"
    by (simp add: mask_eq_exp_minus_1)
  show ?thesis
    unfolding 7 by (rule bit_word_eqI) (auto simp: bit_simps)
qed

lemma mode_REG [insn_simps]: "drop_bit 16 (REG r) = ARG_REG"
  unfolding REG_def arg_mode by (simp add: ARG_REG_def)

lemma mode_IMM [insn_simps]: "drop_bit 16 (IMM r) = ARG_IMM"
  unfolding IMM_def arg_mode by (simp add: ARG_IMM_def)

lemma low_IMM [insn_simps]: "(ucast (IMM r AND 0xffff) :: u16) = r"
  unfolding IMM_def by (rule arg_payload)

lemma low_REG [insn_simps]: "unat (REG r AND 7) = unat (r AND 7)"
  using unat_and_7_less [of r]
  unfolding REG_def arg_regno by (simp add: unsigned_ucast_eq take_bit_nat_eq_self)

end
