(* ===== verification/Vm_Spec.thy ===== *)
theory Vm_Spec
  imports Mdio_Insn
begin

text \<open>
  The virtual machine as \<^verbatim>\<open>man/mdio-netlink.9\<close> and the comments of
  \<^verbatim>\<open>include/linux/mdio-netlink.h\<close> describe it: eight 16-bit registers, a program counter,
  eight instructions, an output stream and a bus. It works on decoded instructions, has no
  clock and no message buffers; theory \<open>Vm_Refine\<close> shows that the kernel's interpreter
  implements it. The second half is a small program logic: what a code fragment does when it
  is placed anywhere in a program, with rules for sequences, forward skips and bottom-tested
  loops, which are the only shapes of code the user-space tool generates.
\<close>

section \<open>Decoded instructions\<close>

datatype operand = Reg nat | Imm u16

datatype vinsn =
    VREAD operand operand nat
  | VWRITE operand operand operand
  | VAND operand operand nat
  | VOR operand operand nat
  | VADD operand operand nat
  | VJEQ operand operand u16
  | VJNE operand operand u16
  | VEMIT operand

definition decode_ri :: "u18 \<Rightarrow> operand option" where
  "decode_ri a =
     (if drop_bit 16 a = ARG_IMM then Some (Imm (ucast (a AND 0xffff)))
      else if drop_bit 16 a = ARG_REG then Some (Reg (unat (a AND 7))) else None)"

definition decode_r :: "u18 \<Rightarrow> nat option" where
  "decode_r a = (if drop_bit 16 a = ARG_REG then Some (unat (a AND 7)) else None)"

definition decode_i :: "u18 \<Rightarrow> u16 option" where
  "decode_i a = (if drop_bit 16 a = ARG_IMM then Some (ucast (a AND 0xffff)) else None)"

definition decode_none :: "u18 \<Rightarrow> unit option" where
  "decode_none a = (if drop_bit 16 a = ARG_NONE then Some () else None)"

definition decode_rir ::
  "(operand \<Rightarrow> operand \<Rightarrow> nat \<Rightarrow> vinsn) \<Rightarrow> mdio_nl_insn \<Rightarrow> vinsn option" where
  "decode_rir f i =
     do { a \<leftarrow> decode_ri (insn_arg0 i); b \<leftarrow> decode_ri (insn_arg1 i);
          c \<leftarrow> decode_r (insn_arg2 i); Some (f a b c) }"

definition decode_jmp ::
  "(operand \<Rightarrow> operand \<Rightarrow> u16 \<Rightarrow> vinsn) \<Rightarrow> mdio_nl_insn \<Rightarrow> vinsn option" where
  "decode_jmp f i =
     do { a \<leftarrow> decode_ri (insn_arg0 i); b \<leftarrow> decode_ri (insn_arg1 i);
          c \<leftarrow> decode_i (insn_arg2 i); Some (f a b c) }"

definition decode :: "mdio_nl_insn \<Rightarrow> vinsn option" where
  "decode i =
     (case op_of_code (insn_op i) of
        Some OP_READ \<Rightarrow> decode_rir VREAD i
      | Some OP_WRITE \<Rightarrow>
          do { a \<leftarrow> decode_ri (insn_arg0 i); b \<leftarrow> decode_ri (insn_arg1 i);
               c \<leftarrow> decode_ri (insn_arg2 i); Some (VWRITE a b c) }
      | Some OP_AND \<Rightarrow> decode_rir VAND i
      | Some OP_OR \<Rightarrow> decode_rir VOR i
      | Some OP_ADD \<Rightarrow> decode_rir VADD i
      | Some OP_JEQ \<Rightarrow> decode_jmp VJEQ i
      | Some OP_JNE \<Rightarrow> decode_jmp VJNE i
      | Some OP_EMIT \<Rightarrow>
          do { a \<leftarrow> decode_ri (insn_arg0 i); decode_none (insn_arg1 i);
               decode_none (insn_arg2 i); Some (VEMIT a) }
      | Some OP_UNSPEC \<Rightarrow> None
      | None \<Rightarrow> None)"

definition decode_prog :: "mdio_prog \<Rightarrow> vinsn list option" where
  "decode_prog P = those (map decode P)"

lemma decode_ri_simps [insn_simps]:
  "decode_ri (REG r) = Some (Reg (unat (r AND 7)))"
  "decode_ri (IMM n) = Some (Imm n)"
  by (simp_all add: decode_ri_def insn_simps ARG_REG_def ARG_IMM_def)

lemma decode_r_REG [insn_simps]: "decode_r (REG r) = Some (unat (r AND 7))"
  by (simp add: decode_r_def insn_simps)

lemma decode_i_IMM [insn_simps]: "decode_i (IMM n) = Some n"
  by (simp add: decode_i_def insn_simps)

lemma decode_none_0 [insn_simps]: "decode_none 0 = Some ()"
  by (simp add: decode_none_def ARG_NONE_def)

lemma decode_INSN_rir [insn_simps]:
  "decode (INSN OP_READ a b c) = do { a \<leftarrow> decode_ri a; b \<leftarrow> decode_ri b; c \<leftarrow> decode_r c; Some (VREAD a b c) }"
  "decode (INSN OP_AND a b c) = do { a \<leftarrow> decode_ri a; b \<leftarrow> decode_ri b; c \<leftarrow> decode_r c; Some (VAND a b c) }"
  "decode (INSN OP_OR a b c) = do { a \<leftarrow> decode_ri a; b \<leftarrow> decode_ri b; c \<leftarrow> decode_r c; Some (VOR a b c) }"
  "decode (INSN OP_ADD a b c) = do { a \<leftarrow> decode_ri a; b \<leftarrow> decode_ri b; c \<leftarrow> decode_r c; Some (VADD a b c) }"
  by (simp_all add: decode_def INSN_def op_of_code_def decode_rir_def)

lemma decode_INSN_other [insn_simps]:
  "decode (INSN OP_WRITE a b c) = do { a \<leftarrow> decode_ri a; b \<leftarrow> decode_ri b; c \<leftarrow> decode_ri c; Some (VWRITE a b c) }"
  "decode (INSN OP_JEQ a b c) = do { a \<leftarrow> decode_ri a; b \<leftarrow> decode_ri b; c \<leftarrow> decode_i c; Some (VJEQ a b c) }"
  "decode (INSN OP_JNE a b c) = do { a \<leftarrow> decode_ri a; b \<leftarrow> decode_ri b; c \<leftarrow> decode_i c; Some (VJNE a b c) }"
  "decode (INSN OP_EMIT a b c) = do { a \<leftarrow> decode_ri a; decode_none b; decode_none c; Some (VEMIT a) }"
  by (simp_all add: decode_def INSN_def op_of_code_def decode_jmp_def)

lemma decode_prog_Nil [insn_simps]: "decode_prog [] = Some []"
  by (simp add: decode_prog_def)

lemma decode_prog_Cons [insn_simps]:
  "decode_prog (i # P) = do { x \<leftarrow> decode i; xs \<leftarrow> decode_prog P; Some (x # xs) }"
  by (cases "those (map decode P)") (simp_all add: decode_prog_def split: option.split)

lemma decode_prog_append:
  "decode_prog (P @ Q) = do { xs \<leftarrow> decode_prog P; ys \<leftarrow> decode_prog Q; Some (xs @ ys) }"
  by (induction P) (simp_all add: insn_simps Option.bind_assoc split: Option.bind_splits)

lemma decode_prog_length: "decode_prog P = Some Q \<Longrightarrow> length Q = length P"
  by (induction P arbitrary: Q) (auto simp: insn_simps split: Option.bind_splits)

lemma decode_prog_nth:
  "decode_prog P = Some Q \<Longrightarrow> k < length P \<Longrightarrow> decode (P ! k) = Some (Q ! k)"
  by (induction P arbitrary: Q k)
     (auto simp: insn_simps nth_Cons split: Option.bind_splits nat.splits)

lemma decode_prog_None_iff: "decode_prog P = None \<longleftrightarrow> (\<exists>i \<in> set P. decode i = None)"
  by (induction P) (auto simp: insn_simps split: Option.bind_splits)

section \<open>The bus\<close>

text \<open>
  The kernel's MDIO layer and the address helpers of \<^verbatim>\<open>linux/mdio.h\<close> are not part of
  the repository: they are a parameter. A read returns a value or a negative error code.
\<close>

record 'w bus_api =
  mdio_phy_id_is_c45 :: "u16 \<Rightarrow> bool"
  mdio_phy_id_prtad :: "u16 \<Rightarrow> u16"
  mdio_phy_id_devad :: "u16 \<Rightarrow> u16"
  mdiobus_read :: "u16 \<Rightarrow> u16 \<Rightarrow> 'w \<Rightarrow> int \<times> 'w"
  mdiobus_write :: "u16 \<Rightarrow> u16 \<Rightarrow> u16 \<Rightarrow> 'w \<Rightarrow> int \<times> 'w"
  mdiobus_c45_read :: "u16 \<Rightarrow> u16 \<Rightarrow> u16 \<Rightarrow> 'w \<Rightarrow> int \<times> 'w"
  mdiobus_c45_write :: "u16 \<Rightarrow> u16 \<Rightarrow> u16 \<Rightarrow> u16 \<Rightarrow> 'w \<Rightarrow> int \<times> 'w"

definition bus_read :: "'w bus_api \<Rightarrow> u16 \<Rightarrow> u16 \<Rightarrow> 'w \<Rightarrow> int \<times> 'w" where
  "bus_read B dev reg =
     (if mdio_phy_id_is_c45 B dev
      then mdiobus_c45_read B (mdio_phy_id_prtad B dev) (mdio_phy_id_devad B dev) reg
      else mdiobus_read B dev reg)"

definition bus_write :: "'w bus_api \<Rightarrow> u16 \<Rightarrow> u16 \<Rightarrow> u16 \<Rightarrow> 'w \<Rightarrow> int \<times> 'w" where
  "bus_write B dev reg val =
     (if mdio_phy_id_is_c45 B dev
      then mdiobus_c45_write B (mdio_phy_id_prtad B dev) (mdio_phy_id_devad B dev) reg val
      else mdiobus_write B dev reg val)"

section \<open>Execution\<close>

record 'w mst =
  regs :: "nat \<Rightarrow> u16"
  bus :: 'w
  out :: "u32 list"

text \<open>The state a program starts in.\<close>

definition init_mst :: "'w \<Rightarrow> 'w mst" where
  "init_mst w = \<lparr>regs = (\<lambda>_. 0), bus = w, out = []\<rparr>"

datatype 'w outcome = Done "'w mst" | Fail int "'w mst"

text \<open>How a run ends: the status that is returned, and the state.\<close>

definition outcome_status :: "'w outcome \<Rightarrow> int" where
  "outcome_status r = (case r of Done t \<Rightarrow> 0 | Fail e t \<Rightarrow> e)"

definition outcome_state :: "'w outcome \<Rightarrow> 'w mst" where
  "outcome_state r = (case r of Done t \<Rightarrow> t | Fail e t \<Rightarrow> t)"

lemma outcome_simps [simp]:
  "outcome_status (Done t) = 0" "outcome_status (Fail e t) = e"
  "outcome_state (Done t) = t" "outcome_state (Fail e t) = t"
  by (simp_all add: outcome_status_def outcome_state_def)

fun opval :: "'w mst \<Rightarrow> operand \<Rightarrow> u16" where
  "opval s (Reg r) = regs s r"
| "opval s (Imm n) = n"

definition set_reg :: "nat \<Rightarrow> u16 \<Rightarrow> 'w mst \<Rightarrow> 'w mst" where
  "set_reg r v s = s\<lparr>regs := (regs s)(r := v)\<rparr>"

fun vm_effect :: "'w bus_api \<Rightarrow> vinsn \<Rightarrow> 'w mst \<Rightarrow> 'w outcome" where
  "vm_effect B (VREAD a b r) s =
     (case bus_read B (opval s a) (opval s b) (bus s) of (ret, w) \<Rightarrow>
        if ret < 0 then Fail ret (s\<lparr>bus := w\<rparr>)
        else Done (set_reg r (word_of_int ret) (s\<lparr>bus := w\<rparr>)))"
| "vm_effect B (VWRITE a b c) s =
     (case bus_write B (opval s a) (opval s b) (opval s c) (bus s) of (ret, w) \<Rightarrow>
        if ret < 0 then Fail ret (s\<lparr>bus := w\<rparr>) else Done (s\<lparr>bus := w\<rparr>))"
| "vm_effect B (VAND a b r) s = Done (set_reg r (opval s a AND opval s b) s)"
| "vm_effect B (VOR a b r) s = Done (set_reg r (opval s a OR opval s b) s)"
| "vm_effect B (VADD a b r) s = Done (set_reg r (opval s a + opval s b) s)"
| "vm_effect B (VJEQ a b j) s = Done s"
| "vm_effect B (VJNE a b j) s = Done s"
| "vm_effect B (VEMIT a) s = Done (s\<lparr>out := out s @ [ucast (opval s a)]\<rparr>)"

text \<open>The distance the instruction adds to the program counter beyond the usual one.\<close>

fun vm_jump :: "vinsn \<Rightarrow> 'w mst \<Rightarrow> int" where
  "vm_jump (VJEQ a b j) s = (if opval s a = opval s b then sint j else 0)"
| "vm_jump (VJNE a b j) s = (if opval s a \<noteq> opval s b then sint j else 0)"
| "vm_jump _ s = 0"

text \<open>
  A run with fuel: \<open>None\<close> when it is used up. The machine halts when the program counter
  leaves the program at either end.
\<close>

fun vm_run :: "'w bus_api \<Rightarrow> vinsn list \<Rightarrow> nat \<Rightarrow> int \<Rightarrow> 'w mst \<Rightarrow> 'w outcome option" where
  "vm_run B P 0 pc s = None"
| "vm_run B P (Suc n) pc s =
     (if 0 \<le> pc \<and> pc < int (length P) then
        (case vm_effect B (P ! nat pc) s of
           Fail e t \<Rightarrow> Some (Fail e t)
         | Done t \<Rightarrow> vm_run B P n (pc + 1 + vm_jump (P ! nat pc) s) t)
      else Some (Done s))"

lemma vm_run_mono: "vm_run B P n pc s = Some r \<Longrightarrow> n \<le> m \<Longrightarrow> vm_run B P m pc s = Some r"
proof (induction n arbitrary: m pc s)
  case (Suc n)
  then obtain m' where "m = Suc m'" and "n \<le> m'" by (cases m) auto
  with Suc show ?case by (auto split: outcome.splits if_splits)
qed simp

text \<open>Unfolding one step of a run on concrete fuel.\<close>

lemma vm_run_numeral [run_simps]:
  "vm_run B P (numeral k) pc s =
     (if 0 \<le> pc \<and> pc < int (length P) then
        (case vm_effect B (P ! nat pc) s of
           Fail e t \<Rightarrow> Some (Fail e t)
         | Done t \<Rightarrow> vm_run B P (pred_numeral k) (pc + 1 + vm_jump (P ! nat pc) s) t)
      else Some (Done s))"
  by (simp add: numeral_eq_Suc)

lemma vm_run_functional:
  assumes "vm_run B P n pc s = Some r" and "vm_run B P m pc s = Some r'"
  shows "r = r'"
  using vm_run_mono [OF assms(1), of "max n m"] vm_run_mono [OF assms(2), of "max n m"] by simp

end
