(* ===== verification/Nl_Validate.thy ===== *)
theory Nl_Validate
  imports Vm_Spec
begin

text \<open>
  The static checks of \<^verbatim>\<open>kernel/mdio-netlink.c\<close> on a program received from user
  space: the operand prototypes, \<^verbatim>\<open>mdio_nl_validate_insn\<close> and
  \<^verbatim>\<open>mdio_nl_validate_prog\<close>. The main lemma says that they accept exactly the
  instructions that the documentation gives a meaning to (\<open>decode\<close>).
\<close>

section \<open>Prototypes\<close>

definition kbit :: "u18 \<Rightarrow> u64" where
  "kbit n = push_bit (unat n) 1"

record mdio_nl_op_proto =
  proto_arg0 :: u8
  proto_arg1 :: u8
  proto_arg2 :: u8

definition RI :: u8 where
  "RI = ucast (kbit ARG_REG OR kbit ARG_IMM)"

definition mk_proto :: "u8 \<Rightarrow> u8 \<Rightarrow> u8 \<Rightarrow> mdio_nl_op_proto" where
  "mk_proto a b c = \<lparr>proto_arg0 = a, proto_arg1 = b, proto_arg2 = c\<rparr>"

text \<open>Indexed by opcode; entry 0 (\<^verbatim>\<open>MDIO_NL_OP_UNSPEC\<close>) is not initialised, so it is zero.\<close>

definition mdio_nl_op_protos :: "mdio_nl_op_proto list" where
  "mdio_nl_op_protos =
     [mk_proto 0 0 0,
      mk_proto RI RI (ucast (kbit ARG_REG)),
      mk_proto RI RI RI,
      mk_proto RI RI (ucast (kbit ARG_REG)),
      mk_proto RI RI (ucast (kbit ARG_REG)),
      mk_proto RI RI (ucast (kbit ARG_REG)),
      mk_proto RI RI (ucast (kbit ARG_IMM)),
      mk_proto RI RI (ucast (kbit ARG_IMM)),
      mk_proto RI (ucast (kbit ARG_NONE)) (ucast (kbit ARG_NONE))]"

definition mode_allowed :: "u18 \<Rightarrow> u8 \<Rightarrow> bool" where
  "mode_allowed arg proto \<longleftrightarrow> kbit (drop_bit 16 arg) AND ucast proto \<noteq> 0"

section \<open>Validation\<close>

text \<open>The value returned and the extended-ack message set, if any.\<close>

definition mdio_nl_validate_insn :: "mdio_nl_insn \<Rightarrow> int \<times> string option" where
  "mdio_nl_validate_insn insn =
     (if MDIO_NL_OP_MAX < insn_op insn then (- EINVAL, Some ''Illegal instruction'')
      else
        let proto = mdio_nl_op_protos ! unat (insn_op insn) in
        if \<not> mode_allowed (insn_arg0 insn) (proto_arg0 proto)
        then (- EINVAL, Some ''Argument 0 invalid'')
        else if \<not> mode_allowed (insn_arg1 insn) (proto_arg1 proto)
        then (- EINVAL, Some ''Argument 1 invalid'')
        else if \<not> mode_allowed (insn_arg2 insn) (proto_arg2 proto)
        then (- EINVAL, Some ''Argument 2 invalid'')
        else (0, None))"

fun validate_insns :: "mdio_nl_insn list \<Rightarrow> int \<times> string option" where
  "validate_insns [] = (0, None)"
| "validate_insns (i # is) =
     (case mdio_nl_validate_insn i of (err, msg) \<Rightarrow>
        if err \<noteq> 0 then (err, msg) else validate_insns is)"

text \<open>
  A \<^verbatim>\<open>MDIO_NLA_PROG\<close> attribute: its payload length in bytes and the whole
  instructions its payload holds, eight bytes each.
\<close>

record prog_attr =
  nla_len :: nat
  nla_data :: "mdio_nl_insn list"

definition prog_attr_ok :: "prog_attr \<Rightarrow> bool" where
  "prog_attr_ok a \<longleftrightarrow> length (nla_data a) = nla_len a div 8"

definition mdio_nl_validate_prog :: "prog_attr \<Rightarrow> int \<times> string option" where
  "mdio_nl_validate_prog attr =
     (if nla_len attr mod 8 \<noteq> 0 then (- EINVAL, Some ''Unaligned instruction'')
      else validate_insns (take (nla_len attr div 8) (nla_data attr)))"

section \<open>Validation accepts exactly the documented instructions\<close>

lemma mode_allowed_RI: "mode_allowed a RI \<longleftrightarrow> decode_ri a \<noteq> None"
  using word18_mode_cases [of a]
  by (auto simp: mode_allowed_def decode_ri_def kbit_def RI_def ARG_REG_def ARG_IMM_def)

lemma mode_allowed_R: "mode_allowed a (ucast (kbit ARG_REG)) \<longleftrightarrow> decode_r a \<noteq> None"
  using word18_mode_cases [of a]
  by (auto simp: mode_allowed_def decode_r_def kbit_def ARG_REG_def)

lemma mode_allowed_I: "mode_allowed a (ucast (kbit ARG_IMM)) \<longleftrightarrow> decode_i a \<noteq> None"
  using word18_mode_cases [of a]
  by (auto simp: mode_allowed_def decode_i_def kbit_def ARG_IMM_def)

lemma mode_allowed_none: "mode_allowed a (ucast (kbit ARG_NONE)) \<longleftrightarrow> decode_none a \<noteq> None"
  using word18_mode_cases [of a]
  by (auto simp: mode_allowed_def decode_none_def kbit_def ARG_NONE_def)

lemma mode_allowed_0: "\<not> mode_allowed a 0"
  by (simp add: mode_allowed_def)

lemmas mode_allowed_simps =
  mode_allowed_RI mode_allowed_R mode_allowed_I mode_allowed_none mode_allowed_0

lemma op_cases_le_max:
  assumes "\<not> MDIO_NL_OP_MAX < b"
  obtains x where "b = op_code x"
proof -
  have "unat b \<le> 8"
    using assms by (simp add: MDIO_NL_OP_MAX_def not_less word_le_nat_alt)
  then have "unat b \<in> {0, 1, 2, 3, 4, 5, 6, 7, 8}" by auto
  then have "b \<in> {0, 1, 2, 3, 4, 5, 6, 7, 8}" by (auto simp: word_unat_eq_iff)
  then have "op_of_code b \<noteq> None" by (auto simp: op_of_code_def)
  then show ?thesis using that op_of_code_Some by blast
qed

lemma op_code_le_max: "\<not> MDIO_NL_OP_MAX < op_code x"
  by (cases x) (simp_all add: MDIO_NL_OP_MAX_def)

lemma protos_nth:
  "mdio_nl_op_protos ! unat (op_code x) =
     (case x of OP_UNSPEC \<Rightarrow> mk_proto 0 0 0
      | OP_WRITE \<Rightarrow> mk_proto RI RI RI
      | OP_JEQ \<Rightarrow> mk_proto RI RI (ucast (kbit ARG_IMM))
      | OP_JNE \<Rightarrow> mk_proto RI RI (ucast (kbit ARG_IMM))
      | OP_EMIT \<Rightarrow> mk_proto RI (ucast (kbit ARG_NONE)) (ucast (kbit ARG_NONE))
      | _ \<Rightarrow> mk_proto RI RI (ucast (kbit ARG_REG)))"
  by (cases x) (simp_all add: mdio_nl_op_protos_def)

lemma validate_insn_ok_iff:
  "fst (mdio_nl_validate_insn i) = 0 \<longleftrightarrow>
     \<not> MDIO_NL_OP_MAX < insn_op i \<and>
     mode_allowed (insn_arg0 i) (proto_arg0 (mdio_nl_op_protos ! unat (insn_op i))) \<and>
     mode_allowed (insn_arg1 i) (proto_arg1 (mdio_nl_op_protos ! unat (insn_op i))) \<and>
     mode_allowed (insn_arg2 i) (proto_arg2 (mdio_nl_op_protos ! unat (insn_op i)))"
  by (simp add: mdio_nl_validate_insn_def Let_def EINVAL_def)

lemma bind_neq_None: "Option.bind m f \<noteq> None \<longleftrightarrow> (\<exists>x. m = Some x \<and> f x \<noteq> None)"
  by (cases m) auto

lemma validate_insn_decode:
  "fst (mdio_nl_validate_insn i) = 0 \<longleftrightarrow> decode i \<noteq> None"
proof (cases "MDIO_NL_OP_MAX < insn_op i")
  case True
  have "op_of_code (insn_op i) = None"
  proof (cases "op_of_code (insn_op i)")
    case (Some x)
    with True op_code_le_max [of x] show ?thesis by (auto dest: op_of_code_Some)
  qed
  with True show ?thesis
    by (simp add: validate_insn_ok_iff decode_def)
next
  case False
  then obtain x where x: "insn_op i = op_code x" by (rule op_cases_le_max)
  show ?thesis
    unfolding validate_insn_ok_iff x protos_nth decode_def op_of_code_op_code
    using False [unfolded x]
    by (cases x; simp only: option.case mdio_nl_op.case mk_proto_def mdio_nl_op_proto.select_convs
          mode_allowed_simps decode_rir_def decode_jmp_def bind_neq_None; blast)
qed

lemma validate_insns_decode:
  "fst (validate_insns is) = 0 \<longleftrightarrow> decode_prog is \<noteq> None"
proof (induction "is")
  case Nil
  show ?case by (simp add: insn_simps)
next
  case (Cons i "is")
  then show ?case
    using validate_insn_decode [of i]
    by (cases "mdio_nl_validate_insn i") (auto simp: insn_simps split: Option.bind_splits)
qed

end
