(* ===== verification/Nl_Xfer.thy ===== *)
theory Nl_Xfer
  imports Nl_Validate
begin

text \<open>
  The reply messages of \<^verbatim>\<open>kernel/mdio-netlink.c\<close>: \<^verbatim>\<open>struct mdio_nl_xfer\<close>,
  \<^verbatim>\<open>mdio_nl_open\<close>, \<^verbatim>\<open>mdio_nl_close\<close>, \<^verbatim>\<open>mdio_nl_flush\<close> and
  \<^verbatim>\<open>mdio_nl_emit\<close>. The kernel's netlink functions are a parameter; the model keeps
  track of who owns the message buffer, so that a use after it was handed to the socket or
  freed is a visible fault.
\<close>

section \<open>The kernel's netlink functions\<close>

text \<open>
  \<open>'m\<close> is a message under construction, \<open>'n\<close> the receiving socket and the allocator. An
  allocation gives \<open>None\<close> when it fails; the \<^verbatim>\<open>nla_put\<close> family returns 0 or a
  negative error; \<open>genlmsg_unicast\<close> takes the message and delivers it or fails.
\<close>

record ('m, 'n) nl_api =
  nlmsg_new :: "'n \<Rightarrow> 'm option \<times> 'n"
  genlmsg_put :: "'m \<Rightarrow> 'm option"
  nla_nest_start :: "'m \<Rightarrow> 'm option"
  nla_put_nohdr :: "'m \<Rightarrow> u32 \<Rightarrow> int \<times> 'm"
  nla_nest_end :: "'m \<Rightarrow> 'm"
  nla_put_error :: "'m \<Rightarrow> int \<Rightarrow> int \<times> 'm"
  genlmsg_end :: "'m \<Rightarrow> 'm"
  nlmsg_put_done :: "'m \<Rightarrow> 'm option"
  genlmsg_unicast :: "'m \<Rightarrow> 'n \<Rightarrow> int \<times> 'n"

text \<open>The pointer \<^verbatim>\<open>xfer->msg\<close>.\<close>

datatype 'm mptr = Null | Live 'm | Freed

record ('m, 'n, 'w) xfer =
  x_msg :: "'m mptr"
  x_timeout_ms :: int
  x_prog_len :: int
  x_prog :: "mdio_nl_insn list"
  x_mdio :: 'w
  x_locked :: bool
  x_sock :: 'n

definition set_msg :: "'m \<Rightarrow> ('m, 'n, 'w) xfer \<Rightarrow> ('m, 'n, 'w) xfer" where
  "set_msg m x = x\<lparr>x_msg := Live m\<rparr>"

text \<open>\<^verbatim>\<open>nlmsg_free\<close> accepts a null pointer, as \<^verbatim>\<open>kfree_skb\<close> does.\<close>

definition nlmsg_free :: "('m, 'n, 'w) xfer \<Rightarrow> crash + ('m, 'n, 'w) xfer" where
  "nlmsg_free x =
     (case x_msg x of Null \<Rightarrow> Inr x | Live m \<Rightarrow> Inr (x\<lparr>x_msg := Freed\<rparr>) | Freed \<Rightarrow> Inl Bad_Msg)"

definition mdio_nl_open ::
  "('m, 'n) nl_api \<Rightarrow> ('m, 'n, 'w) xfer \<Rightarrow> int \<times> ('m, 'n, 'w) xfer" where
  "mdio_nl_open N x =
     (case nlmsg_new N (x_sock x) of
        (None, n) \<Rightarrow> (- ENOMEM, x\<lparr>x_msg := Null, x_sock := n\<rparr>)
      | (Some m, n) \<Rightarrow>
          (case genlmsg_put N m of
             None \<Rightarrow> (- EMSGSIZE, x\<lparr>x_msg := Freed, x_sock := n\<rparr>)
           | Some m \<Rightarrow>
               (case nla_nest_start N m of
                  None \<Rightarrow> (- EMSGSIZE, x\<lparr>x_msg := Freed, x_sock := n\<rparr>)
                | Some m \<Rightarrow> (0, x\<lparr>x_msg := Live m, x_sock := n\<rparr>))))"

text \<open>The two steps of \<^verbatim>\<open>mdio_nl_close\<close> that may not find room in the message.\<close>

definition put_error ::
  "('m, 'n) nl_api \<Rightarrow> int \<Rightarrow> ('m, 'n, 'w) xfer \<Rightarrow> crash + (int \<times> ('m, 'n, 'w) xfer)" where
  "put_error N xerr x =
     (case x_msg x of
        Live m \<Rightarrow> (case nla_put_error N m xerr of (r, m) \<Rightarrow> Inr (r, set_msg m x))
      | _ \<Rightarrow> Inl Bad_Msg)"

definition put_done ::
  "('m, 'n) nl_api \<Rightarrow> ('m, 'n, 'w) xfer \<Rightarrow> crash + (bool \<times> ('m, 'n, 'w) xfer)" where
  "put_done N x =
     (case x_msg x of
        Live m \<Rightarrow> (case nlmsg_put_done N m of
                    None \<Rightarrow> Inr (False, x) | Some m \<Rightarrow> Inr (True, set_msg m x))
      | _ \<Rightarrow> Inl Bad_Msg)"

definition upd_msg ::
  "('m \<Rightarrow> 'm) \<Rightarrow> ('m, 'n, 'w) xfer \<Rightarrow> crash + ('m, 'n, 'w) xfer" where
  "upd_msg f x = (case x_msg x of Live m \<Rightarrow> Inr (set_msg (f m) x) | _ \<Rightarrow> Inl Bad_Msg)"

text \<open>
  Sending hands the buffer over: the kernel frees it whether delivery succeeds or not.
\<close>

definition unicast ::
  "('m, 'n) nl_api \<Rightarrow> ('m, 'n, 'w) xfer \<Rightarrow> crash + (int \<times> ('m, 'n, 'w) xfer)" where
  "unicast N x =
     (case x_msg x of
        Live m \<Rightarrow> (case genlmsg_unicast N m (x_sock x) of (r, n) \<Rightarrow>
                    Inr (r, x\<lparr>x_msg := Freed, x_sock := n\<rparr>))
      | _ \<Rightarrow> Inl Bad_Msg)"

text \<open>\<^verbatim>\<open>err_free:\<close> in \<^verbatim>\<open>mdio_nl_close\<close>.\<close>

definition err_free ::
  "int \<Rightarrow> ('m, 'n, 'w) xfer \<Rightarrow> crash + (int \<times> ('m, 'n, 'w) xfer)" where
  "err_free err x = crash_bind (nlmsg_free x) (\<lambda>x. Inr (err, x))"

section \<open>Close and flush\<close>

text \<open>
  \<^verbatim>\<open>mdio_nl_close\<close> and \<^verbatim>\<open>mdio_nl_flush\<close> call each other: closing flushes when the
  error attribute or the final \<^verbatim>\<open>NLMSG_DONE\<close> does not fit, and flushing closes with
  neither, so the recursion is at most three deep.
\<close>

lemma crash_bind_cong [fundef_cong]:
  "m = m' \<Longrightarrow> (\<And>x. m' = Inr x \<Longrightarrow> f x = g x) \<Longrightarrow> crash_bind m f = crash_bind m' g"
  by (cases m') auto

function mdio_nl_close ::
    "('m, 'n) nl_api \<Rightarrow> ('m, 'n, 'w) xfer \<Rightarrow> bool \<Rightarrow> int \<Rightarrow> crash + (int \<times> ('m, 'n, 'w) xfer)"
  and mdio_nl_flush ::
    "('m, 'n) nl_api \<Rightarrow> ('m, 'n, 'w) xfer \<Rightarrow> crash + (int \<times> ('m, 'n, 'w) xfer)" where
  "mdio_nl_close N x is_last xerr =
     crash_bind (upd_msg (nla_nest_end N) x) (\<lambda>x.
     crash_bind
       (if xerr \<noteq> 0 then
          crash_bind (put_error N xerr x) (\<lambda>(r, x).
            if r \<noteq> 0 then
              crash_bind (mdio_nl_flush N x) (\<lambda>(err, x).
                if err \<noteq> 0 then Inr (err, x)
                else crash_bind (put_error N xerr x) (\<lambda>(r, x).
                       Inr (if r \<noteq> 0 then - EMSGSIZE else 0, x)))
            else Inr (0, x))
        else Inr (0, x)) (\<lambda>(err, x).
     if err \<noteq> 0 then err_free err x
     else crash_bind (upd_msg (genlmsg_end N) x) (\<lambda>x.
       crash_bind
         (if is_last then
            crash_bind (put_done N x) (\<lambda>(ok, x).
              if \<not> ok then
                crash_bind (mdio_nl_flush N x) (\<lambda>(err, x).
                  if err \<noteq> 0 then Inr (err, x)
                  else crash_bind (put_done N x) (\<lambda>(ok, x).
                         Inr (if \<not> ok then - EMSGSIZE else 0, x)))
              else Inr (0, x))
          else Inr (0, x)) (\<lambda>(err, x).
       if err \<noteq> 0 then err_free err x else unicast N x))))"
| "mdio_nl_flush N x =
     crash_bind (mdio_nl_close N x False 0) (\<lambda>(err, x).
       if err \<noteq> 0 then Inr (err, x) else Inr (mdio_nl_open N x))"
  by pat_completeness auto
termination
  by (relation "measure (\<lambda>a. case a of
         Inl (N, x, is_last, xerr) \<Rightarrow> if is_last \<or> xerr \<noteq> 0 then 2 else 0 | Inr _ \<Rightarrow> 1)") auto

declare mdio_nl_close.simps [simp del] mdio_nl_flush.simps [simp del]

definition mdio_nl_emit ::
  "('m, 'n) nl_api \<Rightarrow> ('m, 'n, 'w) xfer \<Rightarrow> u32 \<Rightarrow> crash + (int \<times> ('m, 'n, 'w) xfer)" where
  "mdio_nl_emit N x datum =
     (case x_msg x of
        Live m \<Rightarrow>
          (case nla_put_nohdr N m datum of (r, m) \<Rightarrow>
             if r = 0 then Inr (0, set_msg m x)
             else crash_bind (mdio_nl_flush N (set_msg m x)) (\<lambda>(err, x).
               if err \<noteq> 0 then Inr (err, x)
               else case x_msg x of
                      Live m \<Rightarrow> (case nla_put_nohdr N m datum of (r, m) \<Rightarrow> Inr (r, set_msg m x))
                    | _ \<Rightarrow> Inl Bad_Msg))
      | _ \<Rightarrow> Inl Bad_Msg)"

end
