(* ===== verification/Nl_Eval.thy ===== *)
theory Nl_Eval
  imports Nl_Xfer
begin

text \<open>
  The interpreter of \<^verbatim>\<open>kernel/mdio-netlink.c\<close>: operand access, \<^verbatim>\<open>mdio_nl_eval\<close>
  and the command handler \<^verbatim>\<open>mdio_nl_cmd_xfer\<close>. Registers are an array of eight 16-bit
  values, the program counter is an unsigned 32-bit integer, the deadline is checked before
  every instruction against a clock given as the sequence of values successive reads of
  \<^verbatim>\<open>jiffies\<close> return. A failed \<^verbatim>\<open>BUG_ON\<close> is the fault \<open>BUG\<close>.
\<close>

section \<open>Operands\<close>

definition arg_r :: "u18 \<Rightarrow> crash + nat" where
  "arg_r arg = (if drop_bit 16 arg \<noteq> ARG_REG then Inl BUG else Inr (unat (arg AND 7)))"

definition arg_i :: "u18 \<Rightarrow> crash + u16" where
  "arg_i arg = (if drop_bit 16 arg \<noteq> ARG_IMM then Inl BUG else Inr (ucast (arg AND 0xffff)))"

definition arg_ri :: "u18 \<Rightarrow> u16 list \<Rightarrow> crash + u16" where
  "arg_ri arg rs =
     (if drop_bit 16 arg = ARG_IMM then Inr (ucast (arg AND 0xffff))
      else if drop_bit 16 arg = ARG_REG then Inr (rs ! unat (arg AND 7))
      else Inl BUG)"

section \<open>One instruction\<close>

text \<open>
  Everything the kernel provides: the bus, netlink, time and the lookup of a bus by name.
\<close>

record ('m, 'n, 'w) kernel =
  k_bus :: "'w bus_api"
  k_nl :: "('m, 'n) nl_api"
  time_after :: "u64 \<Rightarrow> u64 \<Rightarrow> bool"
  msecs_to_jiffies :: "int \<Rightarrow> u64"
  mdio_find_bus :: "string \<Rightarrow> bool"

text \<open>The local variables of the interpreter that survive an iteration.\<close>

record ('m, 'n, 'w) istate =
  i_regs :: "u16 list"
  i_pc :: u32
  i_xfer :: "('m, 'n, 'w) xfer"

definition set_xbus :: "'w \<Rightarrow> ('m, 'n, 'w) istate \<Rightarrow> ('m, 'n, 'w) istate" where
  "set_xbus w st = st\<lparr>i_xfer := (i_xfer st)\<lparr>x_mdio := w\<rparr>\<rparr>"

definition exec_read ::
  "('m, 'n, 'w) kernel \<Rightarrow> mdio_nl_insn \<Rightarrow> ('m, 'n, 'w) istate \<Rightarrow> crash + (int \<times> ('m, 'n, 'w) istate)" where
  "exec_read K insn st =
     (let B = k_bus K; w = x_mdio (i_xfer st) in
      crash_bind (arg_ri (insn_arg0 insn) (i_regs st)) (\<lambda>dev.
      crash_bind (arg_ri (insn_arg1 insn) (i_regs st)) (\<lambda>port.
      case (if mdio_phy_id_is_c45 B dev
            then mdiobus_c45_read B (mdio_phy_id_prtad B dev) (mdio_phy_id_devad B dev) port w
            else mdiobus_read B dev port w) of (ret, w) \<Rightarrow>
        let st = set_xbus w st in
        if ret < 0 then Inr (ret, st)
        else crash_bind (arg_r (insn_arg2 insn)) (\<lambda>r.
               Inr (0, st\<lparr>i_regs := (i_regs st)[r := word_of_int ret]\<rparr>)))))"

definition exec_write ::
  "('m, 'n, 'w) kernel \<Rightarrow> mdio_nl_insn \<Rightarrow> ('m, 'n, 'w) istate \<Rightarrow> crash + (int \<times> ('m, 'n, 'w) istate)" where
  "exec_write K insn st =
     (let B = k_bus K; w = x_mdio (i_xfer st) in
      crash_bind (arg_ri (insn_arg0 insn) (i_regs st)) (\<lambda>dev.
      crash_bind (arg_ri (insn_arg1 insn) (i_regs st)) (\<lambda>port.
      crash_bind (arg_ri (insn_arg2 insn) (i_regs st)) (\<lambda>val.
      case (if mdio_phy_id_is_c45 B dev
            then mdiobus_c45_write B (mdio_phy_id_prtad B dev) (mdio_phy_id_devad B dev) port val w
            else mdiobus_write B dev port val w) of (ret, w) \<Rightarrow>
        let st = set_xbus w st in
        if ret < 0 then Inr (ret, st) else Inr (0, st)))))"

definition exec_alu ::
  "(u16 \<Rightarrow> u16 \<Rightarrow> u16) \<Rightarrow> mdio_nl_insn \<Rightarrow> ('m, 'n, 'w) istate \<Rightarrow> crash + (int \<times> ('m, 'n, 'w) istate)" where
  "exec_alu f insn st =
     crash_bind (arg_r (insn_arg2 insn)) (\<lambda>r.
     crash_bind (arg_ri (insn_arg0 insn) (i_regs st)) (\<lambda>a.
     crash_bind (arg_ri (insn_arg1 insn) (i_regs st)) (\<lambda>b.
       Inr (0, st\<lparr>i_regs := (i_regs st)[r := f a b]\<rparr>))))"

definition exec_jump ::
  "(u16 \<Rightarrow> u16 \<Rightarrow> bool) \<Rightarrow> mdio_nl_insn \<Rightarrow> ('m, 'n, 'w) istate \<Rightarrow> crash + (int \<times> ('m, 'n, 'w) istate)" where
  "exec_jump cond insn st =
     crash_bind (arg_ri (insn_arg0 insn) (i_regs st)) (\<lambda>a.
     crash_bind (arg_ri (insn_arg1 insn) (i_regs st)) (\<lambda>b.
       if cond a b
       then crash_bind (arg_i (insn_arg2 insn)) (\<lambda>j. Inr (0, st\<lparr>i_pc := i_pc st + scast j\<rparr>))
       else Inr (0, st)))"

definition exec_emit ::
  "('m, 'n, 'w) kernel \<Rightarrow> mdio_nl_insn \<Rightarrow> ('m, 'n, 'w) istate \<Rightarrow> crash + (int \<times> ('m, 'n, 'w) istate)" where
  "exec_emit K insn st =
     crash_bind (arg_ri (insn_arg0 insn) (i_regs st)) (\<lambda>a.
     crash_bind (mdio_nl_emit (k_nl K) (i_xfer st) (ucast a)) (\<lambda>(ret, x).
       let st = st\<lparr>i_xfer := x\<rparr> in
       if ret < 0 then Inr (ret, st) else Inr (0, st)))"

text \<open>The body of the loop: a negative result leaves it.\<close>

definition exec_insn ::
  "('m, 'n, 'w) kernel \<Rightarrow> mdio_nl_insn \<Rightarrow> ('m, 'n, 'w) istate \<Rightarrow> crash + (int \<times> ('m, 'n, 'w) istate)" where
  "exec_insn K insn st =
     (case op_of_code (insn_op insn) of
        Some OP_READ \<Rightarrow> exec_read K insn st
      | Some OP_WRITE \<Rightarrow> exec_write K insn st
      | Some OP_AND \<Rightarrow> exec_alu (AND) insn st
      | Some OP_OR \<Rightarrow> exec_alu (OR) insn st
      | Some OP_ADD \<Rightarrow> exec_alu (+) insn st
      | Some OP_JEQ \<Rightarrow> exec_jump (=) insn st
      | Some OP_JNE \<Rightarrow> exec_jump (\<noteq>) insn st
      | Some OP_EMIT \<Rightarrow> exec_emit K insn st
      | Some OP_UNSPEC \<Rightarrow> Inr (- EINVAL, st)
      | None \<Rightarrow> Inr (- EINVAL, st))"

section \<open>The interpreter loop\<close>

text \<open>
  \<open>clk i\<close> is the value of \<^verbatim>\<open>jiffies\<close> at its \<open>i\<close>-th read. \<open>None\<close> means that the fuel
  is used up, not that the code returns; theorem \<open>eval_returns\<close> bounds the fuel.
\<close>

fun eval_loop ::
  "('m, 'n, 'w) kernel \<Rightarrow> (nat \<Rightarrow> u64) \<Rightarrow> u64 \<Rightarrow> nat \<Rightarrow> nat \<Rightarrow> ('m, 'n, 'w) istate \<Rightarrow>
   (crash + (int \<times> ('m, 'n, 'w) xfer)) option" where
  "eval_loop K clk timeout 0 tick st = None"
| "eval_loop K clk timeout (Suc fuel) tick st =
     (if i_pc st < word_of_int (x_prog_len (i_xfer st)) then
        if time_after K (clk tick) timeout then Some (Inr (- ETIMEDOUT, i_xfer st))
        else (case exec_insn K (x_prog (i_xfer st) ! unat (i_pc st)) st of
                Inl c \<Rightarrow> Some (Inl c)
              | Inr (ret, st) \<Rightarrow>
                  if ret < 0 then Some (Inr (ret, i_xfer st))
                  else eval_loop K clk timeout fuel (Suc tick) (st\<lparr>i_pc := i_pc st + 1\<rparr>))
      else Some (Inr (0, i_xfer st)))"

definition mdio_nl_eval ::
  "('m, 'n, 'w) kernel \<Rightarrow> (nat \<Rightarrow> u64) \<Rightarrow> nat \<Rightarrow> ('m, 'n, 'w) xfer \<Rightarrow>
   (crash + (int \<times> ('m, 'n, 'w) xfer)) option" where
  "mdio_nl_eval K clk fuel x =
     (let timeout = clk 0 + msecs_to_jiffies K (x_timeout_ms x);
          st = \<lparr>i_regs = replicate 8 0, i_pc = 0, i_xfer = x\<lparr>x_locked := True\<rparr>\<rparr> in
      case eval_loop K clk timeout fuel 1 st of
        Some (Inr (ret, x)) \<Rightarrow> Some (Inr (ret, x\<lparr>x_locked := False\<rparr>))
      | r \<Rightarrow> r)"

section \<open>The command handler\<close>

text \<open>
  The attributes of a request. The timeout is the value \<^verbatim>\<open>nla_get_u32\<close> reads.
\<close>

record genl_info =
  attr_bus_id :: "string option"
  attr_timeout :: "u32 option"
  attr_prog :: "prog_attr option"
  attr_data :: bool
  attr_error :: bool

record ('n, 'w) ksys =
  sys_sock :: 'n
  sys_bus :: 'w
  sys_locked :: bool
  sys_refs :: int

definition init_xfer :: "genl_info \<Rightarrow> prog_attr \<Rightarrow> ('n, 'w) ksys \<Rightarrow> ('m, 'n, 'w) xfer" where
  "init_xfer info prog s =
     \<lparr>x_msg = Null,
      x_timeout_ms = (case attr_timeout info of Some t \<Rightarrow> sint t | None \<Rightarrow> 100),
      x_prog_len = int (nla_len prog div 8),
      x_prog = nla_data prog,
      x_mdio = sys_bus s,
      x_locked = sys_locked s,
      x_sock = sys_sock s\<rparr>"

text \<open>
  \<^verbatim>\<open>mdio_find_bus\<close> takes a reference on the bus device, \<^verbatim>\<open>put_device\<close> drops it.
\<close>

definition get_device :: "('n, 'w) ksys \<Rightarrow> ('n, 'w) ksys" where
  "get_device s = s\<lparr>sys_refs := sys_refs s + 1\<rparr>"

definition put_device :: "('m, 'n, 'w) xfer \<Rightarrow> ('n, 'w) ksys \<Rightarrow> ('n, 'w) ksys" where
  "put_device x s =
     \<lparr>sys_sock = x_sock x, sys_bus = x_mdio x, sys_locked = x_locked x, sys_refs = sys_refs s - 1\<rparr>"

text \<open>The handler from \<^verbatim>\<open>mdio_nl_open\<close> on, \<^verbatim>\<open>out_put\<close> included.\<close>

definition xfer_run ::
  "('m, 'n, 'w) kernel \<Rightarrow> (nat \<Rightarrow> u64) \<Rightarrow> nat \<Rightarrow> genl_info \<Rightarrow> prog_attr \<Rightarrow> ('n, 'w) ksys \<Rightarrow>
   (crash + (int \<times> ('n, 'w) ksys)) option" where
  "xfer_run K clk fuel info prog s =
     (case mdio_nl_open (k_nl K) (init_xfer info prog s) of (err, x) \<Rightarrow>
        if err \<noteq> 0 then Some (Inr (err, put_device x s))
        else
          (case mdio_nl_eval K clk fuel x of
             None \<Rightarrow> None
           | Some r \<Rightarrow>
               Some (crash_bind r (\<lambda>(err, x).
                     crash_bind (mdio_nl_close (k_nl K) x True err) (\<lambda>(err, x).
                       Inr (err, put_device x s))))))"

definition mdio_nl_cmd_xfer ::
  "('m, 'n, 'w) kernel \<Rightarrow> (nat \<Rightarrow> u64) \<Rightarrow> nat \<Rightarrow> genl_info \<Rightarrow> ('n, 'w) ksys \<Rightarrow>
   (crash + (int \<times> ('n, 'w) ksys)) option" where
  "mdio_nl_cmd_xfer K clk fuel info s =
     (case (attr_bus_id info, attr_prog info) of
        (Some bus_id, Some prog) \<Rightarrow>
          if attr_data info \<or> attr_error info then Some (Inr (- EINVAL, s))
          else if \<not> mdio_find_bus K bus_id then Some (Inr (- ENODEV, s))
          else xfer_run K clk fuel info prog (get_device s)
      | _ \<Rightarrow> Some (Inr (- EINVAL, s)))"

end
