(* ===== verification/Nl_Stream.thy ===== *)
theory Nl_Stream
  imports Nl_Eval
begin

text \<open>
  What the message handling of the kernel module guarantees: it touches only the message and
  the socket, never ends in a \<open>BUG\<close>, and passes the emitted data on in order, without loss
  or duplication, however often the buffer had to be flushed.
\<close>

section \<open>Frame\<close>

definition same_run :: "('m, 'n, 'w) xfer \<Rightarrow> ('m, 'n, 'w) xfer \<Rightarrow> bool" where
  "same_run x y \<longleftrightarrow>
     x_timeout_ms y = x_timeout_ms x \<and> x_prog_len y = x_prog_len x \<and> x_prog y = x_prog x \<and>
     x_mdio y = x_mdio x \<and> x_locked y = x_locked x"

lemma same_run_refl [simp]: "same_run x x"
  by (simp add: same_run_def)

lemma same_run_trans [trans]: "same_run x y \<Longrightarrow> same_run y z \<Longrightarrow> same_run x z"
  by (simp add: same_run_def)

lemma same_run_upd [simp]:
  "same_run x (y\<lparr>x_msg := m\<rparr>) = same_run x y"
  "same_run x (y\<lparr>x_sock := n\<rparr>) = same_run x y"
  "same_run x (set_msg m' y) = same_run x y"
  "same_run (set_msg m' x) y = same_run x y"
  by (simp_all add: same_run_def set_msg_def)

section \<open>Weakest preconditions\<close>

text \<open>
  \<open>crash_post Q E m\<close>: a result of \<open>m\<close> satisfies \<open>Q\<close>, a fault satisfies \<open>E\<close>.
\<close>

definition crash_post :: "('a \<Rightarrow> bool) \<Rightarrow> (crash \<Rightarrow> bool) \<Rightarrow> crash + 'a \<Rightarrow> bool" where
  "crash_post Q E m = (case m of Inl c \<Rightarrow> E c | Inr x \<Rightarrow> Q x)"

lemma crash_post_simps [simp]:
  "crash_post Q E (Inl c) = E c" "crash_post Q E (Inr x) = Q x"
  by (simp_all add: crash_post_def)

lemma crash_post_bind [simp]:
  "crash_post Q E (crash_bind m f) = crash_post (\<lambda>x. crash_post Q E (f x)) E m"
  by (cases m) simp_all

lemma crash_post_mono:
  "crash_post Q E m \<Longrightarrow> (\<And>x. Q x \<Longrightarrow> Q' x) \<Longrightarrow> (\<And>c. E c \<Longrightarrow> E' c) \<Longrightarrow> crash_post Q' E' m"
  by (cases m) simp_all

lemma crash_post_bindI:
  assumes "crash_post R E m" and "\<And>x. R x \<Longrightarrow> crash_post Q E (f x)"
  shows "crash_post Q E (crash_bind m f)"
  using assms by (cases m) simp_all

lemma crash_post_if:
  "crash_post Q E (if b then m else m') = (if b then crash_post Q E m else crash_post Q E m')"
  by simp

section \<open>The documented behaviour of netlink\<close>

text \<open>
  \<open>md m\<close> are the data put into a message, \<open>sd n\<close> the data delivered through the socket.
  The laws: a new message is empty; putting a value appends it or fails with a negative error
  and changes nothing; the other calls leave the data alone; sending delivers the data of the
  message, or fails with a negative error and delivers nothing.
\<close>

definition netlink_ok :: "('m, 'n) nl_api \<Rightarrow> ('m \<Rightarrow> u32 list) \<Rightarrow> ('n \<Rightarrow> u32 list) \<Rightarrow> bool" where
  "netlink_ok N md sd \<longleftrightarrow>
     (\<forall>n n'. nlmsg_new N n = (None, n') \<longrightarrow> sd n' = sd n) \<and>
     (\<forall>n m n'. nlmsg_new N n = (Some m, n') \<longrightarrow> md m = [] \<and> sd n' = sd n) \<and>
     (\<forall>m m'. genlmsg_put N m = Some m' \<longrightarrow> md m' = md m) \<and>
     (\<forall>m m'. nla_nest_start N m = Some m' \<longrightarrow> md m' = md m) \<and>
     (\<forall>m v r m'. nla_put_nohdr N m v = (r, m') \<longrightarrow>
        r \<le> 0 \<and> md m' = (if r = 0 then md m @ [v] else md m)) \<and>
     (\<forall>m. md (nla_nest_end N m) = md m) \<and>
     (\<forall>m e r m'. nla_put_error N m e = (r, m') \<longrightarrow> md m' = md m) \<and>
     (\<forall>m. md (genlmsg_end N m) = md m) \<and>
     (\<forall>m m'. nlmsg_put_done N m = Some m' \<longrightarrow> md m' = md m) \<and>
     (\<forall>m n r n'. genlmsg_unicast N m n = (r, n') \<longrightarrow>
        r \<le> 0 \<and> sd n' = (if r = 0 then sd n @ md m else sd n))"

lemma netlink_okD:
  assumes "netlink_ok N md sd"
  shows "nlmsg_new N n = (None, n') \<Longrightarrow> sd n' = sd n"
    and "nlmsg_new N n = (Some m, n') \<Longrightarrow> md m = [] \<and> sd n' = sd n"
    and "genlmsg_put N m = Some m' \<Longrightarrow> md m' = md m"
    and "nla_nest_start N m = Some m' \<Longrightarrow> md m' = md m"
    and "nla_put_nohdr N m v = (r, m') \<Longrightarrow> r \<le> 0 \<and> md m' = (if r = 0 then md m @ [v] else md m)"
    and "md (nla_nest_end N m) = md m"
    and "nla_put_error N m e = (r, m') \<Longrightarrow> md m' = md m"
    and "md (genlmsg_end N m) = md m"
    and "nlmsg_put_done N m = Some m' \<Longrightarrow> md m' = md m"
    and "genlmsg_unicast N m n = (r, n') \<Longrightarrow> r \<le> 0 \<and> sd n' = (if r = 0 then sd n @ md m else sd n)"
  using assms unfolding netlink_ok_def by - (elim conjE, metis)+

definition pending :: "('m \<Rightarrow> u32 list) \<Rightarrow> 'm mptr \<Rightarrow> u32 list" where
  "pending md p = (case p of Live m \<Rightarrow> md m | _ \<Rightarrow> [])"

definition stream ::
  "('m \<Rightarrow> u32 list) \<Rightarrow> ('n \<Rightarrow> u32 list) \<Rightarrow> ('m, 'n, 'w) xfer \<Rightarrow> u32 list" where
  "stream md sd x = sd (x_sock x) @ pending md (x_msg x)"

section \<open>Steps\<close>

text \<open>
  Every step either keeps the frame and the stream or returns a negative error; the only fault
  is \<open>Bad_Msg\<close>. \<open>keeps N md sd x (r, y)\<close> says so of the pair a call returns.
\<close>

definition keeps ::
  "('m, 'n) nl_api \<Rightarrow> ('m \<Rightarrow> u32 list) \<Rightarrow> ('n \<Rightarrow> u32 list) \<Rightarrow>
   ('m, 'n, 'w) xfer \<Rightarrow> ('m, 'n, 'w) xfer \<Rightarrow> bool" where
  "keeps N md sd x y \<longleftrightarrow>
     same_run x y \<and> (netlink_ok N md sd \<longrightarrow> stream md sd y = stream md sd x)"

abbreviation bad_msg :: "crash \<Rightarrow> bool" where
  "bad_msg c \<equiv> c = Bad_Msg"

lemma keeps_refl [simp]: "keeps N md sd x x"
  by (simp add: keeps_def)

lemma keeps_trans: "keeps N md sd x y \<Longrightarrow> keeps N md sd y z \<Longrightarrow> keeps N md sd x z"
  by (auto simp: keeps_def intro: same_run_trans)

lemma keeps_same_run: "keeps N md sd x y \<Longrightarrow> same_run x y"
  by (simp add: keeps_def)

lemma keeps_set_msg:
  assumes "x_msg x = Live m" and "netlink_ok N md sd \<Longrightarrow> md m' = md m"
  shows "keeps N md sd x (set_msg m' x)"
  using assms by (auto simp: keeps_def stream_def pending_def set_msg_def same_run_def)

lemma upd_msg_nest_end:
  "crash_post (\<lambda>y. keeps N md sd x y \<and> (\<exists>m. x_msg y = Live m)) bad_msg
     (upd_msg (nla_nest_end N) x)"
  by (auto simp: upd_msg_def set_msg_def split: mptr.split
      intro!: keeps_set_msg [unfolded set_msg_def] intro: netlink_okD)

lemma upd_msg_genlmsg_end:
  "crash_post (\<lambda>y. keeps N md sd x y \<and> (\<exists>m. x_msg y = Live m)) bad_msg
     (upd_msg (genlmsg_end N) x)"
  by (auto simp: upd_msg_def set_msg_def split: mptr.split
      intro!: keeps_set_msg [unfolded set_msg_def] intro: netlink_okD)

lemma put_error_post:
  "crash_post (\<lambda>(r, y). keeps N md sd x y \<and> (\<exists>m. x_msg y = Live m)) bad_msg
     (put_error N xerr x)"
  by (auto simp: put_error_def set_msg_def split: mptr.split prod.splits
      intro!: keeps_set_msg [unfolded set_msg_def] intro: netlink_okD)

lemma put_done_post:
  "crash_post (\<lambda>(ok, y). keeps N md sd x y \<and> (\<exists>m. x_msg y = Live m)) bad_msg (put_done N x)"
  by (auto simp: put_done_def set_msg_def split: mptr.split option.splits
      intro!: keeps_set_msg [unfolded set_msg_def] intro: netlink_okD)

text \<open>
  A step that can fail: its error is negative, and when it succeeds the stream is as before.
\<close>

definition sends ::
  "('m, 'n) nl_api \<Rightarrow> ('m \<Rightarrow> u32 list) \<Rightarrow> ('n \<Rightarrow> u32 list) \<Rightarrow> ('m mptr \<Rightarrow> bool) \<Rightarrow>
   ('m, 'n, 'w) xfer \<Rightarrow> int \<times> ('m, 'n, 'w) xfer \<Rightarrow> bool" where
  "sends N md sd p x ry \<longleftrightarrow>
     same_run x (snd ry) \<and> (fst ry = 0 \<longrightarrow> p (x_msg (snd ry))) \<and>
     (netlink_ok N md sd \<longrightarrow>
        fst ry \<le> 0 \<and> (fst ry = 0 \<longrightarrow> stream md sd (snd ry) = stream md sd x))"

definition is_live :: "'m mptr \<Rightarrow> bool" where
  "is_live p \<longleftrightarrow> (\<exists>m. p = Live m)"

lemma keeps_sends: "keeps N md sd x y \<Longrightarrow> sends N md sd p y rz \<Longrightarrow> sends N md sd p x rz"
  by (auto simp: keeps_def sends_def intro: same_run_trans)

lemma sends_ok_keeps: "sends N md sd p x (0, y) \<Longrightarrow> keeps N md sd x y \<and> p (x_msg y)"
  by (simp add: keeps_def sends_def)

lemma sends_err:
  "sends N md sd p x (err, y) \<Longrightarrow> err \<noteq> 0 \<Longrightarrow> same_run y z \<Longrightarrow> sends N md sd q x (err, z)"
  by (auto simp: sends_def intro: same_run_trans)

lemma keeps_err:
  "keeps N md sd x y \<Longrightarrow> err < 0 \<Longrightarrow> sends N md sd q x (err, y)"
  by (auto simp: sends_def keeps_def)

lemma keeps_ok:
  "keeps N md sd x y \<Longrightarrow> p (x_msg y) \<Longrightarrow> sends N md sd p x (0, y)"
  by (auto simp: sends_def keeps_def)

lemma unicast_post:
  "crash_post (sends N md sd (\<lambda>p. p = Freed) x) bad_msg (unicast N x)"
proof (cases "x_msg x")
  case (Live m)
  obtain r n where u: "genlmsg_unicast N m (x_sock x) = (r, n)" by fastforce
  show ?thesis
    using Live u netlink_okD(10) [OF _ u]
    by (auto simp: unicast_def sends_def stream_def pending_def same_run_def)
qed (simp_all add: unicast_def)

lemma open_post:
  assumes "\<not> is_live (x_msg x)"
  shows "sends N md sd is_live x (mdio_nl_open N x)"
  using assms
  by (auto simp: mdio_nl_open_def sends_def stream_def pending_def is_live_def same_run_def
      errno_defs split: option.splits prod.splits mptr.splits dest: netlink_okD(1) [rotated])
     (metis append_Nil2 netlink_okD(2) netlink_okD(3) netlink_okD(4))+

lemma nlmsg_free_post: "crash_post (same_run x) bad_msg (nlmsg_free x)"
  by (auto simp: nlmsg_free_def split: mptr.split)

lemma err_free_post:
  assumes "sends N md sd p x (err, y)" and "err \<noteq> 0"
  shows "crash_post (sends N md sd q x) bad_msg (err_free err y)"
  unfolding err_free_def
  by (auto intro!: crash_post_mono [OF nlmsg_free_post] sends_err [OF assms])

section \<open>Close, flush, emit\<close>

lemma close_plain_post:
  "crash_post (sends N md sd (\<lambda>p. p = Freed) x) bad_msg (mdio_nl_close N x False 0)"
  unfolding mdio_nl_close.simps [of N x False 0]
  by (simp, rule crash_post_mono [OF upd_msg_nest_end [of N md sd x]])
     (auto intro!: crash_post_mono [OF upd_msg_genlmsg_end [of N md sd]]
        crash_post_mono [OF unicast_post [of N md sd]] intro: keeps_sends)

lemma flush_post: "crash_post (sends N md sd is_live x) bad_msg (mdio_nl_flush N x)"
  unfolding mdio_nl_flush.simps crash_post_bind
proof (rule crash_post_mono [OF close_plain_post [of N md sd x]])
  fix ry :: "int \<times> ('a, 'b, 'c) xfer"
  obtain r y where ry: "ry = (r, y)" by fastforce
  assume "sends N md sd (\<lambda>p. p = Freed) x ry"
  then show "crash_post (sends N md sd is_live x) bad_msg
      (case ry of (err, x) \<Rightarrow> if err \<noteq> 0 then Inr (err, x) else Inr (mdio_nl_open N x))"
    unfolding ry
    by (cases "r = 0")
       (auto simp: is_live_def intro: sends_err
          dest!: sends_ok_keeps intro!: keeps_sends [OF _ open_post])
qed simp

text \<open>The two retries of \<^verbatim>\<open>mdio_nl_close\<close>, each a flush and a second attempt.\<close>

lemma retry_error_post:
  assumes "keeps N md sd x y"
  shows "crash_post (sends N md sd is_live x) bad_msg
     (crash_bind (mdio_nl_flush N y) (\<lambda>(err, x).
        if err \<noteq> 0 then Inr (err, x)
        else crash_bind (put_error N xerr x) (\<lambda>(r, x). Inr (if r \<noteq> 0 then - EMSGSIZE else 0, x))))"
  unfolding crash_post_bind
proof (rule crash_post_mono [OF flush_post [of N md sd y]])
  fix rz assume rz: "sends N md sd is_live y rz"
  obtain r z where [simp]: "rz = (r, z)" by fastforce
  show "crash_post (sends N md sd is_live x) bad_msg
      (case rz of (err, x) \<Rightarrow> if err \<noteq> 0 then Inr (err, x)
        else crash_bind (put_error N xerr x) (\<lambda>(r, x). Inr (if r \<noteq> 0 then - EMSGSIZE else 0, x)))"
  proof (cases "r = 0")
    case True
    with rz have "keeps N md sd x z"
      using assms by (auto dest!: sends_ok_keeps intro: keeps_trans)
    then show ?thesis
      using True
      by (auto simp: errno_defs is_live_def intro!: crash_post_mono [OF put_error_post [of N md sd z]]
          keeps_err keeps_ok intro: keeps_trans)
  next
    case False
    then show ?thesis using keeps_sends [OF assms] rz by (auto intro: sends_err)
  qed
qed simp

lemma retry_done_post:
  assumes "keeps N md sd x y"
  shows "crash_post (sends N md sd is_live x) bad_msg
     (crash_bind (mdio_nl_flush N y) (\<lambda>(err, x).
        if err \<noteq> 0 then Inr (err, x)
        else crash_bind (put_done N x) (\<lambda>(ok, x). Inr (if \<not> ok then - EMSGSIZE else 0, x))))"
  unfolding crash_post_bind
proof (rule crash_post_mono [OF flush_post [of N md sd y]])
  fix rz assume rz: "sends N md sd is_live y rz"
  obtain r z where [simp]: "rz = (r, z)" by fastforce
  show "crash_post (sends N md sd is_live x) bad_msg
      (case rz of (err, x) \<Rightarrow> if err \<noteq> 0 then Inr (err, x)
        else crash_bind (put_done N x) (\<lambda>(ok, x). Inr (if \<not> ok then - EMSGSIZE else 0, x)))"
  proof (cases "r = 0")
    case True
    with rz have "keeps N md sd x z"
      using assms by (auto dest!: sends_ok_keeps intro: keeps_trans)
    then show ?thesis
      using True
      by (auto simp: errno_defs is_live_def intro!: crash_post_mono [OF put_done_post [of N md sd z]]
          keeps_err keeps_ok intro: keeps_trans)
  next
    case False
    then show ?thesis using keeps_sends [OF assms] rz by (auto intro: sends_err)
  qed
qed simp

lemma error_part_post:
  assumes y: "keeps N md sd x y" "is_live (x_msg y)"
  shows "crash_post (sends N md sd is_live x) bad_msg
     (if xerr \<noteq> 0 then
        crash_bind (put_error N xerr y) (\<lambda>(r, x).
          if r \<noteq> 0 then
            crash_bind (mdio_nl_flush N x) (\<lambda>(err, x).
              if err \<noteq> 0 then Inr (err, x)
              else crash_bind (put_error N xerr x) (\<lambda>(r, x).
                     Inr (if r \<noteq> 0 then - EMSGSIZE else 0, x)))
          else Inr (0, x))
      else Inr (0, y))"
proof (cases "xerr = 0")
  case False
  then show ?thesis
    by (simp only: simp_thms if_True,
        intro crash_post_bindI [OF put_error_post [of N md sd y]])
       (auto intro!: keeps_ok keeps_trans [OF y(1)] retry_error_post
          simp del: crash_post_bind simp: is_live_def)
qed (use y in \<open>auto intro: keeps_ok\<close>)

lemma done_part_post:
  assumes y: "keeps N md sd x y" "is_live (x_msg y)"
  shows "crash_post (sends N md sd is_live x) bad_msg
     (if is_last then
        crash_bind (put_done N y) (\<lambda>(ok, x).
          if \<not> ok then
            crash_bind (mdio_nl_flush N x) (\<lambda>(err, x).
              if err \<noteq> 0 then Inr (err, x)
              else crash_bind (put_done N x) (\<lambda>(ok, x).
                     Inr (if \<not> ok then - EMSGSIZE else 0, x)))
          else Inr (0, x))
      else Inr (0, y))"
proof (cases is_last)
  case True
  then show ?thesis
    by (simp only: simp_thms if_True,
        intro crash_post_bindI [OF put_done_post [of N md sd y]])
       (auto intro!: keeps_ok keeps_trans [OF y(1)] retry_done_post
          simp del: crash_post_bind simp: is_live_def)
qed (use y in \<open>auto intro: keeps_ok\<close>)

lemma close_tail_post:
  assumes "sends N md sd is_live x (err, z)"
  shows "crash_post (sends N md sd (\<lambda>p. p = Freed) x) bad_msg
     (if err \<noteq> 0 then err_free err z else unicast N z)"
proof (cases "err = 0")
  case True
  with assms have "keeps N md sd x z" by (auto dest: sends_ok_keeps)
  with True show ?thesis
    by (auto intro!: crash_post_mono [OF unicast_post [of N md sd z]] intro: keeps_sends)
qed (use assms in \<open>auto intro: err_free_post\<close>)

lemma close_post:
  "crash_post (sends N md sd (\<lambda>p. p = Freed) x) bad_msg (mdio_nl_close N x is_last xerr)"
  unfolding mdio_nl_close.simps [of N x is_last xerr]
proof (rule crash_post_bindI [OF upd_msg_nest_end [of N md sd x]],
    rule crash_post_bindI [OF error_part_post [of N md sd x]])
  fix y ez
  assume "sends N md sd is_live x ez"
  then obtain err z where ez: "ez = (err, z)" and z: "sends N md sd is_live x (err, z)"
    by (cases ez) auto
  show "crash_post (sends N md sd (\<lambda>p. p = Freed) x) bad_msg
     (case ez of (err, x) \<Rightarrow>
        if err \<noteq> 0 then err_free err x
        else crash_bind (upd_msg (genlmsg_end N) x) (\<lambda>x.
          crash_bind
            (if is_last then
               crash_bind (put_done N x) (\<lambda>(ok, x).
                 if \<not> ok then
                   crash_bind (mdio_nl_flush N x) (\<lambda>(err, x).
                     if err \<noteq> 0 then Inr (err, x)
                     else crash_bind (put_done N x) (\<lambda>(ok, x).
                            Inr (if \<not> ok then - EMSGSIZE else 0, x)))
                 else Inr (0, x))
             else Inr (0, x)) (\<lambda>(err, x).
          if err \<noteq> 0 then err_free err x else unicast N x)))"
  proof (cases "err = 0")
    case True
    then have k: "keeps N md sd x z" using z by (auto dest: sends_ok_keeps)
    show ?thesis
      unfolding ez prod.case True
      by (simp only: if_False simp_thms,
          rule crash_post_bindI [OF upd_msg_genlmsg_end [of N md sd z]],
          rule crash_post_bindI [OF done_part_post [of N md sd x]])
         (auto intro: keeps_trans [OF k] close_tail_post simp: is_live_def)
  qed (use z ez in \<open>auto intro: err_free_post\<close>)
qed (auto simp: is_live_def)

lemma emit_post:
  "crash_post (\<lambda>(r, y). same_run x y \<and>
      (netlink_ok N md sd \<longrightarrow> r \<le> 0 \<and> (r = 0 \<longrightarrow> stream md sd y = stream md sd x @ [v]))) bad_msg
     (mdio_nl_emit N x v)"
proof -
  have put: "netlink_ok N md sd \<Longrightarrow> x_msg y = Live m \<Longrightarrow> nla_put_nohdr N m v = (r, m') \<Longrightarrow>
      r \<le> 0 \<and> stream md sd (set_msg m' y) = (if r = 0 then stream md sd y @ [v] else stream md sd y)"
    for y :: "('a, 'b, 'c) xfer" and m r m'
    using netlink_okD(5) [of N md sd m v r m']
    by (auto simp: stream_def pending_def set_msg_def)
  show ?thesis
  proof (cases "x_msg x")
    case (Live m)
    obtain r m' where p: "nla_put_nohdr N m v = (r, m')" by fastforce
    show ?thesis
    proof (cases "r = 0")
      case True
      with Live p put show ?thesis by (auto simp: mdio_nl_emit_def)
    next
      case False
      have k: "keeps N md sd x (set_msg m' x)"
        using put [OF _ Live p] False by (auto simp: keeps_def)
      have retry: "crash_post (\<lambda>(r, y). same_run x y \<and>
          (netlink_ok N md sd \<longrightarrow> r \<le> 0 \<and> (r = 0 \<longrightarrow> stream md sd y = stream md sd x @ [v]))) bad_msg
        (case x_msg y of
           Live m \<Rightarrow> (case nla_put_nohdr N m v of (r, m) \<Rightarrow> Inr (r, set_msg m y))
         | _ \<Rightarrow> Inl Bad_Msg)"
        if y: "keeps N md sd x y" for y
      proof (cases "x_msg y")
        case (Live m2)
        obtain r2 m3 where p2: "nla_put_nohdr N m2 v = (r2, m3)" by fastforce
        show ?thesis
          using Live p2 put [OF _ Live p2] y by (auto simp: keeps_def)
      qed simp_all
      have tail: "crash_post (\<lambda>(r, y). same_run x y \<and>
          (netlink_ok N md sd \<longrightarrow> r \<le> 0 \<and> (r = 0 \<longrightarrow> stream md sd y = stream md sd x @ [v]))) bad_msg
        (case rz of (err, y) \<Rightarrow> if err \<noteq> 0 then Inr (err, y)
          else case x_msg y of
                 Live m \<Rightarrow> (case nla_put_nohdr N m v of (r, m) \<Rightarrow> Inr (r, set_msg m y))
               | _ \<Rightarrow> Inl Bad_Msg)"
        if "sends N md sd is_live (set_msg m' x) rz" for rz
      proof (cases rz)
        case (Pair err y)
        have "sends N md sd is_live x (err, y)"
          using keeps_sends [OF k that] Pair by simp
        then consider "err = 0" and "keeps N md sd x y" | "err \<noteq> 0" and "sends N md sd is_live x (err, y)"
          by (cases "err = 0") (auto dest: sends_ok_keeps)
        then show ?thesis
        proof cases
          case 1
          then show ?thesis using retry [of y] by (simp only: Pair prod.case simp_thms if_False)
        qed (auto simp: Pair sends_def)
      qed
      show ?thesis
        using Live p False
        by (simp only: mdio_nl_emit_def mptr.case prod.case if_False simp_thms)
           (rule crash_post_bindI [OF flush_post tail])
    qed
  qed (simp_all add: mdio_nl_emit_def)
qed

end
