(* ===== verification/Vm_Refine.thy ===== *)
theory Vm_Refine
  imports Nl_Stream
begin

text \<open>
  The kernel's interpreter implements the documented virtual machine. One lemma per
  instruction relates \<open>exec_insn\<close> to \<open>vm_effect\<close> and \<open>vm_jump\<close>; the unsigned 32-bit
  program counter of the code implements the integer one of the specification, so that a jump
  before the first or beyond the last instruction halts the program; runs are related by
  induction on the fuel, in both directions.
\<close>

section \<open>Register file\<close>

definition rel_regs :: "u16 list \<Rightarrow> (nat \<Rightarrow> u16) \<Rightarrow> bool" where
  "rel_regs rs f \<longleftrightarrow> length rs = 8 \<and> (\<forall>k < 8. rs ! k = f k)"

lemma rel_regs_init: "rel_regs (replicate 8 0) (\<lambda>_. 0)"
  by (simp add: rel_regs_def)

lemma rel_regs_update:
  "rel_regs rs f \<Longrightarrow> k < 8 \<Longrightarrow> rel_regs (rs[k := v]) (f(k := v))"
  by (auto simp: rel_regs_def nth_list_update)

lemma arg_ri_decode:
  assumes "decode_ri a = Some x" and "rel_regs rs (regs s)"
  shows "arg_ri a rs = Inr (opval s x)"
  using assms unat_and_7_less [of a]
  by (auto simp: decode_ri_def arg_ri_def rel_regs_def split: if_splits)

lemma arg_r_decode: "decode_r a = Some k \<Longrightarrow> arg_r a = Inr k \<and> k < 8"
  using unat_and_7_less [of a] by (auto simp: decode_r_def arg_r_def split: if_splits)

lemma arg_i_decode: "decode_i a = Some j \<Longrightarrow> arg_i a = Inr j"
  by (auto simp: decode_i_def arg_i_def split: if_splits)

section \<open>One instruction\<close>

text \<open>Decoding by cases: what the fields of a valid instruction are.\<close>

lemma decode_cases:
  assumes "decode i = Some v"
  obtains
    (rd) a b r where "op_of_code (insn_op i) = Some OP_READ" "v = VREAD a b r"
      "decode_ri (insn_arg0 i) = Some a" "decode_ri (insn_arg1 i) = Some b" "decode_r (insn_arg2 i) = Some r"
  | (wr) a b c where "op_of_code (insn_op i) = Some OP_WRITE" "v = VWRITE a b c"
      "decode_ri (insn_arg0 i) = Some a" "decode_ri (insn_arg1 i) = Some b" "decode_ri (insn_arg2 i) = Some c"
  | (conj) a b r where "op_of_code (insn_op i) = Some OP_AND" "v = VAND a b r"
      "decode_ri (insn_arg0 i) = Some a" "decode_ri (insn_arg1 i) = Some b" "decode_r (insn_arg2 i) = Some r"
  | (disj) a b r where "op_of_code (insn_op i) = Some OP_OR" "v = VOR a b r"
      "decode_ri (insn_arg0 i) = Some a" "decode_ri (insn_arg1 i) = Some b" "decode_r (insn_arg2 i) = Some r"
  | (add) a b r where "op_of_code (insn_op i) = Some OP_ADD" "v = VADD a b r"
      "decode_ri (insn_arg0 i) = Some a" "decode_ri (insn_arg1 i) = Some b" "decode_r (insn_arg2 i) = Some r"
  | (jeq) a b j where "op_of_code (insn_op i) = Some OP_JEQ" "v = VJEQ a b j"
      "decode_ri (insn_arg0 i) = Some a" "decode_ri (insn_arg1 i) = Some b" "decode_i (insn_arg2 i) = Some j"
  | (jne) a b j where "op_of_code (insn_op i) = Some OP_JNE" "v = VJNE a b j"
      "decode_ri (insn_arg0 i) = Some a" "decode_ri (insn_arg1 i) = Some b" "decode_i (insn_arg2 i) = Some j"
  | (emit) a where "op_of_code (insn_op i) = Some OP_EMIT" "v = VEMIT a"
      "decode_ri (insn_arg0 i) = Some a"
  using assms
  by (auto simp: decode_def decode_rir_def decode_jmp_def
      split: option.splits mdio_nl_op.splits Option.bind_splits)

definition rel_state :: "('m, 'n, 'w) istate \<Rightarrow> 'w mst \<Rightarrow> bool" where
  "rel_state st s \<longleftrightarrow> rel_regs (i_regs st) (regs s) \<and> x_mdio (i_xfer st) = bus s"

text \<open>The part of the transfer no instruction changes.\<close>

definition same_prog :: "('m, 'n, 'w) xfer \<Rightarrow> ('m, 'n, 'w) xfer \<Rightarrow> bool" where
  "same_prog x y \<longleftrightarrow> x_prog y = x_prog x \<and> x_prog_len y = x_prog_len x \<and> x_locked y = x_locked x"

lemma same_prog_refl [simp]: "same_prog x x"
  by (simp add: same_prog_def)

lemma same_prog_trans: "same_prog x y \<Longrightarrow> same_prog y z \<Longrightarrow> same_prog x z"
  by (simp add: same_prog_def)

lemma same_run_same_prog: "same_run x y \<Longrightarrow> same_prog x y"
  by (simp add: same_run_def same_prog_def)

text \<open>What one iteration does, but for \<open>EMIT\<close>, which is the only one to touch the message.\<close>

definition step_matches ::
  "('m, 'n, 'w) istate \<Rightarrow> 'w outcome \<Rightarrow> int \<Rightarrow> int \<times> ('m, 'n, 'w) istate \<Rightarrow> bool" where
  "step_matches st r jump res \<longleftrightarrow>
     (case res of (ret, st') \<Rightarrow>
        i_pc st' = i_pc st + word_of_int jump \<and> same_prog (i_xfer st) (i_xfer st') \<and>
        x_msg (i_xfer st') = x_msg (i_xfer st) \<and> x_sock (i_xfer st') = x_sock (i_xfer st) \<and>
        (case r of Done t \<Rightarrow> ret = 0 \<and> rel_state st' t
                 | Fail e t \<Rightarrow> ret = e \<and> e < 0 \<and> rel_state st' t))"

lemma exec_read_matches:
  assumes "arg_ri (insn_arg0 i) (i_regs st) = Inr (opval s a)"
    and "arg_ri (insn_arg1 i) (i_regs st) = Inr (opval s b)"
    and "arg_r (insn_arg2 i) = Inr r \<and> r < 8" and rel: "rel_state st s"
  shows "\<exists>res. exec_read K i st = Inr res \<and>
           step_matches st (vm_effect (k_bus K) (VREAD a b r) s) 0 res"
proof -
  obtain ret w where w: "bus_read (k_bus K) (opval s a) (opval s b) (bus s) = (ret, w)" by fastforce
  have e: "exec_read K i st =
      (if ret < 0 then Inr (ret, set_xbus w st)
       else Inr (0, (set_xbus w st)\<lparr>i_regs := (i_regs (set_xbus w st))[r := word_of_int ret]\<rparr>))"
    using assms w by (simp add: exec_read_def bus_read_def rel_state_def if_distribR Let_def)
  show ?thesis
    using rel w assms(3) unfolding e
    by (cases "ret < 0")
       (simp_all add: rel_state_def step_matches_def set_reg_def set_xbus_def same_prog_def rel_regs_update)
qed

lemma exec_write_matches:
  assumes "arg_ri (insn_arg0 i) (i_regs st) = Inr (opval s a)"
    and "arg_ri (insn_arg1 i) (i_regs st) = Inr (opval s b)"
    and "arg_ri (insn_arg2 i) (i_regs st) = Inr (opval s c)" and rel: "rel_state st s"
  shows "\<exists>res. exec_write K i st = Inr res \<and>
           step_matches st (vm_effect (k_bus K) (VWRITE a b c) s) 0 res"
proof -
  obtain ret w where w: "bus_write (k_bus K) (opval s a) (opval s b) (opval s c) (bus s) = (ret, w)"
    by fastforce
  have e: "exec_write K i st =
      (if ret < 0 then Inr (ret, set_xbus w st) else Inr (0, set_xbus w st))"
    using assms w by (simp add: exec_write_def bus_write_def rel_state_def if_distribR Let_def)
  show ?thesis
    using rel w unfolding e
    by (cases "ret < 0") (simp_all add: rel_state_def step_matches_def set_xbus_def same_prog_def)
qed

lemma exec_alu_matches:
  assumes "arg_ri (insn_arg0 i) (i_regs st) = Inr (opval s a)"
    and "arg_ri (insn_arg1 i) (i_regs st) = Inr (opval s b)"
    and "arg_r (insn_arg2 i) = Inr r \<and> r < 8" and rel: "rel_state st s"
  shows "\<exists>res. exec_alu f i st = Inr res \<and>
           step_matches st (Done (set_reg r (f (opval s a) (opval s b)) s)) 0 res"
  using assms by (simp add: exec_alu_def step_matches_def rel_state_def set_reg_def rel_regs_update)

lemma exec_jump_matches:
  assumes "arg_ri (insn_arg0 i) (i_regs st) = Inr (opval s a)"
    and "arg_ri (insn_arg1 i) (i_regs st) = Inr (opval s b)"
    and "arg_i (insn_arg2 i) = Inr j" and rel: "rel_state st s"
  shows "\<exists>res. exec_jump cond i st = Inr res \<and>
           step_matches st (Done s) (if cond (opval s a) (opval s b) then sint j else 0) res"
proof (cases "cond (opval s a) (opval s b)")
  case True
  then have "exec_jump cond i st = Inr (0, st\<lparr>i_pc := i_pc st + word_of_int (sint j)\<rparr>)"
    using assms(1-3) by (simp only: exec_jump_def crash_bind.simps if_True scast_eq)
  then show ?thesis using rel True by (simp add: step_matches_def rel_state_def)
next
  case False
  then have "exec_jump cond i st = Inr (0, st)"
    using assms(1-3) by (simp only: exec_jump_def crash_bind.simps if_False)
  then show ?thesis using rel False by (simp add: step_matches_def)
qed

lemma exec_insn_matches:
  fixes st :: "('m, 'n, 'w) istate"
  assumes d: "decode i = Some v" and rel: "rel_state st s" and "\<And>a. v \<noteq> VEMIT a"
  shows "\<exists>res. exec_insn K i st = Inr res \<and>
           step_matches st (vm_effect (k_bus K) v s) (vm_jump v s) res"
proof -
  note regs = rel [unfolded rel_state_def, THEN conjunct1]
  from d show ?thesis
  proof (cases rule: decode_cases)
    case (rd a b r)
    from exec_read_matches [OF arg_ri_decode [OF rd(3) regs] arg_ri_decode [OF rd(4) regs]
      arg_r_decode [OF rd(5)] rel, of K]
    show ?thesis unfolding exec_insn_def rd(1,2) by simp
  next
    case (wr a b c)
    from exec_write_matches [OF arg_ri_decode [OF wr(3) regs] arg_ri_decode [OF wr(4) regs]
      arg_ri_decode [OF wr(5) regs] rel, of K]
    show ?thesis unfolding exec_insn_def wr(1,2) by simp
  next
    case (conj a b r)
    from exec_alu_matches [OF arg_ri_decode [OF conj(3) regs] arg_ri_decode [OF conj(4) regs]
      arg_r_decode [OF conj(5)] rel, of "(AND)"]
    show ?thesis unfolding exec_insn_def conj(1,2) by simp
  next
    case (disj a b r)
    from exec_alu_matches [OF arg_ri_decode [OF disj(3) regs] arg_ri_decode [OF disj(4) regs]
      arg_r_decode [OF disj(5)] rel, of "(OR)"]
    show ?thesis unfolding exec_insn_def disj(1,2) by simp
  next
    case (add a b r)
    from exec_alu_matches [OF arg_ri_decode [OF add(3) regs] arg_ri_decode [OF add(4) regs]
      arg_r_decode [OF add(5)] rel, of "(+)"]
    show ?thesis unfolding exec_insn_def add(1,2) by simp
  next
    case (jeq a b j)
    from exec_jump_matches [OF arg_ri_decode [OF jeq(3) regs] arg_ri_decode [OF jeq(4) regs]
      arg_i_decode [OF jeq(5)] rel, of "(=)"]
    show ?thesis unfolding exec_insn_def jeq(1,2) by simp
  next
    case (jne a b j)
    from exec_jump_matches [OF arg_ri_decode [OF jne(3) regs] arg_ri_decode [OF jne(4) regs]
      arg_i_decode [OF jne(5)] rel, of "(\<noteq>)"]
    show ?thesis unfolding exec_insn_def jne(1,2) by simp
  next
    case (emit a)
    with assms(3) show ?thesis by blast
  qed
qed

lemma exec_emit_post:
  fixes st :: "('m, 'n, 'w) istate"
  assumes d: "decode i = Some (VEMIT a)" and rel: "rel_state st s"
  shows "crash_post (\<lambda>(ret, st'). i_pc st' = i_pc st \<and> same_prog (i_xfer st) (i_xfer st') \<and>
           rel_state st' (s\<lparr>out := out s @ [ucast (opval s a)]\<rparr>) \<and> ret \<le> 0 \<and>
           (netlink_ok (k_nl K) md sd \<longrightarrow> ret = 0 \<longrightarrow>
              stream md sd (i_xfer st') = stream md sd (i_xfer st) @ [ucast (opval s a)]))
         bad_msg (exec_insn K i st)"
  using d
proof (cases rule: decode_cases)
  case (emit b)
  have "arg_ri (insn_arg0 i) (i_regs st) = Inr (opval s a)"
    using arg_ri_decode [OF emit(3), of "i_regs st" s] rel emit(2) by (simp add: rel_state_def)
  then show ?thesis
    using emit(1) rel
    by (auto simp: exec_insn_def exec_emit_def rel_state_def Let_def same_run_def same_prog_def
        intro!: crash_post_mono [OF emit_post [where N = "k_nl K" and md = md and sd = sd]])
qed simp_all

section \<open>The program counter\<close>

text \<open>
  The code keeps the program counter in an unsigned 32-bit integer and adds 16-bit signed
  distances to it; a target before the program wraps to a huge value, which the loop condition
  rejects.
\<close>

definition pc_ok :: "int \<Rightarrow> int \<Rightarrow> u32 \<Rightarrow> bool" where
  "pc_ok L pc w \<longleftrightarrow> w = word_of_int pc \<and> - (2 ^ 15) \<le> pc \<and> pc < L + 2 ^ 15"

lemma pc_ok_in_range:
  assumes "pc_ok L pc w" and "0 \<le> L" and "L < 2 ^ 31"
  shows "w < word_of_int L \<longleftrightarrow> 0 \<le> pc \<and> pc < L"
    and "0 \<le> pc \<Longrightarrow> unat w = nat pc"
proof -
  have L: "uint (word_of_int L :: u32) = L"
    using assms(2,3) by (simp add: uint_word_of_int take_bit_int_eq_self)
  have pos: "uint w = pc" if "0 \<le> pc"
    using assms that by (simp add: pc_ok_def uint_word_of_int take_bit_int_eq_self)
  have neg: "uint w = pc + 2 ^ 32" if "pc < 0"
  proof -
    have "pc mod 2 ^ 32 = (pc + 2 ^ 32) mod 2 ^ 32" by simp
    also have "\<dots> = pc + 2 ^ 32"
      using assms(1) that by (intro mod_pos_pos_trivial) (simp_all add: pc_ok_def)
    finally show ?thesis
      using assms(1) by (simp add: pc_ok_def uint_word_of_int take_bit_eq_mod)
  qed
  show "w < word_of_int L \<longleftrightarrow> 0 \<le> pc \<and> pc < L"
    using assms pos neg L unfolding word_less_def by (cases "0 \<le> pc") (auto simp: pc_ok_def)
  show "unat w = nat pc" if "0 \<le> pc"
    using pos [OF that] by (metis nat_uint_eq)
qed

lemma vm_jump_bounds: "- (2 ^ 15) \<le> vm_jump v s" "vm_jump v s < 2 ^ 15"
  using sint_greater_eq [where ?'a = 16] sint_less [where ?'a = 16]
  by (cases v; fastforce)+

lemma pc_ok_next:
  assumes "pc_ok L pc w" and "0 \<le> pc" and "pc < L"
  shows "pc_ok L (pc + 1 + vm_jump v s) (w + word_of_int (vm_jump v s) + 1)"
  using assms vm_jump_bounds [of v s] by (simp add: pc_ok_def)

section \<open>Runs\<close>

text \<open>The invariant of the interpreter loop, with the program it runs.\<close>

definition loop_inv ::
  "vinsn list \<Rightarrow> ('m, 'n, 'w) istate \<Rightarrow> int \<Rightarrow> 'w mst \<Rightarrow> bool" where
  "loop_inv Q st pc s \<longleftrightarrow>
     decode_prog (x_prog (i_xfer st)) = Some Q \<and> x_prog_len (i_xfer st) = int (length Q) \<and>
     int (length Q) < 2 ^ 31 \<and> rel_state st s \<and> pc_ok (int (length Q)) pc (i_pc st)"

lemma loop_inv_range:
  assumes "loop_inv Q st pc s"
  shows "i_pc st < word_of_int (x_prog_len (i_xfer st)) \<longleftrightarrow> 0 \<le> pc \<and> pc < int (length Q)"
  using assms pc_ok_in_range(1) [of "int (length Q)" pc "i_pc st"] by (simp add: loop_inv_def)

lemma loop_inv_insn:
  assumes "loop_inv Q st pc s" and "0 \<le> pc" and "pc < int (length Q)"
  shows "decode (x_prog (i_xfer st) ! unat (i_pc st)) = Some (Q ! nat pc)"
proof -
  have "unat (i_pc st) = nat pc"
    using assms pc_ok_in_range(2) [of "int (length Q)" pc "i_pc st"] by (simp add: loop_inv_def)
  moreover have "nat pc < length (x_prog (i_xfer st))"
    using assms decode_prog_length by (fastforce simp: loop_inv_def)
  ultimately show ?thesis
    using assms(1) decode_prog_nth by (fastforce simp: loop_inv_def)
qed

lemma loop_inv_next:
  assumes "loop_inv Q st pc s" and "0 \<le> pc" and "pc < int (length Q)"
    and "same_prog (i_xfer st) (i_xfer st')" and "rel_state st' t"
    and "i_pc st' = i_pc st + word_of_int (vm_jump v s)"
  shows "loop_inv Q (st'\<lparr>i_pc := i_pc st' + 1\<rparr>) (pc + 1 + vm_jump v s) t"
  using assms pc_ok_next [of "int (length Q)" pc "i_pc st" v s]
  by (simp add: loop_inv_def same_prog_def rel_state_def)

text \<open>
  One iteration from a state that satisfies the invariant, all instructions together: it does
  not hit a \<open>BUG\<close>, and a continuing iteration is a step of the specified machine.
\<close>

lemma iteration:
  fixes st :: "('m, 'n, 'w) istate"
  assumes inv: "loop_inv Q st pc s" and pc: "0 \<le> pc" "pc < int (length Q)"
  shows "crash_post (\<lambda>(ret, st'). ret \<le> 0 \<and> same_prog (i_xfer st) (i_xfer st') \<and>
           (ret = 0 \<longrightarrow> (\<exists>t. vm_effect (k_bus K) (Q ! nat pc) s = Done t \<and>
              loop_inv Q (st'\<lparr>i_pc := i_pc st' + 1\<rparr>) (pc + 1 + vm_jump (Q ! nat pc) s) t \<and>
              (\<exists>es. out t = out s @ es \<and> (netlink_ok (k_nl K) md sd \<longrightarrow>
                 stream md sd (i_xfer st') = stream md sd (i_xfer st) @ es)))))
         bad_msg (exec_insn K (x_prog (i_xfer st) ! unat (i_pc st)) st)"
proof -
  let ?i = "x_prog (i_xfer st) ! unat (i_pc st)" and ?v = "Q ! nat pc"
  have d: "decode ?i = Some ?v" using loop_inv_insn [OF inv pc] .
  have rel: "rel_state st s" using inv by (simp add: loop_inv_def)
  show ?thesis
  proof (cases "\<exists>a. ?v = VEMIT a")
    case True
    then obtain a where v: "?v = VEMIT a" by blast
    have next_inv: "loop_inv Q (st'\<lparr>i_pc := i_pc st' + 1\<rparr>) (pc + 1)
        (s\<lparr>out := out s @ [ucast (opval s a)]\<rparr>)"
      if "same_prog (i_xfer st) (i_xfer st')" "i_pc st' = i_pc st"
        "rel_state st' (s\<lparr>out := out s @ [ucast (opval s a)]\<rparr>)" for st'
      using loop_inv_next [OF inv pc that(1,3), of "VEMIT a"] that(2) by simp
    show ?thesis
      using d unfolding v
      by (intro crash_post_mono [OF exec_emit_post [where s = s and md = md and sd = sd and K = K]])
         (auto simp: rel intro: next_inv)
  next
    case False
    then obtain ret st' where e: "exec_insn K ?i st = Inr (ret, st')"
      and m: "step_matches st (vm_effect (k_bus K) ?v s) (vm_jump ?v s) (ret, st')"
      using exec_insn_matches [OF d rel] by (metis surj_pair)
    show ?thesis
    proof (cases "vm_effect (k_bus K) ?v s")
      case (Done t)
      then have "out t = out s" using False
        by (cases ?v) (auto simp: set_reg_def split: prod.splits if_splits)
      moreover have "loop_inv Q (st'\<lparr>i_pc := i_pc st' + 1\<rparr>) (pc + 1 + vm_jump ?v s) t"
        using m Done by (intro loop_inv_next [OF inv pc]) (auto simp: step_matches_def)
      ultimately show ?thesis
        using m Done e by (simp add: step_matches_def stream_def)
    next
      case (Fail er t)
      then show ?thesis using m e by (auto simp: step_matches_def)
    qed
  qed
qed

text \<open>What the result of the loop says about the specified machine.\<close>

definition loop_post ::
  "('m, 'n, 'w) kernel \<Rightarrow> ('m \<Rightarrow> u32 list) \<Rightarrow> ('n \<Rightarrow> u32 list) \<Rightarrow> vinsn list \<Rightarrow> nat \<Rightarrow>
   ('m, 'n, 'w) xfer \<Rightarrow> int \<Rightarrow> 'w mst \<Rightarrow> int \<times> ('m, 'n, 'w) xfer \<Rightarrow> bool" where
  "loop_post K md sd Q n x pc s rx \<longleftrightarrow>
     fst rx \<le> 0 \<and> same_prog x (snd rx) \<and>
     (fst rx = 0 \<longrightarrow> (\<exists>t es. vm_run (k_bus K) Q n pc s = Some (Done t) \<and> x_mdio (snd rx) = bus t \<and>
        out t = out s @ es \<and>
        (netlink_ok (k_nl K) md sd \<longrightarrow> stream md sd (snd rx) = stream md sd x @ es)))"

lemma eval_loop_post:
  assumes "loop_inv Q st pc s" and "eval_loop K clk timeout n tick st = Some r"
  shows "crash_post (loop_post K md sd Q n (i_xfer st) pc s) bad_msg r"
  using assms
proof (induction n arbitrary: tick st pc s)
  case (Suc n)
  note inv = Suc.prems(1)
  show ?case
  proof (cases "0 \<le> pc \<and> pc < int (length Q)")
    case False
    then have "r = Inr (0, i_xfer st)"
      using Suc.prems(2) loop_inv_range [OF inv] by (auto simp only: eval_loop.simps split: if_splits)
    then show ?thesis
      using False inv by (auto simp: loop_post_def loop_inv_def rel_state_def)
  next
    case pc: True
    then have run: "i_pc st < word_of_int (x_prog_len (i_xfer st))"
      using loop_inv_range [OF inv] by simp
    let ?step = "exec_insn K (x_prog (i_xfer st) ! unat (i_pc st)) st"
    show ?thesis
    proof (cases "time_after K (clk tick) timeout")
      case True
      then have "r = Inr (- ETIMEDOUT, i_xfer st)" using Suc.prems(2) run by simp
      then show ?thesis by (simp add: loop_post_def errno_defs)
    next
      case time: False
      note it = iteration [OF inv, of K md sd, OF conjunct1 [OF pc] conjunct2 [OF pc]]
      show ?thesis
      proof (cases ?step)
        case (Inl c)
        then show ?thesis using Suc.prems(2) run time it by auto
      next
        case (Inr rst)
        obtain ret st' where rst: "rst = (ret, st')" by fastforce
        show ?thesis
        proof (cases "ret = 0")
          case False
          then show ?thesis
            using Suc.prems(2) run time it Inr rst by (auto simp: loop_post_def)
        next
          case True
          from it Inr rst True obtain t es where
            eff: "vm_effect (k_bus K) (Q ! nat pc) s = Done t" and
            inv': "loop_inv Q (st'\<lparr>i_pc := i_pc st' + 1\<rparr>) (pc + 1 + vm_jump (Q ! nat pc) s) t" and
            es: "out t = out s @ es" "netlink_ok (k_nl K) md sd \<Longrightarrow>
                 stream md sd (i_xfer st') = stream md sd (i_xfer st) @ es" and
            sp: "same_prog (i_xfer st) (i_xfer st')"
            by auto
          have "eval_loop K clk timeout n (Suc tick) (st'\<lparr>i_pc := i_pc st' + 1\<rparr>) = Some r"
            using Suc.prems(2) run time Inr rst True by simp
          from Suc.IH [OF inv' this] show ?thesis
            using pc eff es sp
            by (auto simp: loop_post_def intro: same_prog_trans elim!: crash_post_mono)
        qed
      qed
    qed
  qed
qed simp

section \<open>Completeness\<close>

text \<open>
  Netlink that never fails: allocation succeeds, a freshly opened message has room for one
  value, for the error attribute and for the final header, and delivery succeeds.
\<close>

definition netlink_reliable :: "('m, 'n) nl_api \<Rightarrow> bool" where
  "netlink_reliable N \<longleftrightarrow>
     (\<forall>n. \<exists>m n' m1 m2. nlmsg_new N n = (Some m, n') \<and> genlmsg_put N m = Some m1 \<and>
        nla_nest_start N m1 = Some m2 \<and> (\<forall>v. fst (nla_put_nohdr N m2 v) = 0) \<and>
        (\<forall>e. fst (nla_put_error N m2 e) = 0) \<and> nlmsg_put_done N m2 \<noteq> None) \<and>
     (\<forall>m n. fst (genlmsg_unicast N m n) = 0)"

definition returns_live :: "crash + (int \<times> ('m, 'n, 'w) xfer) \<Rightarrow> bool" where
  "returns_live r \<longleftrightarrow> (\<exists>y. r = Inr (0, y) \<and> is_live (x_msg y))"

lemma close_plain_reliable:
  assumes "netlink_reliable N" and "x_msg x = Live m"
  shows "\<exists>y. mdio_nl_close N x False 0 = Inr (0, y)"
proof -
  have "fst (genlmsg_unicast N m' n) = 0" for m' n
    using assms(1) by (simp add: netlink_reliable_def)
  then have "\<exists>n'. genlmsg_unicast N m' n = (0, n')" for m' n
    by (metis prod.collapse)
  then obtain n' where "genlmsg_unicast N (genlmsg_end N (nla_nest_end N m)) (x_sock x) = (0, n')"
    by blast
  then show ?thesis
    using assms(2)
    by (simp add: mdio_nl_close.simps [of N x False 0] upd_msg_def set_msg_def unicast_def)
qed

lemma flush_reliable:
  assumes rel: "netlink_reliable N" and "x_msg x = Live m"
  shows "\<exists>y m2. mdio_nl_flush N x = Inr (0, y) \<and> x_msg y = Live m2 \<and>
           (\<forall>v. fst (nla_put_nohdr N m2 v) = 0) \<and>
           (\<forall>e. fst (nla_put_error N m2 e) = 0) \<and> nlmsg_put_done N m2 \<noteq> None"
proof -
  obtain z where z: "mdio_nl_close N x False 0 = Inr (0, z)"
    using close_plain_reliable [OF assms] by blast
  obtain m0 n' m1 m2 where "nlmsg_new N (x_sock z) = (Some m0, n')" "genlmsg_put N m0 = Some m1"
      "nla_nest_start N m1 = Some m2" "\<forall>v. fst (nla_put_nohdr N m2 v) = 0"
      "\<forall>e. fst (nla_put_error N m2 e) = 0" "nlmsg_put_done N m2 \<noteq> None"
    using rel unfolding netlink_reliable_def by blast
  then show ?thesis
    by (simp add: mdio_nl_flush.simps z mdio_nl_open_def)
qed

lemma emit_reliable:
  assumes rel: "netlink_reliable N" and x: "x_msg x = Live m"
  shows "returns_live (mdio_nl_emit N x v)"
proof -
  obtain r m' where p: "nla_put_nohdr N m v = (r, m')" by fastforce
  obtain y m2 where "mdio_nl_flush N (set_msg m' x) = Inr (0, y)" "x_msg y = Live m2"
      "\<forall>v. fst (nla_put_nohdr N m2 v) = 0"
    using flush_reliable [OF rel, of "set_msg m' x" m'] by (auto simp: set_msg_def)
  moreover obtain r2 m3 where "nla_put_nohdr N m2 v = (r2, m3)" by fastforce
  ultimately show ?thesis
    using x p
    by (cases "r = 0") (auto simp: mdio_nl_emit_def returns_live_def is_live_def set_msg_def dest: spec [of _ v])
qed

lemma put_error_reliable:
  assumes "nla_put_error N m2 xerr = (0, m3)" and "x_msg y = Live m2"
  shows "put_error N xerr y = Inr (0, set_msg m3 y)"
  using assms by (simp add: put_error_def)

lemma error_part_reliable:
  assumes rel: "netlink_reliable N" and x: "x_msg x = Live m"
  shows "returns_live
     (if xerr \<noteq> 0 then
        crash_bind (put_error N xerr x) (\<lambda>(r, x).
          if r \<noteq> 0 then
            crash_bind (mdio_nl_flush N x) (\<lambda>(err, x).
              if err \<noteq> 0 then Inr (err, x)
              else crash_bind (put_error N xerr x) (\<lambda>(r, x).
                     Inr (if r \<noteq> 0 then - EMSGSIZE else 0, x)))
          else Inr (0, x))
      else Inr (0, x))"
proof -
  obtain r m' where p: "nla_put_error N m xerr = (r, m')" by fastforce
  obtain y m2 where y: "mdio_nl_flush N (set_msg m' x) = Inr (0, y)" "x_msg y = Live m2"
      "\<forall>e. fst (nla_put_error N m2 e) = 0"
    using flush_reliable [OF rel, of "set_msg m' x" m'] by (auto simp: set_msg_def)
  then obtain m3 where "nla_put_error N m2 xerr = (0, m3)"
    by (metis prod.collapse)
  then show ?thesis
    using x p y
    by (auto simp: put_error_def returns_live_def is_live_def set_msg_def)
qed

lemma done_part_reliable:
  assumes rel: "netlink_reliable N" and x: "x_msg x = Live m"
  shows "returns_live
     (if is_last then
        crash_bind (put_done N x) (\<lambda>(ok, x).
          if \<not> ok then
            crash_bind (mdio_nl_flush N x) (\<lambda>(err, x).
              if err \<noteq> 0 then Inr (err, x)
              else crash_bind (put_done N x) (\<lambda>(ok, x).
                     Inr (if \<not> ok then - EMSGSIZE else 0, x)))
          else Inr (0, x))
      else Inr (0, x))"
proof -
  obtain y m2 where y: "mdio_nl_flush N x = Inr (0, y)" "x_msg y = Live m2"
      "nlmsg_put_done N m2 \<noteq> None"
    using flush_reliable [OF rel x] by blast
  then show ?thesis
    using x
    by (auto simp: put_done_def returns_live_def is_live_def set_msg_def split: option.split)
qed

lemma close_reliable:
  assumes rel: "netlink_reliable N" and x: "x_msg x = Live m"
  shows "\<exists>y. mdio_nl_close N x is_last xerr = Inr (0, y)"
proof -
  let ?x1 = "set_msg (nla_nest_end N m) x"
  have "x_msg ?x1 = Live (nla_nest_end N m)" by (simp add: set_msg_def)
  from error_part_reliable [OF rel this, of xerr] obtain y m2 where
    e: "(if xerr \<noteq> 0 then
        crash_bind (put_error N xerr ?x1) (\<lambda>(r, x).
          if r \<noteq> 0 then
            crash_bind (mdio_nl_flush N x) (\<lambda>(err, x).
              if err \<noteq> 0 then Inr (err, x)
              else crash_bind (put_error N xerr x) (\<lambda>(r, x).
                     Inr (if r \<noteq> 0 then - EMSGSIZE else 0, x)))
          else Inr (0, x))
      else Inr (0, ?x1)) = Inr (0, y)" and y: "x_msg y = Live m2"
    unfolding returns_live_def is_live_def by blast
  let ?x2 = "set_msg (genlmsg_end N m2) y"
  have "x_msg ?x2 = Live (genlmsg_end N m2)" by (simp add: set_msg_def)
  from done_part_reliable [OF rel this, of is_last] obtain z m3 where
    d: "(if is_last then
        crash_bind (put_done N ?x2) (\<lambda>(ok, x).
          if \<not> ok then
            crash_bind (mdio_nl_flush N x) (\<lambda>(err, x).
              if err \<noteq> 0 then Inr (err, x)
              else crash_bind (put_done N x) (\<lambda>(ok, x).
                     Inr (if \<not> ok then - EMSGSIZE else 0, x)))
          else Inr (0, x))
      else Inr (0, ?x2)) = Inr (0, z)" and z: "x_msg z = Live m3"
    unfolding returns_live_def is_live_def by blast
  obtain n' where "genlmsg_unicast N m3 (x_sock z) = (0, n')"
    using rel unfolding netlink_reliable_def by (metis prod.collapse)
  then have u: "unicast N z = Inr (0, z\<lparr>x_msg := Freed, x_sock := n'\<rparr>)"
    using z by (simp add: unicast_def)
  have "upd_msg (nla_nest_end N) x = Inr ?x1" "upd_msg (genlmsg_end N) y = Inr ?x2"
    using x y by (simp_all add: upd_msg_def)
  then show ?thesis
    unfolding mdio_nl_close.simps [of N x is_last xerr]
    by (simp only: crash_bind.simps e d u prod.case simp_thms if_False) blast
qed

section \<open>Runs that end\<close>

lemma effect_out:
  assumes "\<And>a. v \<noteq> VEMIT a"
  shows "out (outcome_state (vm_effect B v s)) = out s"
  using assms by (cases v) (auto simp: set_reg_def split: prod.splits)

text \<open>
  The interface between the interpreter and the reply buffer: \<open>holds x vs\<close> says that the values
  \<open>vs\<close> have been taken by the message and the socket of \<open>x\<close>. Emitting succeeds and adds the value;
  nothing else that the interpreter does matters.
\<close>

locale reply_buffer =
  fixes N :: "('m, 'n) nl_api" and holds :: "('m, 'n, 'w) xfer \<Rightarrow> u32 list \<Rightarrow> bool"
  assumes emit: "holds x vs \<Longrightarrow> \<exists>y. mdio_nl_emit N x v = Inr (0, y) \<and> same_run x y \<and> holds y (vs @ [v])"
    and frame: "holds x vs \<Longrightarrow> x_msg y = x_msg x \<Longrightarrow> x_sock y = x_sock x \<Longrightarrow> holds y vs"
begin

lemma exec_emit_holds:
  assumes d: "decode i = Some (VEMIT a)" and rel: "rel_state st s" and N: "k_nl K = N"
    and "holds (i_xfer st) (out s)"
  shows "\<exists>st'. exec_insn K i st = Inr (0, st') \<and> i_pc st' = i_pc st \<and>
           same_prog (i_xfer st) (i_xfer st') \<and> rel_state st' (s\<lparr>out := out s @ [ucast (opval s a)]\<rparr>) \<and>
           holds (i_xfer st') (out s @ [ucast (opval s a)])"
  using d
proof (cases rule: decode_cases)
  case (emit b)
  have "arg_ri (insn_arg0 i) (i_regs st) = Inr (opval s a)"
    using arg_ri_decode [OF emit(3), of "i_regs st" s] rel emit(2) by (simp add: rel_state_def)
  moreover obtain y where "mdio_nl_emit N (i_xfer st) (ucast (opval s a)) = Inr (0, y)"
      "same_run (i_xfer st) y" "holds y (out s @ [ucast (opval s a)])"
    using reply_buffer_axioms assms(4) unfolding reply_buffer_def by blast
  ultimately show ?thesis
    using emit(1) rel
    by (simp add: exec_insn_def exec_emit_def rel_state_def N same_run_def same_prog_def)
qed simp_all

lemma exec_insn_holds:
  assumes inv: "loop_inv Q st pc s" and pc: "0 \<le> pc" "pc < int (length Q)" and N: "k_nl K = N"
    and h: "holds (i_xfer st) (out s)"
  shows "\<exists>st'. exec_insn K (x_prog (i_xfer st) ! unat (i_pc st)) st =
             Inr (outcome_status (vm_effect (k_bus K) (Q ! nat pc) s), st') \<and>
           i_pc st' = i_pc st + word_of_int (vm_jump (Q ! nat pc) s) \<and>
           same_prog (i_xfer st) (i_xfer st') \<and>
           rel_state st' (outcome_state (vm_effect (k_bus K) (Q ! nat pc) s)) \<and>
           holds (i_xfer st') (out (outcome_state (vm_effect (k_bus K) (Q ! nat pc) s))) \<and>
           (\<forall>e t. vm_effect (k_bus K) (Q ! nat pc) s = Fail e t \<longrightarrow> e < 0)"
proof -
  let ?i = "x_prog (i_xfer st) ! unat (i_pc st)" and ?v = "Q ! nat pc"
  have d: "decode ?i = Some ?v" by (rule loop_inv_insn [OF inv pc])
  have rel: "rel_state st s" using inv by (simp add: loop_inv_def)
  show ?thesis
  proof (cases "\<exists>a. ?v = VEMIT a")
    case True
    then obtain a where v: "?v = VEMIT a" by blast
    from exec_emit_holds [OF d [unfolded v] rel N h] show ?thesis by (simp add: v)
  next
    case False
    then obtain ret st' where e: "exec_insn K ?i st = Inr (ret, st')"
        "step_matches st (vm_effect (k_bus K) ?v s) (vm_jump ?v s) (ret, st')"
      using exec_insn_matches [OF d rel] by (metis surj_pair)
    moreover have "holds (i_xfer st') (out s)"
      using e(2) by (intro frame [OF h]) (simp_all add: step_matches_def)
    moreover have "out (outcome_state (vm_effect (k_bus K) ?v s)) = out s"
      using False by (intro effect_out) blast
    ultimately show ?thesis
      by (cases "vm_effect (k_bus K) ?v s") (auto simp: step_matches_def)
  qed
qed

text \<open>
  If the specified machine ends within \<open>n\<close> steps, and the deadline does not pass during them,
  the kernel's interpreter ends in the same way with the same bus, and the buffer holds the output.
\<close>

lemma eval_loop_holds:
  assumes "loop_inv Q st pc s" and "vm_run (k_bus K) Q n pc s = Some r"
    and "\<And>k. k < n \<Longrightarrow> \<not> time_after K (clk (tick + k)) timeout" and "k_nl K = N"
    and "holds (i_xfer st) (out s)"
  shows "\<exists>x. eval_loop K clk timeout n tick st = Some (Inr (outcome_status r, x)) \<and>
           same_prog (i_xfer st) x \<and> x_mdio x = bus (outcome_state r) \<and>
           holds x (out (outcome_state r)) \<and> outcome_status r \<le> 0"
  using assms
proof (induction n arbitrary: tick st pc s)
  case (Suc n)
  note inv = Suc.prems(1)
  let ?step = "exec_insn K (x_prog (i_xfer st) ! unat (i_pc st)) st"
  show ?case
  proof (cases "0 \<le> pc \<and> pc < int (length Q)")
    case False
    then have "r = Done s" "\<not> i_pc st < word_of_int (x_prog_len (i_xfer st))"
      using Suc.prems(2) loop_inv_range [OF inv] by auto
    then show ?thesis
      using inv Suc.prems(5) by (auto simp: loop_inv_def rel_state_def)
  next
    case pc: True
    then have run: "i_pc st < word_of_int (x_prog_len (i_xfer st))"
      using loop_inv_range [OF inv] by simp
    have time: "\<not> time_after K (clk tick) timeout" using Suc.prems(3) [of 0] by simp
    from exec_insn_holds [OF inv conjunct1 [OF pc] conjunct2 [OF pc] Suc.prems(4,5)]
    obtain st' where st': "?step = Inr (outcome_status (vm_effect (k_bus K) (Q ! nat pc) s), st')"
        "i_pc st' = i_pc st + word_of_int (vm_jump (Q ! nat pc) s)"
        "same_prog (i_xfer st) (i_xfer st')"
        "rel_state st' (outcome_state (vm_effect (k_bus K) (Q ! nat pc) s))"
        "holds (i_xfer st') (out (outcome_state (vm_effect (k_bus K) (Q ! nat pc) s)))"
        "\<And>e t. vm_effect (k_bus K) (Q ! nat pc) s = Fail e t \<Longrightarrow> e < 0"
      by blast
    show ?thesis
    proof (cases "vm_effect (k_bus K) (Q ! nat pc) s")
      case (Fail e t)
      then have "r = Fail e t" using Suc.prems(2) pc by simp
      with st' Fail run time show ?thesis by (auto simp: rel_state_def)
    next
      case (Done t)
      have "loop_inv Q (st'\<lparr>i_pc := i_pc st' + 1\<rparr>) (pc + 1 + vm_jump (Q ! nat pc) s) t"
        using st' Done by (intro loop_inv_next [OF inv conjunct1 [OF pc] conjunct2 [OF pc]]) simp_all
      moreover have "vm_run (k_bus K) Q n (pc + 1 + vm_jump (Q ! nat pc) s) t = Some r"
        using Suc.prems(2) pc Done by simp
      moreover have "\<not> time_after K (clk (Suc tick + k)) timeout" if "k < n" for k
        using Suc.prems(3) [of "Suc k"] that by simp
      ultimately have "\<exists>x. eval_loop K clk timeout n (Suc tick) (st'\<lparr>i_pc := i_pc st' + 1\<rparr>) =
             Some (Inr (outcome_status r, x)) \<and> same_prog (i_xfer st') x \<and>
             x_mdio x = bus (outcome_state r) \<and> holds x (out (outcome_state r)) \<and> outcome_status r \<le> 0"
        using Suc.IH [of "st'\<lparr>i_pc := i_pc st' + 1\<rparr>" _ t "Suc tick"] st'(5) Done Suc.prems(4) by simp
      moreover have "eval_loop K clk timeout (Suc n) tick st =
          eval_loop K clk timeout n (Suc tick) (st'\<lparr>i_pc := i_pc st' + 1\<rparr>)"
        using run time st'(1) Done by simp
      ultimately show ?thesis using st'(3) by (auto intro: same_prog_trans)
    qed
  qed
qed simp

end

text \<open>The buffer as the stream of the values in it, for a netlink that does not fail.\<close>

interpretation stream: reply_buffer N
  "\<lambda>x vs. netlink_reliable N \<and> netlink_ok N md sd \<and> is_live (x_msg x) \<and> stream md sd x = base @ vs"
proof
  fix x :: "('a, 'b, 'c) xfer" and vs v
  assume h: "netlink_reliable N \<and> netlink_ok N md sd \<and> is_live (x_msg x) \<and> stream md sd x = base @ vs"
  then obtain y where "mdio_nl_emit N x v = Inr (0, y)" "is_live (x_msg y)"
    using emit_reliable [of N x _ v] by (auto simp: is_live_def returns_live_def)
  with h emit_post [of x N md sd v]
  show "\<exists>y. mdio_nl_emit N x v = Inr (0, y) \<and> same_run x y \<and>
      netlink_reliable N \<and> netlink_ok N md sd \<and> is_live (x_msg y) \<and> stream md sd y = base @ vs @ [v]"
    by simp
qed (auto simp: stream_def)

end
