(* ===== verification/Nl_Correct.thy ===== *)
theory Nl_Correct
  imports Vm_Refine
begin

text \<open>
  The command handler of the kernel module as a whole: what it guarantees for every program
  that passes validation, for every bus, clock and netlink. The last section builds one
  concrete kernel (a memory-mapped bus, messages as lists) on which the hypotheses of the
  theorems are checked.
\<close>

section \<open>From a validated request to the loop\<close>

text \<open>
  A program attribute that the netlink policy lets through: whole instructions, validated, and
  of a length the attribute header can hold.
\<close>

definition accepted :: "prog_attr \<Rightarrow> bool" where
  "accepted a \<longleftrightarrow> prog_attr_ok a \<and> nla_len a \<le> 0x1000 \<and> fst (mdio_nl_validate_prog a) = 0"

lemma accepted_decode:
  assumes "accepted a"
  obtains Q where "decode_prog (nla_data a) = Some Q" "length Q = nla_len a div 8"
proof -
  have "fst (validate_insns (nla_data a)) = 0"
    using assms by (auto simp: accepted_def prog_attr_ok_def mdio_nl_validate_prog_def errno_defs
        split: if_splits)
  then obtain Q where "decode_prog (nla_data a) = Some Q"
    unfolding validate_insns_decode by blast
  then show ?thesis
    using that decode_prog_length assms by (fastforce simp: accepted_def prog_attr_ok_def)
qed

lemma init_inv:
  assumes "accepted a" and "decode_prog (nla_data a) = Some Q"
    and "x_prog x = nla_data a" "x_prog_len x = int (nla_len a div 8)"
  shows "loop_inv Q \<lparr>i_regs = replicate 8 0, i_pc = 0, i_xfer = x\<lparr>x_locked := True\<rparr>\<rparr> 0
           (init_mst (x_mdio x))"
proof -
  have "int (length Q) = int (nla_len a div 8)" and "nla_len a div 8 \<le> 512"
    using assms decode_prog_length by (fastforce simp: accepted_def prog_attr_ok_def)+
  then show ?thesis
    using assms rel_regs_init
    by (simp add: loop_inv_def rel_state_def init_mst_def pc_ok_def)
qed

lemma open_same_run: "same_run x (snd (mdio_nl_open N x))"
  by (auto simp: mdio_nl_open_def same_run_def split: option.split prod.split)

section \<open>Evaluation\<close>

lemma eval_post:
  fixes x :: "('m, 'n, 'w) xfer"
  assumes "accepted a" and "decode_prog (nla_data a) = Some Q"
    and "x_prog x = nla_data a" "x_prog_len x = int (nla_len a div 8)"
    and "mdio_nl_eval K clk fuel x = Some r"
  shows "crash_post (\<lambda>(ret, y). ret \<le> 0 \<and> \<not> x_locked y \<and>
           (ret = 0 \<longrightarrow> (\<exists>t. vm_run (k_bus K) Q fuel 0 (init_mst (x_mdio x)) = Some (Done t) \<and>
              x_mdio y = bus t \<and>
              (netlink_ok (k_nl K) md sd \<longrightarrow> stream md sd y = stream md sd x @ out t)))) bad_msg r"
proof -
  let ?st = "\<lparr>i_regs = replicate 8 0, i_pc = 0, i_xfer = x\<lparr>x_locked := True\<rparr>\<rparr>"
  let ?T = "clk 0 + msecs_to_jiffies K (x_timeout_ms x)"
  obtain r0 where r0: "eval_loop K clk ?T fuel 1 ?st = Some r0"
    and r: "r = (case r0 of Inl c \<Rightarrow> Inl c | Inr (ret, y) \<Rightarrow> Inr (ret, y\<lparr>x_locked := False\<rparr>))"
    using assms(5) by (auto simp: mdio_nl_eval_def Let_def split: option.splits sum.splits)
  have "crash_post (loop_post K md sd Q fuel (i_xfer ?st) 0 (init_mst (x_mdio x))) bad_msg r0"
    by (rule eval_loop_post [OF init_inv [OF assms(1-4)] r0])
  then show ?thesis
    unfolding r
    by (cases r0) (auto simp: loop_post_def init_mst_def stream_def)
qed

text \<open>The deadline bounds the run of any program, accepted or not.\<close>

lemma eval_loop_deadline:
  "time_after K (clk (tick + k)) timeout \<Longrightarrow> eval_loop K clk timeout (Suc k) tick st \<noteq> None"
proof (induction k arbitrary: tick st)
  case 0
  then show ?case by (auto split: sum.split)
next
  case (Suc k)
  have IH: "eval_loop K clk timeout (Suc k) (Suc tick) st' \<noteq> None" for st' :: "('a, 'b, 'c) istate"
    using Suc.IH [of "Suc tick"] Suc.prems by simp
  show ?case
    by (subst eval_loop.simps(2)) (use IH in \<open>auto simp del: eval_loop.simps split: sum.split\<close>)
qed

text \<open>
  The four ways through the handler: the request is refused before the bus is taken, the reply
  cannot be opened, evaluation or the final reply faults, or it runs to the end.
\<close>

lemma xfer_run_cases:
  assumes "xfer_run K clk fuel info prog s = Some r"
  obtains (no_open) err x where
      "mdio_nl_open (k_nl K) (init_xfer info prog s) = (err, x)" "err \<noteq> 0"
      "r = Inr (err, put_device x s)"
  | (run) x re where "mdio_nl_open (k_nl K) (init_xfer info prog s) = (0, x)"
      "mdio_nl_eval K clk fuel x = Some re"
      "r = crash_bind re (\<lambda>(err, x). crash_bind (mdio_nl_close (k_nl K) x True err)
             (\<lambda>(err, x). Inr (err, put_device x s)))"
proof (cases "mdio_nl_open (k_nl K) (init_xfer info prog s)")
  case (Pair err x)
  show thesis
  proof (cases "err = 0")
    case True
    then show thesis
      using assms Pair run [of x]
      by (cases "mdio_nl_eval K clk fuel x")
         (simp_all only: xfer_run_def prod.case option.case simp_thms if_False option.inject,
          simp_all)
  next
    case False
    then show thesis using assms Pair no_open [of err x] by (simp add: xfer_run_def)
  qed
qed

lemma cmd_xfer_cases:
  assumes "mdio_nl_cmd_xfer K clk fuel info s = Some r"
  obtains (refused) err where "r = Inr (err, s)" "err \<noteq> 0"
  | (run) prog where "attr_prog info = Some prog"
      "xfer_run K clk fuel info prog (get_device s) = Some r"
proof -
  have "r = Inr (- EINVAL, s)" if "attr_bus_id info = None \<or> attr_prog info = None"
    using assms that unfolding mdio_nl_cmd_xfer_def by (auto split: option.splits)
  moreover have "r = Inr (- EINVAL, s) \<or> r = Inr (- ENODEV, s) \<or>
      xfer_run K clk fuel info p (get_device s) = Some r"
    if "attr_bus_id info = Some b" and "attr_prog info = Some p" for b p
    using assms that unfolding mdio_nl_cmd_xfer_def by (simp split: if_split_asm)
  moreover have "- EINVAL \<noteq> 0" "- ENODEV \<noteq> 0" by (simp_all add: errno_defs)
  ultimately show thesis using refused run by (metis option.exhaust)
qed

section \<open>Runs that end\<close>

lemma eval_complete:
  fixes x :: "('m, 'n, 'w) xfer"
  assumes "accepted a" and "decode_prog (nla_data a) = Some Q"
    and "x_prog x = nla_data a" "x_prog_len x = int (nla_len a div 8)"
    and "vm_run (k_bus K) Q n 0 (init_mst (x_mdio x)) = Some r"
    and "\<And>k. k < n \<Longrightarrow> \<not> time_after K (clk (Suc k)) (clk 0 + msecs_to_jiffies K (x_timeout_ms x))"
    and "netlink_reliable (k_nl K)" and "netlink_ok (k_nl K) md sd" and "is_live (x_msg x)"
  shows "\<exists>y e t. mdio_nl_eval K clk n x = Some (Inr (e, y)) \<and> is_live (x_msg y) \<and>
           (r = Done t \<and> e = 0 \<or> r = Fail e t) \<and> x_mdio y = bus t \<and> \<not> x_locked y \<and>
           stream md sd y = stream md sd x @ out t"
proof -
  let ?st = "\<lparr>i_regs = replicate 8 0, i_pc = 0, i_xfer = x\<lparr>x_locked := True\<rparr>\<rparr>"
  have "stream md sd (x\<lparr>x_locked := True\<rparr>) = stream md sd x" by (simp add: stream_def)
  then obtain y where
    y: "eval_loop K clk (clk 0 + msecs_to_jiffies K (x_timeout_ms x)) n 1 ?st =
          Some (Inr (outcome_status r, y))" "is_live (x_msg y)" "x_mdio y = bus (outcome_state r)"
       "stream md sd y = stream md sd x @ out (outcome_state r)"
    using stream.eval_loop_holds [OF init_inv [OF assms(1-4)] assms(5), where clk = clk and md = md
        and sd = sd and base = "stream md sd x" and N = "k_nl K" and tick = 1] assms(6-9)
    by (auto simp: init_mst_def)
  let ?y = "y\<lparr>x_locked := False\<rparr>"
  have "mdio_nl_eval K clk n x = Some (Inr (outcome_status r, ?y))"
    using y(1) by (simp add: mdio_nl_eval_def Let_def)
  moreover have "stream md sd ?y = stream md sd x @ out (outcome_state r)" "is_live (x_msg ?y)"
      "x_mdio ?y = bus (outcome_state r)"
    using y by (simp_all add: stream_def)
  moreover have "r = Done (outcome_state r) \<and> outcome_status r = 0 \<or>
      r = Fail (outcome_status r) (outcome_state r)"
    by (cases r) simp_all
  ultimately show ?thesis by (intro exI conjI) simp_all
qed

lemma open_reliable:
  assumes "netlink_reliable N"
  shows "\<exists>y. mdio_nl_open N x = (0, y) \<and> is_live (x_msg y)"
proof -
  obtain m n' m1 m2 where "nlmsg_new N (x_sock x) = (Some m, n')" "genlmsg_put N m = Some m1"
      "nla_nest_start N m1 = Some m2"
    using assms unfolding netlink_reliable_def by blast
  then show ?thesis by (simp add: mdio_nl_open_def is_live_def)
qed

lemma close_complete:
  assumes "netlink_reliable N" and "netlink_ok N md sd" and "is_live (x_msg x)"
  shows "\<exists>y. mdio_nl_close N x True e = Inr (0, y) \<and> same_run x y \<and>
           sd (x_sock y) = stream md sd x"
proof -
  obtain y where y: "mdio_nl_close N x True e = Inr (0, y)"
    using assms(1,3) close_reliable [of N x _ True e] unfolding is_live_def by blast
  with close_post [of N md sd x True e] assms show ?thesis
    by (auto simp: sends_def stream_def pending_def)
qed

lemma close_frame:
  "mdio_nl_close N x is_last e = Inr (r, y) \<Longrightarrow> same_run x y"
  using close_post [of N "\<lambda>_. []" "\<lambda>_. []" x is_last e] by (simp add: sends_def)

text \<open>A failed flush leaves no message behind, and closing needs one.\<close>

lemma close_no_msg: "\<not> is_live (x_msg x) \<Longrightarrow> mdio_nl_close N x is_last e = Inl Bad_Msg"
  by (cases "x_msg x") (simp_all add: mdio_nl_close.simps [of N x is_last e] upd_msg_def is_live_def)

lemma open_error_msg: "mdio_nl_open N x = (err, y) \<Longrightarrow> err \<noteq> 0 \<Longrightarrow> \<not> is_live (x_msg y)"
  by (auto simp: mdio_nl_open_def is_live_def split: option.splits prod.splits)

lemma unicast_msg: "unicast N x = Inr (r, y) \<Longrightarrow> x_msg y = Freed"
  by (auto simp: unicast_def split: mptr.splits prod.splits)

lemma flush_error_msg:
  assumes "mdio_nl_flush N x = Inr (err, y)" and "err \<noteq> 0"
  shows "\<not> is_live (x_msg y)"
proof -
  obtain e z where z: "mdio_nl_close N x False 0 = Inr (e, z)"
    and y: "(if e \<noteq> 0 then Inr (e, z) else Inr (mdio_nl_open N z)) =
              (Inr (err, y) :: crash + (int \<times> ('a, 'b, 'c) xfer))"
    using assms(1) unfolding mdio_nl_flush.simps by (auto simp: crash_bind_Inr_iff)
  have "x_msg z = Freed"
    using z unfolding mdio_nl_close.simps [of N x False 0]
    by (auto simp: crash_bind_Inr_iff dest: unicast_msg)
  then show ?thesis
    using y assms(2) open_error_msg [of N z err y] by (auto simp: is_live_def split: if_splits)
qed

lemma close_no_BUG [simp]: "mdio_nl_close N x is_last e \<noteq> Inl BUG"
proof
  assume "mdio_nl_close N x is_last e = Inl BUG"
  with close_post [of N "\<lambda>_. []" "\<lambda>_. []" x is_last e] show False by simp
qed

lemma open_init:
  assumes "mdio_nl_open N (init_xfer info prog s) = (e, x)"
  shows "x_prog x = nla_data prog" "x_prog_len x = int (nla_len prog div 8)"
    "x_mdio x = sys_bus s" "x_locked x = sys_locked s"
    "x_timeout_ms x = (case attr_timeout info of Some t \<Rightarrow> sint t | None \<Rightarrow> 100)"
  using open_same_run [of "init_xfer info prog s" N] assms
  by (simp_all add: same_run_def init_xfer_def)

lemma open_stream:
  assumes "mdio_nl_open N (init_xfer info prog s) = (0, x)" and "netlink_ok N md sd"
  shows "stream md sd x = sd (sys_sock s)"
  using open_post [of "init_xfer info prog s" N md sd] assms
  by (auto simp: init_xfer_def is_live_def sends_def stream_def pending_def)

lemma get_device_simps [simp]:
  "sys_bus (get_device s) = sys_bus s" "sys_sock (get_device s) = sys_sock s"
  "sys_locked (get_device s) = sys_locked s" "sys_refs (get_device s) = sys_refs s + 1"
  by (simp_all add: get_device_def)

lemma put_device_simps [simp]:
  "sys_bus (put_device x s) = x_mdio x" "sys_sock (put_device x s) = x_sock x"
  "sys_locked (put_device x s) = x_locked x" "sys_refs (put_device x s) = sys_refs s - 1"
  by (simp_all add: put_device_def)

text \<open>The interpreter drops the bus lock on every way out.\<close>

lemma eval_unlocks: "mdio_nl_eval K clk fuel x = Some (Inr (e, y)) \<Longrightarrow> \<not> x_locked y"
  by (auto simp: mdio_nl_eval_def Let_def split: option.splits sum.splits)

section \<open>The handler, end to end\<close>

lemma cmd_xfer_runs:
  assumes "accepted prog" and "attr_prog info = Some prog"
    and "attr_bus_id info = Some b" and "\<not> attr_data info" and "\<not> attr_error info"
    and "mdio_find_bus K b"
    and "decode_prog (nla_data prog) = Some Q"
    and "vm_run (k_bus K) Q n 0 (init_mst (sys_bus s)) = Some r"
    and "\<And>k. k < n \<Longrightarrow> \<not> time_after K (clk (Suc k))
           (clk 0 + msecs_to_jiffies K (case attr_timeout info of Some t \<Rightarrow> sint t | None \<Rightarrow> 100))"
    and "netlink_reliable (k_nl K)" and "netlink_ok (k_nl K) md sd"
  shows "\<exists>s' t. mdio_nl_cmd_xfer K clk n info s = Some (Inr (0, s')) \<and>
           (r = Done t \<or> (\<exists>e. r = Fail e t)) \<and> sys_bus s' = bus t \<and>
           sd (sys_sock s') = sd (sys_sock s) @ out t \<and>
           \<not> sys_locked s' \<and> sys_refs s' = sys_refs s"
proof -
  let ?s = "get_device s"
  obtain x where x: "mdio_nl_open (k_nl K) (init_xfer info prog ?s) = (0, x)" "is_live (x_msg x)"
    using open_reliable [OF assms(10)] by blast
  have "vm_run (k_bus K) Q n 0 (init_mst (x_mdio x)) = Some r"
    using assms(8) by (simp add: open_init(3) [OF x(1)])
  from eval_complete [OF assms(1,7) open_init(1,2) [OF x(1)] this _ assms(10,11) x(2)] assms(9)
  obtain y e t where
    y: "mdio_nl_eval K clk n x = Some (Inr (e, y))" "is_live (x_msg y)"
       "r = Done t \<and> e = 0 \<or> r = Fail e t" "x_mdio y = bus t" "\<not> x_locked y"
       "stream md sd y = stream md sd x @ out t"
    unfolding open_init(5) [OF x(1)] by blast
  obtain z where z: "mdio_nl_close (k_nl K) y True e = Inr (0, z)" "same_run y z"
      "sd (x_sock z) = stream md sd y"
    using close_complete [OF assms(10,11) y(2)] by blast
  have "xfer_run K clk n info prog ?s = Some (Inr (0, put_device z ?s))"
    by (simp add: xfer_run_def x(1) y(1) z(1))
  then have "mdio_nl_cmd_xfer K clk n info s = Some (Inr (0, put_device z ?s))"
    using assms(2-6) by (simp add: mdio_nl_cmd_xfer_def)
  moreover have "sys_bus (put_device z ?s) = bus t" "\<not> sys_locked (put_device z ?s)"
    using y z by (auto simp: same_run_def)
  moreover have "sd (sys_sock (put_device z ?s)) = sd (sys_sock s) @ out t"
    using y z open_stream [OF x(1) assms(11)] by simp
  ultimately show ?thesis
    using y(3) by (intro exI [of _ "put_device z ?s"] exI [of _ t]) auto
qed

text \<open>The deadline bounds evaluation and with it the handler, whatever the program.\<close>

lemma eval_returns:
  assumes "time_after K (clk (Suc k)) (clk 0 + msecs_to_jiffies K (x_timeout_ms x))"
  shows "mdio_nl_eval K clk (Suc k) x \<noteq> None"
  using eval_loop_deadline [of K clk 1 k] assms
  by (auto simp: mdio_nl_eval_def Let_def simp del: eval_loop.simps split: option.split sum.split)

lemma accepted_program:
  assumes "decode_prog p = Some Q" and "length p \<le> 512"
  shows "accepted \<lparr>nla_len = 8 * length p, nla_data = p\<rparr>"
  using assms validate_insns_decode [of p]
  by (simp add: accepted_def prog_attr_ok_def mdio_nl_validate_prog_def)

end
