(* ===== verification/Nl_Example.thy ===== *)
theory Nl_Example
  imports Nl_Correct
begin

text \<open>
  One concrete kernel on which the hypotheses of the module's theorems are checked: netlink
  messages are lists with room for a given number of values, the socket collects what is
  delivered, the bus is a memory of 16-bit registers, time stands still. A second netlink
  cannot deliver anything. None of this models code of the repository.
\<close>

section \<open>Netlink\<close>

text \<open>A message holds at most \<open>cap\<close> entries, the error attribute and the end mark included.\<close>

record ex_msg =
  em_data :: "u32 list"
  em_extra :: nat

definition em_room :: "nat \<Rightarrow> ex_msg \<Rightarrow> bool" where
  "em_room cap m \<longleftrightarrow> length (em_data m) + em_extra m < cap"

definition ex_nl :: "nat \<Rightarrow> (ex_msg, u32 list) nl_api" where
  "ex_nl cap =
     \<lparr>nlmsg_new = (\<lambda>n. (Some \<lparr>em_data = [], em_extra = 0\<rparr>, n)),
      genlmsg_put = Some,
      nla_nest_start = Some,
      nla_put_nohdr = (\<lambda>m v. if em_room cap m then (0, m\<lparr>em_data := em_data m @ [v]\<rparr>)
                             else (- EMSGSIZE, m)),
      nla_nest_end = id,
      nla_put_error = (\<lambda>m e. if em_room cap m then (0, m\<lparr>em_extra := Suc (em_extra m)\<rparr>)
                             else (- EMSGSIZE, m)),
      genlmsg_end = id,
      nlmsg_put_done = (\<lambda>m. if em_room cap m then Some (m\<lparr>em_extra := Suc (em_extra m)\<rparr>) else None),
      genlmsg_unicast = (\<lambda>m n. (0, n @ em_data m))\<rparr>"

lemma ex_nl_ok: "netlink_ok (ex_nl cap) em_data id"
  unfolding netlink_ok_def by (auto simp: ex_nl_def errno_defs split: if_splits)

lemma ex_nl_reliable: "0 < cap \<Longrightarrow> netlink_reliable (ex_nl cap)"
  unfolding netlink_reliable_def by (auto simp: ex_nl_def em_room_def)

text \<open>A socket whose receiver is gone.\<close>

definition ex_nl_dead :: "(ex_msg, u32 list) nl_api" where
  "ex_nl_dead = (ex_nl 1)\<lparr>genlmsg_unicast := (\<lambda>m n. (- EINVAL, n))\<rparr>"

section \<open>Bus\<close>

type_synonym mem = "u16 \<Rightarrow> u16 \<Rightarrow> u16"

definition mem_set :: "u16 \<Rightarrow> u16 \<Rightarrow> u16 \<Rightarrow> mem \<Rightarrow> mem" where
  "mem_set dev reg v w = w(dev := (w dev)(reg := v))"

text \<open>Device 31 does not answer.\<close>

definition ex_bus :: "mem bus_api" where
  "ex_bus =
     \<lparr>mdio_phy_id_is_c45 = (\<lambda>d. drop_bit 15 d = 1),
      mdio_phy_id_prtad = (\<lambda>d. drop_bit 5 d AND 31),
      mdio_phy_id_devad = (\<lambda>d. d AND 31),
      mdiobus_read = (\<lambda>d r w. (if d = 31 then - ENODEV else uint (w d r), w)),
      mdiobus_write = (\<lambda>d r v w. (0, mem_set d r v w)),
      mdiobus_c45_read = (\<lambda>p d r w. (0, w)),
      mdiobus_c45_write = (\<lambda>p d r v w. (0, w))\<rparr>"

section \<open>Kernel\<close>

definition ex_kernel :: "(ex_msg, u32 list) nl_api \<Rightarrow> (ex_msg, u32 list, mem) kernel" where
  "ex_kernel N =
     \<lparr>k_bus = ex_bus, k_nl = N,
      time_after = (\<lambda>a b. b < a),
      msecs_to_jiffies = word_of_int,
      mdio_find_bus = (\<lambda>b. b = ''fixed-0'')\<rparr>"

lemma ex_kernel_simps [simp]:
  "k_bus (ex_kernel N) = ex_bus" "k_nl (ex_kernel N) = N"
  "time_after (ex_kernel N) a b = (b < a)" "msecs_to_jiffies (ex_kernel N) = word_of_int"
  "mdio_find_bus (ex_kernel N) c = (c = ''fixed-0'')"
  by (simp_all add: ex_kernel_def)

definition ex_info :: "mdio_prog \<Rightarrow> genl_info" where
  "ex_info P =
     \<lparr>attr_bus_id = Some ''fixed-0'', attr_timeout = None,
      attr_prog = Some \<lparr>nla_len = 8 * length P, nla_data = P\<rparr>,
      attr_data = False, attr_error = False\<rparr>"

lemma ex_info_simps [simp]:
  "attr_bus_id (ex_info P) = Some ''fixed-0''" "attr_timeout (ex_info P) = None"
  "attr_prog (ex_info P) = Some \<lparr>nla_len = 8 * length P, nla_data = P\<rparr>"
  "\<not> attr_data (ex_info P)" "\<not> attr_error (ex_info P)"
  by (simp_all add: ex_info_def)

definition ex_sys :: "(u32 list, mem) ksys" where
  "ex_sys = \<lparr>sys_sock = [], sys_bus = (\<lambda>d r. d + r), sys_locked = False, sys_refs = 0\<rparr>"

text \<open>
  A program that reads registers 2 and 3 of device 1 in a loop and emits each value; it has a
  backward jump, and the message overflows on a netlink with room for one value.
\<close>

definition ex_prog :: mdio_prog where
  "ex_prog =
     [INSN OP_ADD (IMM 2) (IMM 0) (REG 2),
      INSN OP_READ (IMM 1) (REG 2) (REG 1),
      INSN OP_EMIT (REG 1) 0 0,
      INSN OP_ADD (REG 2) (IMM 1) (REG 2),
      INSN OP_JNE (REG 2) (IMM 4) (GOTO 4 1),
      INSN OP_WRITE (IMM 1) (IMM 0) (REG 2)]"

definition ex_code :: "vinsn list" where
  "ex_code =
     [VADD (Imm 2) (Imm 0) 2, VREAD (Imm 1) (Reg 2) 1, VEMIT (Reg 1), VADD (Reg 2) (Imm 1) 2,
      VJNE (Reg 2) (Imm 4) (- 4), VWRITE (Imm 1) (Imm 0) (Reg 2)]"

lemma ex_decode: "decode_prog ex_prog = Some ex_code"
  by (simp add: ex_prog_def ex_code_def insn_simps GOTO_IMM)

lemma ex_validate: "fst (validate_insns ex_prog) = 0"
  using ex_decode by (simp add: validate_insns_decode)

lemma ex_prog_length [simp]: "length ex_prog = 6"
  by (simp add: ex_prog_def)

lemma ex_accepted: "accepted \<lparr>nla_len = 48, nla_data = ex_prog\<rparr>"
  by (simp add: accepted_def prog_attr_ok_def mdio_nl_validate_prog_def ex_validate)

lemma ex_run:
  "vm_run ex_bus ex_code 20 0 (init_mst (sys_bus ex_sys)) =
     Some (Done \<lparr>regs = ((\<lambda>_. 0)(2 := 4, 1 := 4)),
                 bus = mem_set 1 0 4 (sys_bus ex_sys), out = [3, 4]\<rparr>)"
  by (simp add: ex_code_def init_mst_def run_simps set_reg_def ex_bus_def bus_read_def
      bus_write_def ex_sys_def fun_upd_def) (simp add: fun_eq_iff)

text \<open>The transfer for this program as it is when evaluation starts.\<close>

definition ex_xfer :: "(ex_msg, u32 list, mem) xfer" where
  "ex_xfer =
     \<lparr>x_msg = Live \<lparr>em_data = [], em_extra = 0\<rparr>, x_timeout_ms = 100, x_prog_len = 6,
      x_prog = ex_prog, x_mdio = sys_bus ex_sys, x_locked = False, x_sock = []\<rparr>"

end
