(* ===== verification/Nl_Theorems.thy ===== *)
theory Nl_Theorems
  imports Nl_Example
begin

text \<open>
  The properties of the kernel module, each with its instance on the example kernel.
\<close>

section \<open>Validation\<close>

text \<open>
  C8. The kernel accepts a program attribute exactly when it is a whole number of eight-byte
  instructions and every instruction is one that the interface documents: a known opcode whose
  three arguments have the documented modes.
\<close>

theorem validate_prog_accepts_documented:
  assumes "prog_attr_ok a"
  shows "fst (mdio_nl_validate_prog a) = 0 \<longleftrightarrow>
           nla_len a mod 8 = 0 \<and> decode_prog (nla_data a) \<noteq> None"
  using assms validate_insns_decode [of "nla_data a"]
  by (simp add: mdio_nl_validate_prog_def prog_attr_ok_def errno_defs)

theorem validate_prog_accepts_documented_witness:
  "fst (mdio_nl_validate_prog \<lparr>nla_len = 48, nla_data = ex_prog\<rparr>) = 0"
  using validate_prog_accepts_documented [of "\<lparr>nla_len = 48, nla_data = ex_prog\<rparr>"] ex_decode
  by (simp add: prog_attr_ok_def)

section \<open>Evaluation\<close>

text \<open>
  C5. No program that passes validation can trip a \<^verbatim>\<open>BUG_ON\<close> of the interpreter, on any
  bus, with any netlink, clock and request.
\<close>

theorem validated_prog_no_BUG:
  assumes "accepted prog" and "attr_prog info = Some prog"
  shows "mdio_nl_cmd_xfer K clk fuel info s \<noteq> Some (Inl BUG)"
proof
  assume "mdio_nl_cmd_xfer K clk fuel info s = Some (Inl BUG)"
  then have "xfer_run K clk fuel info prog (get_device s) = Some (Inl BUG)"
    using assms(2) by (cases rule: cmd_xfer_cases) auto
  then show False
  proof (cases rule: xfer_run_cases)
    case (run x re)
    obtain Q where Q: "decode_prog (nla_data prog) = Some Q"
      using assms(1) by (rule accepted_decode)
    from eval_post [OF assms(1) Q open_init(1,2) [OF run(1)] run(2), of "\<lambda>_. []" "\<lambda>_. []"] run(3) [symmetric]
    show False
      by (cases re) (auto simp: crash_bind_Inl_iff)
  qed simp
qed

theorem validated_prog_no_BUG_witness:
  "mdio_nl_cmd_xfer (ex_kernel (ex_nl 1)) (\<lambda>_. 0) 20 (ex_info ex_prog) ex_sys \<noteq> Some (Inl BUG)"
  using ex_accepted by (intro validated_prog_no_BUG) auto

text \<open>
  C1. When evaluation of an accepted program returns 0, the documented machine run on the decoded
  program halts with the same bus, and the values it outputs are exactly those that were
  appended, in order, to the reply, across however many messages.
\<close>

theorem eval_implements_machine:
  assumes "accepted a" and "decode_prog (nla_data a) = Some Q"
    and "x_prog x = nla_data a" and "x_prog_len x = int (nla_len a div 8)"
    and "mdio_nl_eval K clk fuel x = Some (Inr (0, y))" and "netlink_ok (k_nl K) md sd"
  shows "\<exists>t. vm_run (k_bus K) Q fuel 0 (init_mst (x_mdio x)) = Some (Done t) \<and>
             x_mdio y = bus t \<and> stream md sd y = stream md sd x @ out t"
  using eval_post [OF assms(1-5), of md sd] assms(6) by auto

theorem eval_implements_machine_witness:
  "\<exists>y. mdio_nl_eval (ex_kernel (ex_nl 1)) (\<lambda>_. 0) 20 ex_xfer = Some (Inr (0, y)) \<and>
       x_mdio y = mem_set 1 0 4 (sys_bus ex_sys) \<and> stream em_data id y = [3, 4]"
proof -
  obtain y e t where y: "mdio_nl_eval (ex_kernel (ex_nl 1)) (\<lambda>_. 0) 20 ex_xfer = Some (Inr (e, y))"
      "e = 0"
    using eval_complete [OF ex_accepted, of ex_code ex_xfer "ex_kernel (ex_nl 1)" 20 _ "\<lambda>_. 0" em_data id]
      ex_decode ex_run ex_nl_ok [of 1] ex_nl_reliable [of 1]
    by (auto simp: ex_xfer_def is_live_def)
  from eval_implements_machine [OF ex_accepted, where Q = ex_code and x = ex_xfer
      and K = "ex_kernel (ex_nl 1)" and clk = "\<lambda>_. 0" and fuel = 20 and y = y and md = em_data and sd = id]
  show ?thesis
    using y ex_decode ex_run ex_nl_ok [of 1]
    by (auto simp: ex_xfer_def stream_def pending_def)
qed

text \<open>
  The handler, end to end: if the documented machine ends within \<open>n\<close> steps on the decoded
  program, if the clock does not pass the deadline at the first \<open>n\<close> checks, and if netlink
  has room and delivers, then the command returns 0, the bus is in the machine's final state,
  the client receives exactly the machine's output, the bus is unlocked and the device's
  reference count is back where it was. This holds for a failing run (an error of the bus) too.
\<close>

theorem cmd_xfer_complete:
  assumes "accepted prog" and "attr_prog info = Some prog"
    and "attr_bus_id info = Some b" and "\<not> attr_data info" and "\<not> attr_error info"
    and "mdio_find_bus K b"
    and "decode_prog (nla_data prog) = Some Q"
    and "vm_run (k_bus K) Q n 0 (init_mst (sys_bus s)) = Some r"
    and "\<And>k. k < n \<Longrightarrow> \<not> time_after K (clk (Suc k))
           (clk 0 + msecs_to_jiffies K (case attr_timeout info of Some t \<Rightarrow> sint t | None \<Rightarrow> 100))"
    and "netlink_reliable (k_nl K)" and "netlink_ok (k_nl K) md sd"
  shows "\<exists>s' t. mdio_nl_cmd_xfer K clk n info s = Some (Inr (0, s')) \<and>
           (r = Done t \<or> (\<exists>e. r = Fail e t)) \<and> sys_bus s' = bus t \<and>
           sd (sys_sock s') = sd (sys_sock s) @ out t \<and>
           \<not> sys_locked s' \<and> sys_refs s' = sys_refs s"
  by (rule cmd_xfer_runs [OF assms])

theorem cmd_xfer_complete_witness:
  "\<exists>s'. mdio_nl_cmd_xfer (ex_kernel (ex_nl 1)) (\<lambda>_. 0) 20 (ex_info ex_prog) ex_sys =
          Some (Inr (0, s')) \<and>
        sys_sock s' = [3, 4] \<and> sys_bus s' = mem_set 1 0 4 (sys_bus ex_sys)"
  using cmd_xfer_complete [OF ex_accepted, where K = "ex_kernel (ex_nl 1)" and md = em_data
      and sd = id and clk = "\<lambda>_. 0" and n = 20 and info = "ex_info ex_prog" and s = ex_sys
      and b = "''fixed-0''" and Q = ex_code]
  using ex_nl_ok [of 1] ex_nl_reliable [of 1] ex_decode ex_run
  by (auto simp: ex_sys_def)

text \<open>
  C9. The handler returns for every program, also one that loops for ever, as soon as the clock
  has passed the deadline of the request.
\<close>

theorem cmd_xfer_returns:
  assumes "time_after K (clk (Suc k)) (clk 0 + msecs_to_jiffies K
             (case attr_timeout info of Some t \<Rightarrow> sint t | None \<Rightarrow> 100))"
  shows "mdio_nl_cmd_xfer K clk (Suc k) info s \<noteq> None"
proof -
  have "xfer_run K clk (Suc k) info prog s' \<noteq> None" for prog s'
  proof (cases "mdio_nl_open (k_nl K) (init_xfer info prog s')")
    case (Pair err x)
    have "mdio_nl_eval K clk (Suc k) x \<noteq> None"
      by (rule eval_returns) (simp only: open_init(5) [OF Pair] assms)
    then show ?thesis by (auto simp: xfer_run_def Pair)
  qed
  then show ?thesis by (simp add: mdio_nl_cmd_xfer_def split: option.split)
qed

text \<open>A program that jumps to itself, on a clock that advances by one with each read.\<close>

theorem cmd_xfer_returns_witness:
  "\<exists>r. mdio_nl_cmd_xfer (ex_kernel (ex_nl 1)) (\<lambda>i. word_of_nat i) 102
         (ex_info [INSN OP_JEQ (IMM 0) (IMM 0) (GOTO 0 0)]) ex_sys = Some r"
  using cmd_xfer_returns [of "ex_kernel (ex_nl 1)" "\<lambda>i. word_of_nat i" 101
      "ex_info [INSN OP_JEQ (IMM 0) (IMM 0) (GOTO 0 0)]" ex_sys] by simp

text \<open>
  C10. Whatever the program, the bus and netlink do, a handler that returns drops the reference it
  took on the bus device and leaves the bus unlocked if it was unlocked.
\<close>

theorem cmd_xfer_balanced:
  assumes "mdio_nl_cmd_xfer K clk fuel info s = Some (Inr (err, s'))"
  shows "sys_refs s' = sys_refs s \<and> (\<not> sys_locked s \<longrightarrow> \<not> sys_locked s')"
  using assms
proof (cases rule: cmd_xfer_cases)
  case (run prog)
  from run(2) show ?thesis
  proof (cases rule: xfer_run_cases)
    case (no_open e x)
    then show ?thesis by (auto simp: open_init(4))
  next
    case r: (run x re)
    from r(3) [symmetric] obtain e y z where "re = Inr (e, y)"
      and z: "mdio_nl_close (k_nl K) y True e = Inr (err, z)" "s' = put_device z (get_device s)"
      by (auto simp: crash_bind_Inr_iff)
    then show ?thesis
      using eval_unlocks [of K clk fuel x e y] r(2) close_frame [OF z(1)]
      by (auto simp: same_run_def)
  qed
qed auto

theorem cmd_xfer_balanced_witness:
  "mdio_nl_cmd_xfer (ex_kernel (ex_nl 1)) (\<lambda>_. 0) 1 (ex_info []) ex_sys = Some (Inr (0, ex_sys)) \<and>
   sys_refs ex_sys = sys_refs ex_sys"
proof -
  have run: "mdio_nl_cmd_xfer (ex_kernel (ex_nl 1)) (\<lambda>_. 0) 1 (ex_info []) ex_sys =
      Some (Inr (0, ex_sys))"
    by (simp add: mdio_nl_cmd_xfer_def xfer_run_def mdio_nl_open_def ex_nl_def mdio_nl_eval_def
        init_xfer_def mdio_nl_close.simps upd_msg_def set_msg_def put_done_def em_room_def
        unicast_def put_device_def get_device_def ex_sys_def Let_def)
  with cmd_xfer_balanced [OF run] show ?thesis by simp
qed

section \<open>The reply\<close>

text \<open>
  Emitting a value either fails or appends exactly that value to what the client receives,
  also when the message was full and had to be sent first.
\<close>

theorem emit_appends:
  assumes "netlink_ok N md sd" and "mdio_nl_emit N x v = Inr (r, y)"
  shows "r \<le> 0 \<and> (r = 0 \<longrightarrow> stream md sd y = stream md sd x @ [v]) \<and> same_run x y"
  using emit_post [of x N md sd v] assms by simp

theorem emit_appends_witness:
  "let x = \<lparr>x_msg = Live \<lparr>em_data = [7], em_extra = 0\<rparr>, x_timeout_ms = 0, x_prog_len = 0,
            x_prog = [], x_mdio = (), x_locked = True, x_sock = [5]\<rparr> in
   \<exists>y. mdio_nl_emit (ex_nl 1) x 9 = Inr (0, y) \<and> stream em_data id y = [5, 7, 9]"
proof -
  let ?x = "\<lparr>x_msg = Live \<lparr>em_data = [7], em_extra = 0\<rparr>, x_timeout_ms = 0, x_prog_len = 0,
            x_prog = [], x_mdio = (), x_locked = True, x_sock = [5 :: u32]\<rparr>"
  obtain y where y: "mdio_nl_emit (ex_nl 1) ?x 9 = Inr (0, y)"
    using emit_reliable [OF ex_nl_reliable, of 1 ?x] by (auto simp: returns_live_def)
  with emit_appends [OF ex_nl_ok y] show ?thesis
    by (simp add: stream_def pending_def)
qed



end
