(* ===== verification/Cstr.thy ===== *)
theory Cstr
  imports Mdio_Prelude
begin

text \<open>
  The functions of the C library on strings that the tools call: \<^verbatim>\<open>strtoul\<close>,
  \<^verbatim>\<open>strtoull\<close> and \<^verbatim>\<open>strtol\<close> with base 0, \<^verbatim>\<open>strtok\<close> with one delimiter,
  and the conversions of \<^verbatim>\<open>printf\<close>. A C string is a list of characters without its
  final null; \<^verbatim>\<open>unsigned long\<close> has 64 bits.
\<close>

section \<open>Reading numbers\<close>

definition isspace :: "char \<Rightarrow> bool" where
  "isspace c \<longleftrightarrow> (let n = of_char c :: nat in n = 32 \<or> 9 \<le> n \<and> n \<le> 13)"

definition digit_of :: "char \<Rightarrow> nat option" where
  "digit_of c =
     (let n = of_char c :: nat in
      if 48 \<le> n \<and> n \<le> 57 then Some (n - 48)
      else if 65 \<le> n \<and> n \<le> 90 then Some (n - 55)
      else if 97 \<le> n \<and> n \<le> 122 then Some (n - 87) else None)"

definition is_digit :: "nat \<Rightarrow> char \<Rightarrow> bool" where
  "is_digit b c \<longleftrightarrow> (case digit_of c of Some d \<Rightarrow> d < b | None \<Rightarrow> False)"

fun number :: "nat \<Rightarrow> nat \<Rightarrow> string \<Rightarrow> nat" where
  "number b n [] = n"
| "number b n (c # cs) = number b (n * b + the (digit_of c)) cs"

definition split_sign :: "string \<Rightarrow> bool \<times> string" where
  "split_sign s =
     (case s of c # r \<Rightarrow> if c = CHR ''-'' then (True, r) else if c = CHR ''+'' then (False, r) else (False, s)
              | [] \<Rightarrow> (False, []))"

text \<open>Base 0: hexadecimal after \<^verbatim>\<open>0x\<close> and a digit, octal after \<^verbatim>\<open>0\<close>, else decimal.\<close>

definition split_base :: "string \<Rightarrow> nat \<times> string" where
  "split_base s =
     (case s of
        z # x # d # r \<Rightarrow>
          if z = CHR ''0'' \<and> (x = CHR ''x'' \<or> x = CHR ''X'') \<and> is_digit 16 d then (16, d # r)
          else if z = CHR ''0'' then (8, s) else (10, s)
      | z # r \<Rightarrow> if z = CHR ''0'' then (8, s) else (10, s)
      | [] \<Rightarrow> (10, s))"

text \<open>
  The parts of a number: whether it is negated, its absolute value and the rest of the string;
  \<open>None\<close> when there is no number, in which case the rest is the whole string.
\<close>

definition scan :: "string \<Rightarrow> (bool \<times> nat \<times> string) option" where
  "scan s =
     (case split_sign (dropWhile isspace s) of (neg, r) \<Rightarrow>
      case split_base r of (b, r) \<Rightarrow>
        let ds = takeWhile (is_digit b) r in
        if ds = [] then None else Some (neg, number b 0 ds, dropWhile (is_digit b) r))"

text \<open>The value, the \<^verbatim>\<open>endptr\<close>, and whether \<^verbatim>\<open>errno\<close> was set to \<^verbatim>\<open>ERANGE\<close>.\<close>

definition strtoull :: "string \<Rightarrow> u64 \<times> string \<times> bool" where
  "strtoull s =
     (case scan s of
        None \<Rightarrow> (0, s, False)
      | Some (neg, n, r) \<Rightarrow>
          if 2 ^ 64 \<le> n then (- 1, r, True)
          else (if neg then - word_of_nat n else word_of_nat n, r, False))"

definition strtol :: "string \<Rightarrow> int \<times> string \<times> bool" where
  "strtol s =
     (case scan s of
        None \<Rightarrow> (0, s, False)
      | Some (neg, n, r) \<Rightarrow>
          let i = (if neg then - int n else int n) in
          if i < - (2 ^ 63) then (- (2 ^ 63), r, True)
          else if 2 ^ 63 \<le> i then (2 ^ 63 - 1, r, True) else (i, r, False))"

section \<open>Tokens\<close>

text \<open>\<^verbatim>\<open>strtok\<close> with the delimiter \<open>d\<close>: the token and what the next call continues with.\<close>

definition strtok :: "char \<Rightarrow> string \<Rightarrow> (string \<times> string) option" where
  "strtok d s =
     (case dropWhile (\<lambda>c. c = d) s of
        [] \<Rightarrow> None
      | r \<Rightarrow> Some (takeWhile (\<lambda>c. c \<noteq> d) r, tl (dropWhile (\<lambda>c. c \<noteq> d) r)))"

section \<open>Printing numbers\<close>

definition digit_char :: "nat \<Rightarrow> char" where
  "digit_char d = char_of (if d < 10 then 48 + d else 87 + d)"

fun digits_in :: "nat \<Rightarrow> nat \<Rightarrow> string" where
  "digits_in b n = (if n < b \<or> b < 2 then [digit_char n] else digits_in b (n div b) @ [digit_char (n mod b)])"

declare digits_in.simps [simp del]

definition dec :: "nat \<Rightarrow> string" where
  "dec n = digits_in 10 n"

text \<open>\<^verbatim>\<open>%w.wx\<close>: at least \<open>w\<close> hexadecimal digits.\<close>

definition hex_pad :: "nat \<Rightarrow> nat \<Rightarrow> string" where
  "hex_pad w n = (let s = digits_in 16 n in replicate (w - length s) CHR ''0'' @ s)"

section \<open>Reading back what was printed\<close>

lemma digit_of_digit_char: "d < 36 \<Longrightarrow> digit_of (digit_char d) = Some d"
  by (auto simp: digit_of_def digit_char_def Let_def)

lemma is_digit_digit_char: "d < b \<Longrightarrow> b \<le> 36 \<Longrightarrow> is_digit b (digit_char d)"
  by (simp add: is_digit_def digit_of_digit_char)

lemma digits_in_digits:
  "2 \<le> b \<Longrightarrow> b \<le> 36 \<Longrightarrow> c \<in> set (digits_in b n) \<Longrightarrow> is_digit b c"
proof (induction b n arbitrary: c rule: digits_in.induct)
  case (1 b n)
  have "c \<in> set (if n < b \<or> b < 2 then [digit_char n] else digits_in b (n div b) @ [digit_char (n mod b)])"
    using 1(4) digits_in.simps [of b n] by simp
  then show ?case
    using 1(1-3) by (auto intro: is_digit_digit_char split: if_splits)
qed

lemma number_append: "number b m (s @ t) = number b (number b m s) t"
  by (induction s arbitrary: m) simp_all

lemma number_digits_in: "2 \<le> b \<Longrightarrow> b \<le> 36 \<Longrightarrow> number b 0 (digits_in b n) = n"
proof (induction b n rule: digits_in.induct)
  case (1 b n)
  have "digit_of (digit_char (n mod b)) = Some (n mod b)"
    using 1(2,3) by (intro digit_of_digit_char) (meson mod_less_divisor order_less_le_trans zero_less_numeral)
  with 1 show ?case
    by (subst digits_in.simps) (auto simp: number_append digit_of_digit_char)
qed

lemma digits_in_not_Nil: "digits_in b n \<noteq> []"
  by (subst digits_in.simps) simp

lemma hd_digits_in: "2 \<le> b \<Longrightarrow> b \<le> 36 \<Longrightarrow> 0 < n \<Longrightarrow> hd (digits_in b n) \<noteq> CHR ''0''"
proof (induction b n rule: digits_in.induct)
  case (1 b n)
  have "digit_of (digit_char n) \<noteq> digit_of CHR ''0''" if "n < b"
    using 1(3,4) that by (subst digit_of_digit_char) (auto simp: digit_of_def)
  moreover have "0 < n div b" if "\<not> n < b"
    using 1(2) that by (simp add: div_greater_zero_iff)
  ultimately show ?case
    using 1 by (subst digits_in.simps) (auto simp: hd_append digits_in_not_Nil)
qed

lemma is_digit_mono: "is_digit b c \<Longrightarrow> b \<le> b' \<Longrightarrow> is_digit b' c"
  by (auto simp: is_digit_def split: option.splits)

lemma is_digit_not_space: "is_digit b c \<Longrightarrow> \<not> isspace c"
  by (auto simp: is_digit_def digit_of_def isspace_def Let_def split: if_splits)

lemma is_digit_not_sign: "is_digit b c \<Longrightarrow> c \<noteq> CHR ''-'' \<and> c \<noteq> CHR ''+''"
  by (auto simp: is_digit_def digit_of_def)

text \<open>What may follow a number without being read as part of it.\<close>

definition ends_number :: "string \<Rightarrow> bool" where
  "ends_number r \<longleftrightarrow> r = [] \<or> \<not> is_digit 36 (hd r)"

lemma takeWhile_digits:
  assumes "\<And>c. c \<in> set ds \<Longrightarrow> is_digit b c" and "ends_number r" and "b \<le> 36"
  shows "takeWhile (is_digit b) (ds @ r) = ds \<and> dropWhile (is_digit b) (ds @ r) = r"
proof -
  have "takeWhile (is_digit b) r = [] \<and> dropWhile (is_digit b) r = r"
    using assms(2,3) by (cases r) (auto simp: ends_number_def dest: is_digit_mono)
  then show ?thesis
    using assms(1) by (induction ds) auto
qed

lemma scan_digits:
  assumes "split_base (ds @ r) = (b, ds @ r)" and "ds \<noteq> []"
    and "\<And>c. c \<in> set ds \<Longrightarrow> is_digit b c" and "ends_number r" and "b \<le> 36"
  shows "scan (ds @ r) = Some (False, number b 0 ds, r)"
proof -
  obtain c cs where ds: "ds = c # cs" using assms(2) by (cases ds) auto
  then have c: "is_digit b c" using assms(3) by simp
  have "dropWhile isspace (ds @ r) = ds @ r"
    using is_digit_not_space [OF c] by (simp add: ds)
  moreover have "split_sign (ds @ r) = (False, ds @ r)"
    using is_digit_not_sign [OF c] by (simp add: ds split_sign_def)
  ultimately show ?thesis
    using takeWhile_digits [OF assms(3-5)] assms(1,2) by (simp add: scan_def)
qed

lemma scan_dec: "ends_number r \<Longrightarrow> scan (dec n @ r) = Some (False, n, r)"
proof (cases "n = 0")
  case True
  assume r: "ends_number r"
  have d: "dec 0 = ''0''" by code_simp
  have "split_base (''0'' @ r) = (8, ''0'' @ r)"
    using r by (auto simp: split_base_def ends_number_def is_digit_def digit_of_def split: list.splits)
  from scan_digits [OF this _ _ r] show ?thesis
    by (simp add: True d is_digit_def digit_of_def)
next
  case False
  assume r: "ends_number r"
  have "dec n \<noteq> []" "hd (dec n) \<noteq> CHR ''0''"
    using False hd_digits_in [of 10 n] by (simp_all add: dec_def digits_in_not_Nil)
  then have "split_base (dec n @ r) = (10, dec n @ r)"
    by (cases "dec n") (auto simp: split_base_def split: list.splits)
  from scan_digits [OF this _ _ r] show ?thesis
    using digits_in_digits [of 10 _ n] number_digits_in [of 10 n]
    by (simp add: dec_def digits_in_not_Nil)
qed

lemma strtoull_dec: "n < 2 ^ 64 \<Longrightarrow> ends_number r \<Longrightarrow> strtoull (dec n @ r) = (word_of_nat n, r, False)"
  by (simp add: strtoull_def scan_dec)

lemma strtoull_hex:
  assumes "n < 2 ^ 64" and "ends_number r"
  shows "strtoull (''0x'' @ digits_in 16 n @ r) = (word_of_nat n, r, False)"
proof -
  let ?ds = "digits_in 16 n"
  obtain c cs where ds: "?ds = c # cs" using digits_in_not_Nil by (cases ?ds) auto
  have "split_base (''0x'' @ ?ds @ r) = (16, ?ds @ r)"
    using digits_in_digits [of 16 c n] by (simp add: ds split_base_def)
  moreover have "takeWhile (is_digit 16) (?ds @ r) = ?ds \<and> dropWhile (is_digit 16) (?ds @ r) = r"
    by (rule takeWhile_digits) (use assms digits_in_digits [of 16 _ n] in auto)
  ultimately have "scan (''0x'' @ ?ds @ r) = Some (False, n, r)"
    using number_digits_in [of 16 n]
    by (simp add: scan_def split_sign_def isspace_def digits_in_not_Nil)
  then show ?thesis using assms(1) by (simp add: strtoull_def)
qed

lemma ends_number_simps [simp]:
  "ends_number []" "ends_number (CHR '':'' # r)" "ends_number (CHR ''/'' # r)"
  "ends_number (CHR ''-'' # r)" "ends_number (CHR ''+'' # r)"
  by (simp_all add: ends_number_def is_digit_def digit_of_def)

end
