(* ===== verification/Mdio_Parse.thy ===== *)
theory Mdio_Parse
  imports Cstr
begin

text \<open>
  The argument parsers of \<^verbatim>\<open>src/mdio/mdio.c\<close>: device addresses, register ranges and
  values with a mask. A parser returns the error it prints and returns, or the values it
  stores through its pointers.
\<close>

section \<open>Errors\<close>

datatype parse_err =
    C45_Not_Allowed
  | Device_Out_Of_Range u64
  | Address_Out_Of_Range bool u64
  | Not_A_Device string
  | Unexpected_Range
  | Not_A_Range string
  | Not_A_Register string
  | Register_Out_Of_Range u64 u32
  | Expected_Register
  | Mask_Not_Allowed
  | Value_Out_Of_Range u64 u64
  | Mask_Out_Of_Range u64 u64
  | Not_A_Value string
  | Expected_Page
  | Not_A_Page string
  | Page_Out_Of_Range u64
  | Ranges_Not_Implemented
  | Expected_Port
  | Not_A_Port string
  | Port_Out_Of_Range u64
  | Short_Register_Out_Of_Range u64
  | Bad_Page_Register parse_err

text \<open>The value returned.\<close>

primrec err_code :: "parse_err \<Rightarrow> int" where
  "err_code C45_Not_Allowed = EINVAL"
| "err_code (Device_Out_Of_Range d) = ERANGE"
| "err_code (Address_Out_Of_Range port d) = ERANGE"
| "err_code (Not_A_Device s) = EINVAL"
| "err_code Unexpected_Range = EINVAL"
| "err_code (Not_A_Range s) = EINVAL"
| "err_code (Not_A_Register s) = EINVAL"
| "err_code (Register_Out_Of_Range r m) = ERANGE"
| "err_code Expected_Register = EINVAL"
| "err_code Mask_Not_Allowed = EINVAL"
| "err_code (Value_Out_Of_Range v m) = ERANGE"
| "err_code (Mask_Out_Of_Range v m) = ERANGE"
| "err_code (Not_A_Value s) = EINVAL"
| "err_code Expected_Page = EINVAL"
| "err_code (Not_A_Page s) = EINVAL"
| "err_code (Page_Out_Of_Range p) = EINVAL"
| "err_code Ranges_Not_Implemented = ENOSYS"
| "err_code Expected_Port = EINVAL"
| "err_code (Not_A_Port s) = EINVAL"
| "err_code (Port_Out_Of_Range p) = EINVAL"
| "err_code (Short_Register_Out_Of_Range p) = EINVAL"
| "err_code (Bad_Page_Register e) = EINVAL"

lemma err_code_pos: "0 < err_code e"
  by (cases e) (simp_all add: errno_defs)

section \<open>Device addresses\<close>

text \<open>
  The macros of \<^verbatim>\<open>linux/mdio.h\<close> and \<^verbatim>\<open>linux/mii.h\<close>, which are not part of the repository, and what its
  documentation says of them: a Clause 45 address carries a flag, a port and a device number.
\<close>

record phy_uapi =
  MDIO_PHY_ID_C45 :: u16
  MDIO_PHY_ID_PRTAD :: u16
  MDIO_PHY_ID_DEVAD :: u16
  mdio_phy_id_c45 :: "u16 \<Rightarrow> u16 \<Rightarrow> u16"
  MDIO_MMD_PMAPMD :: u16
  MDIO_MMD_PCS :: u16
  MDIO_MMD_AN :: u16
  BMSR_ESTATEN :: u16
  BMSR_LSTATUS :: u16

definition uapi_ok :: "phy_uapi \<Rightarrow> bool" where
  "uapi_ok U \<longleftrightarrow>
     (\<forall>p d. p \<le> 31 \<longrightarrow> d \<le> 31 \<longrightarrow>
        mdio_phy_id_c45 U p d AND MDIO_PHY_ID_C45 U \<noteq> 0 \<and>
        drop_bit 5 (mdio_phy_id_c45 U p d AND MDIO_PHY_ID_PRTAD U) = p \<and>
        mdio_phy_id_c45 U p d AND MDIO_PHY_ID_DEVAD U = d) \<and>
     (\<forall>p. p \<le> 31 \<longrightarrow> p AND MDIO_PHY_ID_C45 U = 0)"

text \<open>The values of the Linux header.\<close>

definition linux_uapi :: phy_uapi where
  "linux_uapi =
     \<lparr>MDIO_PHY_ID_C45 = 0x8000, MDIO_PHY_ID_PRTAD = 0x03e0, MDIO_PHY_ID_DEVAD = 0x001f,
      mdio_phy_id_c45 = (\<lambda>p d. 0x8000 OR push_bit 5 p OR d),
      MDIO_MMD_PMAPMD = 1, MDIO_MMD_PCS = 3, MDIO_MMD_AN = 7,
      BMSR_ESTATEN = 0x0100, BMSR_LSTATUS = 0x0004\<rparr>"

definition mdio_parse_dev :: "phy_uapi \<Rightarrow> string \<Rightarrow> bool \<Rightarrow> parse_err + u16" where
  "mdio_parse_dev U str allow_c45 =
     (case strtoull str of (p, end0, _) \<Rightarrow>
        let c22 = (\<lambda>allow_c45 d.
              if 31 < p then Inl (Address_Out_Of_Range allow_c45 d)
              else Inr (if allow_c45 then mdio_phy_id_c45 U (ucast p) (ucast d) else ucast p)) in
        if end0 = [] then c22 False 0
        else if hd end0 \<noteq> CHR '':'' then Inl (Not_A_Device str)
        else if \<not> allow_c45 then Inl C45_Not_Allowed
        else (case strtoull (tl end0) of (d, end1, _) \<Rightarrow>
               if end1 \<noteq> [] then Inl (Not_A_Device str)
               else if allow_c45 \<and> 31 < d then Inl (Device_Out_Of_Range d)
               else c22 allow_c45 d))"

section \<open>Register ranges\<close>

definition mdio_parse_range ::
  "u32 \<Rightarrow> string \<Rightarrow> bool \<Rightarrow> parse_err + (u32 \<times> u32)" where
  "mdio_parse_range mem_max str rege =
     (let check = (\<lambda>rs re.
            if ucast mem_max < rs then Inl (Register_Out_Of_Range rs mem_max)
            else if ucast mem_max < re then Inl (Register_Out_Of_Range re mem_max)
            else Inr (ucast rs, ucast re)) in
      case strtoull str of (rs, end0, erange) \<Rightarrow>
        if erange then Inl (Not_A_Register str)
        else (case end0 of
                [] \<Rightarrow> check rs rs
              | c # str' \<Rightarrow>
                  if c = CHR ''+'' \<or> c = CHR ''-'' then
                    if \<not> rege then Inl Unexpected_Range
                    else (case strtoull str' of (re, _, erange) \<Rightarrow>
                           if erange then Inl (Not_A_Range str)
                           else check rs (re + (if c = CHR ''+'' then rs else 0)))
                  else Inl (Not_A_Register str)))"

section \<open>The argument vector\<close>

definition argv_peek :: "string list \<Rightarrow> string option" where
  "argv_peek argv = (case argv of [] \<Rightarrow> None | a # _ \<Rightarrow> Some a)"

definition argv_pop :: "string list \<Rightarrow> string option \<times> string list" where
  "argv_pop argv = (case argv_peek argv of None \<Rightarrow> (None, argv) | Some a \<Rightarrow> (Some a, tl argv))"

lemma argv_simps [simp]:
  "argv_peek [] = None" "argv_peek (a # as) = Some a"
  "argv_pop [] = (None, [])" "argv_pop (a # as) = (Some a, as)"
  by (simp_all add: argv_peek_def argv_pop_def)

definition mdio_device_dflt_parse_reg ::
  "u32 \<Rightarrow> string list \<Rightarrow> bool \<Rightarrow> parse_err + (string list \<times> u32 \<times> u32)" where
  "mdio_device_dflt_parse_reg mem_max argv rege =
     (case argv_pop argv of
        (None, _) \<Rightarrow> Inl Expected_Register
      | (Some arg, argv) \<Rightarrow>
          (case mdio_parse_range mem_max arg rege of
             Inl e \<Rightarrow> Inl e | Inr (rs, re) \<Rightarrow> Inr (argv, rs, re)))"

section \<open>Values\<close>

definition mdio_parse_val ::
  "nat \<Rightarrow> string list \<Rightarrow> bool \<Rightarrow> parse_err + (string list \<times> u32 \<times> u32)" where
  "mdio_parse_val width argv want_mask =
     (let maxv = word_of_int (2 ^ width - 1);
          check = (\<lambda>argv v m.
            if maxv < v then Inl (Value_Out_Of_Range v maxv)
            else if maxv < m then Inl (Mask_Out_Of_Range m maxv)
            else Inr (argv, ucast v, ucast m)) in
      case argv_pop argv of
        (None, _) \<Rightarrow> Inl Expected_Register
      | (Some str, argv) \<Rightarrow>
          (case strtoull str of (v, end0, _) \<Rightarrow>
             if end0 = [] then check argv v 0
             else if hd end0 \<noteq> CHR ''/'' then Inl (Not_A_Value str)
             else if \<not> want_mask then Inl Mask_Not_Allowed
             else (case strtoull (tl end0) of (m, end1, _) \<Rightarrow>
                    if end1 \<noteq> [] then Inl (Not_A_Value str) else check argv v m)))"

lemmas parse_eval = mdio_parse_dev_def mdio_parse_range_def mdio_parse_val_def strtoull_def scan_def
  split_sign_def split_base_def isspace_def is_digit_def digit_of_def Let_def

section \<open>What the parsers accept\<close>

lemma le_31_bit:
  fixes p :: u16
  assumes "p \<le> 31" and "bit p n"
  shows "n < 5"
proof -
  have "unat p < 2 ^ 5" using assms(1) by (simp add: word_le_nat_alt)
  then have "take_bit 5 p = p"
    by (simp add: word_unat_eq_iff unsigned_take_bit_eq take_bit_nat_eq_self)
  then show ?thesis using assms(2) by (metis bit_take_bit_iff)
qed

text \<open>The address fields, with the three masks given by their bits.\<close>

lemma c45_fields:
  fixes p d flag port_mask dev_mask :: u16
  assumes "p \<le> 31" and "d \<le> 31"
    and "\<And>n. bit flag n \<longleftrightarrow> n = 15" "\<And>n. bit port_mask n \<longleftrightarrow> 5 \<le> n \<and> n < 10"
    and "\<And>n. bit dev_mask n \<longleftrightarrow> n < 5"
  shows "drop_bit 5 ((flag OR push_bit 5 p OR d) AND port_mask) = p"
    and "(flag OR push_bit 5 p OR d) AND dev_mask = d"
    and "(flag OR push_bit 5 p OR d) AND flag = flag"
    and "p AND flag = 0"
  using assms(1,2)
  by (auto intro!: bit_word_eqI simp: bit_simps assms(3-5) dest: le_31_bit)

lemma linux_masks:
  "bit (0x8000 :: u16) n \<longleftrightarrow> n = 15"
  "bit (0x03e0 :: u16) n \<longleftrightarrow> 5 \<le> n \<and> n < 10"
  "bit (0x001f :: u16) n \<longleftrightarrow> n < 5"
proof -
  have "(0x8000 :: u16) = push_bit 15 1" "(0x03e0 :: u16) = push_bit 5 (mask 5)"
      "(0x001f :: u16) = mask 5"
    by (simp_all add: mask_eq_exp_minus_1)
  then show "bit (0x8000 :: u16) n \<longleftrightarrow> n = 15"
    and "bit (0x03e0 :: u16) n \<longleftrightarrow> 5 \<le> n \<and> n < 10"
    and "bit (0x001f :: u16) n \<longleftrightarrow> n < 5"
    by (auto simp only: bit_push_bit_iff bit_mask_iff bit_1_iff possible_bit_word) simp_all
qed

lemma linux_uapi_ok: "uapi_ok linux_uapi"
proof -
  have "(0x8000 :: u16) \<noteq> 0" by simp
  then show ?thesis
    unfolding uapi_ok_def linux_uapi_def phy_uapi.select_convs
    using c45_fields [OF _ _ linux_masks] by metis
qed

lemma ucast_le_31: "(x :: u64) \<le> 31 \<Longrightarrow> (ucast x :: u16) \<le> 31"
  by (simp add: word_le_nat_alt unsigned_ucast_eq take_bit_nat_eq_self)

lemma parse_dev_Inr:
  assumes "mdio_parse_dev U str allow_c45 = Inr dev"
  shows "dev \<le> 31 \<or> allow_c45 \<and> (\<exists>p d. p \<le> 31 \<and> d \<le> 31 \<and> dev = mdio_phy_id_c45 U p d)"
  using assms
  by (auto simp: mdio_parse_dev_def Let_def not_less split: prod.splits if_splits
      dest!: ucast_le_31)

text \<open>
  A device argument that is accepted is a Clause 22 address between 0 and 31, or, where
  Clause 45 is allowed, the address made of a port and a device number between 0 and 31.
\<close>

theorem parse_dev_in_range:
  assumes "mdio_parse_dev U str allow_c45 = Inr dev"
  shows "dev \<le> 31 \<or> allow_c45 \<and> (\<exists>p d. p \<le> 31 \<and> d \<le> 31 \<and> dev = mdio_phy_id_c45 U p d)"
  using assms by (rule parse_dev_Inr)

theorem parse_dev_in_range_witness:
  "mdio_parse_dev linux_uapi ''0x1f'' False = Inr 31 \<and> (31 :: u16) \<le> 31"
proof -
  have run: "mdio_parse_dev linux_uapi ''0x1f'' False = Inr 31" by (simp add: parse_eval)
  show ?thesis using run parse_dev_in_range [OF run] by simp
qed

lemma parse_dev_dec:
  assumes "p \<le> 31" and "d \<le> 31"
  shows "mdio_parse_dev U (dec p) c45 = Inr (of_nat p) \<and>
         mdio_parse_dev U (dec p @ '':'' @ dec d) True = Inr (mdio_phy_id_c45 U (of_nat p) (of_nat d))"
proof -
  have le: "\<not> 31 < (word_of_nat p :: u64)" "\<not> 31 < (word_of_nat d :: u64)"
    using assms by (simp_all add: word_less_nat_alt unsigned_of_nat take_bit_nat_eq_self)
  have small: "p < 2 ^ 64" "d < 2 ^ 64" using assms by simp_all
  have cast: "ucast (word_of_nat n :: u64) = (word_of_nat n :: u16)" for n
    by (rule bit_word_eqI) (auto simp: bit_simps)
  have "strtoull (dec p) = (word_of_nat p, [], False)"
    and "strtoull (dec p @ '':'' @ dec d) = (word_of_nat p, '':'' @ dec d, False)"
    and "strtoull (dec d) = (word_of_nat d, [], False)"
    using strtoull_dec [of p "[]"] strtoull_dec [of p "'':'' @ dec d"] strtoull_dec [of d "[]"] small
    by simp_all
  then show ?thesis
    using le by (simp add: mdio_parse_dev_def Let_def cast)
qed

text \<open>
  Writing an address the documented way reads back as that address: a decimal device number,
  or port and device number with a colon between them.
\<close>

theorem parse_dev_roundtrip:
  assumes "p \<le> 31" and "d \<le> 31"
  shows "mdio_parse_dev U (dec p) c45 = Inr (of_nat p) \<and>
         mdio_parse_dev U (dec p @ '':'' @ dec d) True = Inr (mdio_phy_id_c45 U (of_nat p) (of_nat d))"
  using assms by (rule parse_dev_dec)

theorem parse_dev_roundtrip_witness:
  "mdio_parse_dev linux_uapi (dec 9 @ '':'' @ dec 4) True = Inr (mdio_phy_id_c45 linux_uapi 9 4)"
  using parse_dev_roundtrip [of 9 4 linux_uapi True] by simp

text \<open>
  C39. Both ends of a register range that is accepted are within the device, whatever the form
  of the range; a single register is a range of one; without a range allowed only a single
  register is accepted.
\<close>

theorem parse_range_in_bounds:
  assumes "mdio_parse_range mem_max str rege = Inr (rs, re)"
  shows "rs \<le> mem_max \<and> re \<le> mem_max \<and> (\<not> rege \<longrightarrow> re = rs)"
proof -
  have cast: "(ucast x :: u32) \<le> mem_max" if "\<not> ucast mem_max < x" for x :: u64
  proof -
    have m: "unat mem_max < 2 ^ 32" using unsigned_less [of mem_max, where ?'a = nat] by simp
    then have "unat x \<le> unat mem_max"
      using that by (simp add: word_less_nat_alt unsigned_ucast_eq take_bit_nat_eq_self)
    with m show ?thesis
      by (simp add: word_le_nat_alt unsigned_ucast_eq take_bit_nat_eq_self)
  qed
  show ?thesis
    using assms
    by (auto simp: mdio_parse_range_def Let_def intro: cast
        split: prod.splits if_splits list.splits)
qed

theorem parse_range_in_bounds_witness:
  "mdio_parse_range 31 ''4+0x3'' True = Inr (4, 7) \<and> (7 :: u32) \<le> 31"
proof -
  have run: "mdio_parse_range 31 ''4+0x3'' True = Inr (4, 7)" by (simp add: parse_eval)
  show ?thesis using run parse_range_in_bounds [OF run] by simp
qed

lemma parse_range_dec:
  assumes "a \<le> unat mem_max" and "b \<le> unat mem_max"
  shows "mdio_parse_range mem_max (dec a) rege = Inr (of_nat a, of_nat a) \<and>
         mdio_parse_range mem_max (dec a @ ''-'' @ dec b) True = Inr (of_nat a, of_nat b) \<and>
         (a + b \<le> unat mem_max \<longrightarrow>
            mdio_parse_range mem_max (dec a @ ''+'' @ dec b) True = Inr (of_nat a, of_nat (a + b)))"
proof -
  have m: "unat mem_max < 2 ^ 32" using unsigned_less [of mem_max, where ?'a = nat] by simp
  then have small: "a < 2 ^ 64" "b < 2 ^ 64" using assms by simp_all
  have le: "\<not> ucast mem_max < (word_of_nat n :: u64)" if "n \<le> unat mem_max" for n
    using that m
    by (simp add: word_less_nat_alt unsigned_of_nat unsigned_ucast_eq take_bit_nat_eq_self)
  have cast: "ucast (word_of_nat n :: u64) = (word_of_nat n :: u32)" for n
    by (rule bit_word_eqI) (auto simp: bit_simps)
  have "strtoull (dec a) = (word_of_nat a, [], False)"
    and "strtoull (dec a @ ''-'' @ dec b) = (word_of_nat a, ''-'' @ dec b, False)"
    and "strtoull (dec a @ ''+'' @ dec b) = (word_of_nat a, ''+'' @ dec b, False)"
    and "strtoull (dec b) = (word_of_nat b, [], False)"
    using strtoull_dec [of a "[]"] strtoull_dec [of a "''-'' @ dec b"]
      strtoull_dec [of a "''+'' @ dec b"] strtoull_dec [of b "[]"] small
    by simp_all
  then show ?thesis
    using le [of a] le [of b] le [of "a + b"] assms cast [of a] cast [of b] cast [of "a + b"]
    by (simp add: mdio_parse_range_def Let_def add.commute)
qed

text \<open>
  The three documented forms of a range, with decimal numbers: a register, first and last
  register, first register and offset of the last.
\<close>

theorem parse_range_forms:
  assumes "a \<le> unat mem_max" and "b \<le> unat mem_max"
  shows "mdio_parse_range mem_max (dec a) rege = Inr (of_nat a, of_nat a) \<and>
         mdio_parse_range mem_max (dec a @ ''-'' @ dec b) True = Inr (of_nat a, of_nat b) \<and>
         (a + b \<le> unat mem_max \<longrightarrow>
            mdio_parse_range mem_max (dec a @ ''+'' @ dec b) True = Inr (of_nat a, of_nat (a + b)))"
  using assms by (rule parse_range_dec)

theorem parse_range_forms_witness:
  "mdio_parse_range 31 (dec 2 @ ''-'' @ dec 5) True = Inr (2, 5)"
  using parse_range_forms [of 2 31 5] by simp

text \<open>
  A value and its mask that are accepted fit the width of the device's registers; without a
  mask the stored mask is 0.
\<close>

theorem parse_val_in_bounds:
  assumes "mdio_parse_val 16 argv want_mask = Inr (argv', v, m)"
  shows "v \<le> 0xffff \<and> m \<le> 0xffff \<and> (\<not> want_mask \<longrightarrow> m = 0) \<and> argv' = tl argv \<and> argv \<noteq> []"
proof -
  have cast: "(ucast x :: u32) \<le> 0xffff" if "x \<le> 0xffff" for x :: u64
    using that by (simp add: word_le_nat_alt unsigned_ucast_eq take_bit_nat_eq_self)
  show ?thesis
    using assms
    by (auto simp: mdio_parse_val_def Let_def not_less argv_pop_def argv_peek_def intro: cast
        split: prod.splits if_splits list.splits)
qed

theorem parse_val_in_bounds_witness:
  "mdio_parse_val 16 [''0xa/0xfff0'', ''x''] True = Inr ([''x''], 0xa, 0xfff0) \<and>
   (0xfff0 :: u32) \<le> 0xffff"
proof -
  have run: "mdio_parse_val 16 [''0xa/0xfff0'', ''x''] True = Inr ([''x''], 0xa, 0xfff0)" by (simp add: parse_eval)
  show ?thesis using run parse_val_in_bounds [OF run] by simp
qed

end
