(* ===== verification/Mdio_Xfer.thy ===== *)
theory Mdio_Xfer
  imports Mdio_Insn Cstr
begin

text \<open>
  The client side of a transfer in \<^verbatim>\<open>src/mdio/mdio.c\<close>: \<^verbatim>\<open>mdio_xfer_timeout\<close>,
  \<^verbatim>\<open>mdio_xfer\<close> and the callback \<^verbatim>\<open>mdio_xfer_cb\<close> that libmnl runs on every reply.
  libmnl and the socket are a parameter: what they deliver for a program.
\<close>

section \<open>Replies\<close>

text \<open>
  One reply message: its \<^verbatim>\<open>MDIO_NLA_ERROR\<close> and \<^verbatim>\<open>MDIO_NLA_DATA\<close> attributes. The
  socket cannot be opened, or the replies arrive and \<^verbatim>\<open>msg_recv\<close> ends with the given
  status once no callback has failed.
\<close>

record reply =
  reply_error :: "u32 option"
  reply_data :: "u32 list option"

datatype answer = No_Socket | Answer "reply list" int

type_synonym kernel_link = "string \<Rightarrow> mdio_prog \<Rightarrow> u16 \<Rightarrow> answer"

text \<open>A callback gets the data and the error so far; it returns a status and what it prints, a
  string or a list of reports.\<close>

type_synonym 'o xfer_cb = "u32 list \<Rightarrow> int \<Rightarrow> int \<times> 'o list"

definition MNL_CB_ERROR :: int where "MNL_CB_ERROR = -1"
definition MNL_CB_OK :: int where "MNL_CB_OK = 1"

text \<open>\<^verbatim>\<open>struct mdio_xfer_data\<close> is the pair of the callback and the error.\<close>

definition mdio_xfer_cb :: "'o xfer_cb \<Rightarrow> reply \<Rightarrow> int \<Rightarrow> int \<times> int \<times> 'o list" where
  "mdio_xfer_cb cb r xerr =
     (let xerr = (case reply_error r of Some e \<Rightarrow> sint e | None \<Rightarrow> xerr) in
      case reply_data r of
        None \<Rightarrow> (MNL_CB_ERROR, xerr, [])
      | Some data \<Rightarrow>
          (case cb data xerr of (err, s) \<Rightarrow>
             (if err \<noteq> 0 then MNL_CB_ERROR else MNL_CB_OK, xerr, s)))"

fun msg_recv :: "'o xfer_cb \<Rightarrow> reply list \<Rightarrow> int \<Rightarrow> int \<Rightarrow> int \<times> int \<times> 'o list" where
  "msg_recv cb [] final xerr = (final, xerr, [])"
| "msg_recv cb (r # rs) final xerr =
     (case mdio_xfer_cb cb r xerr of (ret, xerr, s) \<Rightarrow>
        if ret \<le> 0 then (ret, xerr, s)
        else (case msg_recv cb rs final xerr of (ret, xerr, s') \<Rightarrow> (ret, xerr, s @ s')))"

definition XFER_BUF_LEN :: nat where "XFER_BUF_LEN = 0x1000"

definition mdio_xfer_timeout ::
  "kernel_link \<Rightarrow> string \<Rightarrow> mdio_prog \<Rightarrow> 'o xfer_cb \<Rightarrow> u16 \<Rightarrow> int \<times> 'o list" where
  "mdio_xfer_timeout link bus prog cb timeout_ms =
     (if XFER_BUF_LEN < length prog * 8 then (- ENOMEM, [])
      else (case link bus prog timeout_ms of
              No_Socket \<Rightarrow> (- ENOTSUP, [])
            | Answer rs final \<Rightarrow>
                (case msg_recv cb rs final 0 of (err, xerr, s) \<Rightarrow>
                   (if xerr \<noteq> 0 then xerr else err, s))))"

definition mdio_xfer :: "kernel_link \<Rightarrow> string \<Rightarrow> mdio_prog \<Rightarrow> 'o xfer_cb \<Rightarrow> int \<times> 'o list" where
  "mdio_xfer link bus prog cb = mdio_xfer_timeout link bus prog cb 1000"

section \<open>What a transfer returns\<close>

lemma xfer_too_long: "XFER_BUF_LEN < length prog * 8 \<Longrightarrow>
    mdio_xfer_timeout link bus prog cb t = (- ENOMEM, [])"
  by (simp add: mdio_xfer_timeout_def)

text \<open>The reply of the kernel module to a request that it could answer in one message.\<close>

definition one_reply :: "int \<Rightarrow> u32 list \<Rightarrow> answer" where
  "one_reply err data =
     Answer [\<lparr>reply_error = (if err = 0 then None else Some (word_of_int err)),
              reply_data = Some data\<rparr>] 0"

lemma xfer_one_reply:
  assumes "length prog * 8 \<le> XFER_BUF_LEN" and "link bus prog t = one_reply err data"
    and "- (2 ^ 31) \<le> err" "err < 2 ^ 31" and "cb data err = (ret, s)"
  shows "mdio_xfer_timeout link bus prog cb t =
           (if err \<noteq> 0 then err else if ret \<noteq> 0 then MNL_CB_ERROR else 0, s)"
proof -
  have "sint (word_of_int err :: u32) = err"
    using assms(3,4) by (simp add: sint_sbintrunc' signed_take_bit_int_eq_self)
  then show ?thesis
    using assms
    by (auto simp: mdio_xfer_timeout_def one_reply_def mdio_xfer_cb_def MNL_CB_ERROR_def
        MNL_CB_OK_def)
qed

end
