(* ===== verification/Mdio_Device.thy ===== *)
theory Mdio_Device
  imports Mdio_Parse Mdio_Xfer
begin

text \<open>
  Devices and the operations that work on every device: \<^verbatim>\<open>struct mdio_device\<close> and
  \<^verbatim>\<open>struct mdio_driver\<close> of \<^verbatim>\<open>src/mdio/mdio.h\<close>, and the \<^verbatim>\<open>raw\<close>,
  \<^verbatim>\<open>bench\<close> and \<^verbatim>\<open>dump\<close> commands of \<^verbatim>\<open>src/mdio/mdio.c\<close>. Each command is
  split where the C code calls \<^verbatim>\<open>mdio_xfer\<close>: the part before it builds a program or
  refuses, the part after it is the callback and the exit status.
\<close>

section \<open>Devices and drivers\<close>

text \<open>
  The driver's operations, closed over the device they get as first argument. Optional ones are
  \<open>None\<close> when the pointer is null.
\<close>

record mdio_device =
  dev_bus :: string
  mem_max :: u32
  mem_width :: nat
  drv_read :: "u32 \<Rightarrow> mdio_prog \<Rightarrow> int \<times> mdio_prog"
  drv_write :: "u32 \<Rightarrow> u32 \<Rightarrow> mdio_prog \<Rightarrow> int \<times> mdio_prog"
  drv_dump :: "(u32 \<times> u32 \<Rightarrow> mdio_prog \<Rightarrow> (int \<times> mdio_prog \<times> u32 \<times> u32) option) option"
  drv_parse_reg :: "(string list \<Rightarrow> bool \<Rightarrow> parse_err + (string list \<times> u32 \<times> u32)) option"
  drv_parse_val :: "(string list \<Rightarrow> bool \<Rightarrow> parse_err + (string list \<times> u32 \<times> u32)) option"

definition mdio_device_parse_reg ::
  "mdio_device \<Rightarrow> string list \<Rightarrow> bool \<Rightarrow> parse_err + (string list \<times> u32 \<times> u32)" where
  "mdio_device_parse_reg dev argv rege =
     (case drv_parse_reg dev of
        Some f \<Rightarrow> f argv rege
      | None \<Rightarrow> mdio_device_dflt_parse_reg (mem_max dev) argv rege)"

definition mdio_device_parse_val ::
  "mdio_device \<Rightarrow> string list \<Rightarrow> bool \<Rightarrow> parse_err + (string list \<times> u32 \<times> u32)" where
  "mdio_device_parse_val dev argv want_mask =
     (case drv_parse_val dev of
        Some f \<Rightarrow> f argv want_mask
      | None \<Rightarrow> mdio_parse_val (mem_width dev) argv want_mask)"

text \<open>A command that ends before it has a program: the value it returns comes from one of these.\<close>

datatype refusal = Bad_Argument parse_err | Unexpected_Argument | Driver_Error int

primrec refusal_code :: "refusal \<Rightarrow> int" where
  "refusal_code (Bad_Argument e) = err_code e"
| "refusal_code Unexpected_Argument = EINVAL"
| "refusal_code (Driver_Error e) = e"

text \<open>Encoded operands as they are passed to \<^verbatim>\<open>driver->write\<close>, a 32-bit argument.\<close>

definition arg32 :: "u18 \<Rightarrow> u32" where
  "arg32 a = ucast a"

definition of_arg32 :: "u32 \<Rightarrow> u18" where
  "of_arg32 v = ucast v"

lemma of_arg32_arg32 [simp]: "of_arg32 (arg32 a) = a"
  by (rule bit_word_eqI) (auto simp: of_arg32_def arg32_def bit_simps dest: bit_imp_le_length)

lemma ucast_arg32_IMM: "IMM (ucast (arg32 (IMM n))) = IMM n"
proof -
  have "(ucast (arg32 (IMM n)) :: u16) = n"
    by (rule bit_word_eqI) (auto simp: arg32_def IMM_def bit_simps)
  then show ?thesis by simp
qed

section \<open>Raw access\<close>

definition mdio_common_raw_read_cb :: "char xfer_cb" where
  "mdio_common_raw_read_cb data err =
     (if length data \<noteq> 1 then (1, [])
      else (err, ''0x'' @ hex_pad 4 (unat (hd data)) @ [CHR 0x0A]))"

definition mdio_common_raw_write_cb :: "char xfer_cb" where
  "mdio_common_raw_write_cb data err = (if length data \<noteq> 0 then (1, []) else (err, []))"

text \<open>The value and mask that follow the register, if anything does, and nothing after them.\<close>

definition raw_args ::
  "mdio_device \<Rightarrow> string list \<Rightarrow> refusal + (u32 \<times> (u32 \<times> u32) option)" where
  "raw_args dev argv =
     (case mdio_device_parse_reg dev argv False of
        Inl e \<Rightarrow> Inl (Bad_Argument e)
      | Inr (argv, reg, _) \<Rightarrow>
          (case argv_peek argv of
             None \<Rightarrow> Inr (reg, None)
           | Some _ \<Rightarrow>
               (case mdio_device_parse_val dev argv True of
                  Inl e \<Rightarrow> Inl (Bad_Argument e)
                | Inr (argv, val, msk) \<Rightarrow>
                    if argv_peek argv \<noteq> None then Inl Unexpected_Argument
                    else Inr (reg, Some (val, msk)))))"

definition raw_prog ::
  "mdio_device \<Rightarrow> u32 \<Rightarrow> (u32 \<times> u32) option \<Rightarrow> refusal + (mdio_prog \<times> char xfer_cb)" where
  "raw_prog dev reg wr =
     (case wr of
        Some (val, m) \<Rightarrow>
          if m \<noteq> 0 then
            (case drv_read dev reg MDIO_PROG_EMPTY of (err, prog) \<Rightarrow>
               if err \<noteq> 0 then Inl (Driver_Error err)
               else
                 let prog = mdio_prog_push prog (INSN OP_AND (REG 0) (IMM (ucast m)) (REG 0));
                     prog = mdio_prog_push prog (INSN OP_OR (REG 0) (IMM (ucast val)) (REG 0)) in
                 (case drv_write dev reg (arg32 (REG 0)) prog of (err, prog) \<Rightarrow>
                    if err \<noteq> 0 then Inl (Driver_Error err)
                    else Inr (prog, mdio_common_raw_write_cb)))
          else
            (case drv_write dev reg (arg32 (IMM (ucast val))) MDIO_PROG_EMPTY of (err, prog) \<Rightarrow>
               if err \<noteq> 0 then Inl (Driver_Error err)
               else Inr (prog, mdio_common_raw_write_cb))
      | None \<Rightarrow>
          (case drv_read dev reg MDIO_PROG_EMPTY of (err, prog) \<Rightarrow>
             if err \<noteq> 0 then Inl (Driver_Error err)
             else Inr (mdio_prog_push prog (INSN OP_EMIT (REG 0) 0 0), mdio_common_raw_read_cb)))"

definition mdio_common_raw_exec ::
  "kernel_link \<Rightarrow> mdio_device \<Rightarrow> string list \<Rightarrow> int \<times> string" where
  "mdio_common_raw_exec link dev argv =
     (case raw_args dev argv of
        Inl e \<Rightarrow> (refusal_code e, [])
      | Inr (reg, wr) \<Rightarrow>
          (case raw_prog dev reg wr of
             Inl e \<Rightarrow> (refusal_code e, [])
           | Inr (prog, cb) \<Rightarrow>
               (case mdio_xfer link (dev_bus dev) prog cb of (err, s) \<Rightarrow>
                  (if err \<noteq> 0 then 1 else 0, s))))"

section \<open>Benchmark\<close>

text \<open>The incorrect values; what is printed after them is \<open>bench_time\<close>.\<close>

definition mdio_common_bench_cb :: "char xfer_cb" where
  "mdio_common_bench_cb data err =
     (if data \<noteq> [] then
        (1, ''Read back '' @ dec (length data) @ '' incorrect values:'' @ [CHR 0x0A] @
            concat (map (\<lambda>d. CHR 0x09 # ''0x'' @ hex_pad 4 (unat d) @ [CHR 0x0A]) data))
      else (err, []))"

text \<open>
  The elapsed time, from two readings (seconds and nanoseconds) of a clock that does not go back:
  the callback prints it after the values. The commands below leave it out of the output.
\<close>

type_synonym timespec = "int \<times> int"

definition bench_elapsed :: "timespec \<Rightarrow> timespec \<Rightarrow> timespec" where
  "bench_elapsed start finish =
     (let sec = fst finish - fst start;
          nsec = snd finish - snd start in
      if nsec < 0 then (sec - 1, nsec + 1000000000) else (sec, nsec))"

definition bench_time :: "timespec \<Rightarrow> timespec \<Rightarrow> int \<Rightarrow> string" where
  "bench_time start finish err =
     (case bench_elapsed start finish of
        (sec, nsec) \<Rightarrow>
          (if err \<noteq> 0 then ''Benchmark failed after '' else ''Performed 1000 reads in '') @
          (if sec \<noteq> 0 then
             dec (nat sec) @ ''.'' @
             (if nsec div 10000000 < 10 then ''0'' else []) @ dec (nat (nsec div 10000000)) @ ''s''
           else if 1000000 < nsec then dec (nat (nsec div 1000000)) @ ''ms''
           else if 1000 < nsec then dec (nat (nsec div 1000)) @ ''us''
           else dec (nat nsec) @ ''ns'') @ [CHR 0x0A])"

definition mdio_common_bench_cb_at :: "timespec \<Rightarrow> timespec \<Rightarrow> char xfer_cb" where
  "mdio_common_bench_cb_at start finish data err =
     (case mdio_common_bench_cb data err of (err, s) \<Rightarrow> (err, s @ bench_time start finish err))"

lemma bench_elapsed:
  assumes "0 \<le> snd start" "snd start < 1000000000" "0 \<le> snd finish" "snd finish < 1000000000"
    and "fst start * 1000000000 + snd start \<le> fst finish * 1000000000 + snd finish"
    and "bench_elapsed start finish = (sec, nsec)"
  shows "0 \<le> sec" and "0 \<le> nsec" and "nsec < 1000000000"
    and "sec * 1000000000 + nsec =
           (fst finish * 1000000000 + snd finish) - (fst start * 1000000000 + snd start)"
  using assms by (auto simp: bench_elapsed_def Let_def split: if_splits)

definition bench_head ::
  "mdio_device \<Rightarrow> string list \<Rightarrow> refusal + (u32 \<times> string list \<times> mdio_prog)" where
  "bench_head dev argv =
     (case mdio_device_parse_reg dev argv False of
        Inl e \<Rightarrow> Inl (Bad_Argument e)
      | Inr (argv, reg, _) \<Rightarrow>
          (case argv_peek argv of
             Some _ \<Rightarrow>
               (case mdio_device_parse_val dev argv False of
                  Inl e \<Rightarrow> Inl (Bad_Argument e)
                | Inr (argv, val, _) \<Rightarrow>
                    let prog = mdio_prog_push MDIO_PROG_EMPTY
                                 (INSN OP_ADD (IMM (ucast val)) (IMM 0) (REG 7)) in
                    (case drv_write dev reg (arg32 (REG 7)) prog of (err, prog) \<Rightarrow>
                       if err \<noteq> 0 then Inl (Driver_Error err) else Inr (reg, argv, prog)))
           | None \<Rightarrow>
               (case drv_read dev reg MDIO_PROG_EMPTY of (err, prog) \<Rightarrow>
                  if err \<noteq> 0 then Inl (Driver_Error err)
                  else Inr (reg, argv,
                            mdio_prog_push prog (INSN OP_ADD (REG 0) (IMM 0) (REG 7))))))"

definition bench_tail :: "mdio_device \<Rightarrow> u32 \<Rightarrow> mdio_prog \<Rightarrow> refusal + mdio_prog" where
  "bench_tail dev reg prog =
     (let prog = mdio_prog_push prog (INSN OP_ADD (IMM 0) (IMM 0) (REG 6));
          loop = prog_len prog in
      case drv_read dev reg prog of (err, prog) \<Rightarrow>
        if err \<noteq> 0 then Inl (Driver_Error err)
        else
          let prog = mdio_prog_push prog (INSN OP_JEQ (REG 0) (REG 7) (IMM 1));
              prog = mdio_prog_push prog (INSN OP_EMIT (REG 0) 0 0);
              prog = mdio_prog_push prog (INSN OP_ADD (REG 6) (IMM 1) (REG 6)) in
          Inr (mdio_prog_push prog
                 (INSN OP_JNE (REG 6) (IMM 1000) (GOTO (prog_len prog) loop))))"

definition bench_prog :: "mdio_device \<Rightarrow> string list \<Rightarrow> refusal + mdio_prog" where
  "bench_prog dev argv =
     (case bench_head dev argv of
        Inl e \<Rightarrow> Inl e
      | Inr (reg, argv, prog) \<Rightarrow>
          if argv_peek argv \<noteq> None then Inl Unexpected_Argument else bench_tail dev reg prog)"

definition mdio_common_bench_exec ::
  "kernel_link \<Rightarrow> mdio_device \<Rightarrow> string list \<Rightarrow> int \<times> string" where
  "mdio_common_bench_exec link dev argv =
     (case bench_prog dev argv of
        Inl e \<Rightarrow> (refusal_code e, [])
      | Inr prog \<Rightarrow>
          (case mdio_xfer_timeout link (dev_bus dev) prog mdio_common_bench_cb 10000 of (err, s) \<Rightarrow>
             (if err \<noteq> 0 then 1 else 0, s)))"

section \<open>Dump\<close>

text \<open>
  The registers of a range, in the order the C loop \<open>for (reg = start; reg <= end; reg++)\<close> visits
  them; \<open>None\<close> when it never ends, which is the case when \<^verbatim>\<open>end\<close> is the largest
  32-bit number.
\<close>

partial_function (option) range_regs :: "u32 \<Rightarrow> u32 \<Rightarrow> u32 list option" where
  "range_regs reg end_reg =
     (if reg \<le> end_reg then Option.bind (range_regs (reg + 1) end_reg) (\<lambda>rs. Some (reg # rs))
      else Some [])"

fun dump_line :: "u32 \<times> u32 \<Rightarrow> string" where
  "dump_line (reg, v) =
     ''0x'' @ hex_pad 4 (unat reg) @ '': 0x'' @ hex_pad 4 (unat v) @ [CHR 0x0A]"

definition mdio_common_dump_cb :: "u32 list \<Rightarrow> u32 \<times> u32 \<Rightarrow> char xfer_cb" where
  "mdio_common_dump_cb rs rng data err =
     (if int (length data) \<noteq> sint (snd rng - fst rng + 1) then (1, [])
      else (err, concat (map dump_line (zip rs data))))"

fun dump_regs :: "mdio_device \<Rightarrow> u32 list \<Rightarrow> mdio_prog \<Rightarrow> int \<times> mdio_prog" where
  "dump_regs dev [] prog = (0, prog)"
| "dump_regs dev (reg # rs) prog =
     (case drv_read dev reg prog of (err, prog) \<Rightarrow>
        if err \<noteq> 0 then (err, prog)
        else dump_regs dev rs (mdio_prog_push prog (INSN OP_EMIT (REG 0) 0 0)))"

text \<open>\<open>None\<close> when the loop over the range never ends.\<close>

definition dump_prog ::
  "mdio_device \<Rightarrow> u32 \<times> u32 \<Rightarrow> (int \<times> mdio_prog \<times> u32 \<times> u32) option" where
  "dump_prog dev rng =
     (case drv_dump dev of
        Some f \<Rightarrow> f rng MDIO_PROG_EMPTY
      | None \<Rightarrow>
          map_option (\<lambda>rs. case dump_regs dev rs MDIO_PROG_EMPTY of (err, prog) \<Rightarrow>
                             (err, prog, rng))
            (range_regs (fst rng) (snd rng)))"

definition mdio_common_dump_exec_one ::
  "kernel_link \<Rightarrow> mdio_device \<Rightarrow> string list \<Rightarrow> (int \<times> string list \<times> string) option" where
  "mdio_common_dump_exec_one link dev argv =
     (case mdio_device_parse_reg dev argv True of
        Inl e \<Rightarrow> Some (err_code e, argv, [])
      | Inr (argv, start, end_reg) \<Rightarrow>
          Option.bind (dump_prog dev (start, end_reg)) (\<lambda>(err, prog, rng).
            if err \<noteq> 0 then Some (err, argv, [])
            else Option.bind (range_regs (fst rng) (snd rng)) (\<lambda>rs.
              case mdio_xfer_timeout link (dev_bus dev) prog (mdio_common_dump_cb rs rng) 10000 of
                (err, s) \<Rightarrow> Some (if err \<noteq> 0 then 1 else 0, argv, s))))"

text \<open>
  Every argument is one range. The fuel is the number of arguments: each round consumes one
  (lemma \<open>dump_one_consumes\<close>).
\<close>

fun dump_exec_from ::
  "nat \<Rightarrow> kernel_link \<Rightarrow> mdio_device \<Rightarrow> string list \<Rightarrow> (int \<times> string) option" where
  "dump_exec_from 0 link dev argv = Some (0, [])"
| "dump_exec_from (Suc n) link dev argv =
     (if argv_peek argv = None then Some (0, [])
      else Option.bind (mdio_common_dump_exec_one link dev argv) (\<lambda>(err, argv, s).
             if err \<noteq> 0 then Some (err, s)
             else map_option (\<lambda>(err, s'). (err, s @ s')) (dump_exec_from n link dev argv)))"

definition mdio_common_dump_exec ::
  "kernel_link \<Rightarrow> mdio_device \<Rightarrow> string list \<Rightarrow> (int \<times> string) option" where
  "mdio_common_dump_exec link dev argv = dump_exec_from (length argv) link dev argv"

lemma dump_one_consumes:
  assumes "mdio_common_dump_exec_one link dev argv = Some (0, argv', s)"
    and "\<And>f rest a b. drv_parse_reg dev = Some f \<Longrightarrow> f argv True = Inr (rest, a, b) \<Longrightarrow>
           length rest < length argv"
  shows "length argv' < length argv"
proof -
  obtain start end_reg where p: "mdio_device_parse_reg dev argv True = Inr (argv', start, end_reg)"
  proof (cases "mdio_device_parse_reg dev argv True")
    case (Inl e)
    then show thesis
      using assms(1) err_code_pos [of e] by (simp add: mdio_common_dump_exec_one_def)
  next
    case (Inr r)
    obtain rest start end_reg where "r = (rest, start, end_reg)" by (cases r)
    then show thesis
      using assms(1) Inr that
      by (auto simp: mdio_common_dump_exec_one_def split: prod.splits if_splits Option.bind_splits)
  qed
  show ?thesis
  proof (cases "drv_parse_reg dev")
    case None
    then show ?thesis
      using p by (cases argv) (auto simp: mdio_device_parse_reg_def mdio_device_dflt_parse_reg_def
          split: sum.splits)
  next
    case (Some f)
    then show ?thesis using p assms(2) by (simp add: mdio_device_parse_reg_def)
  qed
qed

section \<open>Choosing the command\<close>

definition mdio_common_exec ::
  "kernel_link \<Rightarrow> mdio_device \<Rightarrow> string list \<Rightarrow> (int \<times> string) option" where
  "mdio_common_exec link dev argv =
     (case argv of
        [] \<Rightarrow> Some (1, [])
      | cmd # rest \<Rightarrow>
          if cmd = ''raw'' then Some (mdio_common_raw_exec link dev rest)
          else if cmd = ''bench'' then Some (mdio_common_bench_exec link dev rest)
          else if cmd = ''dump'' then mdio_common_dump_exec link dev rest
          else Some (mdio_common_raw_exec link dev argv))"

end
