(* ===== verification/Vm_Logic.thy ===== *)
theory Vm_Logic
  imports Vm_Spec
begin

text \<open>
  A program logic for the virtual machine. A fragment \<open>c\<close> \<^emph>\<open>implements\<close> a state
  transformer when, placed anywhere in a program and entered at its first instruction, it does
  what the transformer says and leaves at its end. Rules for the code shapes that the drivers
  generate: straight-line code, sequence, forward skip, bottom-tested loop.
\<close>

section \<open>State transformers\<close>

type_synonym 'w den = "'w mst \<Rightarrow> 'w outcome option"

definition den_skip :: "'w den" where
  "den_skip s = Some (Done s)"

definition den_seq :: "'w den \<Rightarrow> 'w den \<Rightarrow> 'w den" where
  "den_seq f g s =
     (case f s of None \<Rightarrow> None | Some (Fail e t) \<Rightarrow> Some (Fail e t) | Some (Done t) \<Rightarrow> g t)"

definition den_insn :: "'w bus_api \<Rightarrow> vinsn \<Rightarrow> 'w den" where
  "den_insn B x s = Some (vm_effect B x s)"

text \<open>A bottom-tested loop: \<open>None\<close> when it never ends.\<close>

partial_function (option) den_loop :: "('w mst \<Rightarrow> bool) \<Rightarrow> 'w den \<Rightarrow> 'w den" where
  "den_loop b f s =
     Option.bind (f s)
       (\<lambda>r. case r of Fail e t \<Rightarrow> Some (Fail e t)
                    | Done t \<Rightarrow> if b t then den_loop b f t else Some (Done t))"

lemma den_seq_assoc: "den_seq (den_seq f g) h = den_seq f (den_seq g h)"
  by (rule ext) (auto simp: den_seq_def split: option.splits outcome.splits)

lemma den_seq_skip [simp]: "den_seq den_skip g = g" "den_seq f den_skip = f"
  by (rule ext, auto simp: den_seq_def den_skip_def split: option.splits outcome.splits)+

section \<open>Fragments\<close>

text \<open>
  \<open>reaches\<close>: from one configuration the machine gets to another in a fixed number of steps;
  \<open>stops\<close>: it ends in a failure.
\<close>

definition reaches ::
  "'w bus_api \<Rightarrow> vinsn list \<Rightarrow> int \<Rightarrow> 'w mst \<Rightarrow> int \<Rightarrow> 'w mst \<Rightarrow> bool" where
  "reaches B P pc s pc' t \<longleftrightarrow> (\<exists>k. \<forall>n. vm_run B P (k + n) pc s = vm_run B P n pc' t)"

definition stops :: "'w bus_api \<Rightarrow> vinsn list \<Rightarrow> int \<Rightarrow> 'w mst \<Rightarrow> int \<Rightarrow> 'w mst \<Rightarrow> bool" where
  "stops B P pc s e t \<longleftrightarrow> (\<exists>k. \<forall>n. vm_run B P (k + n) pc s = Some (Fail e t))"

definition implements :: "'w bus_api \<Rightarrow> vinsn list \<Rightarrow> 'w den \<Rightarrow> bool" where
  "implements B c f \<longleftrightarrow>
     (\<forall>pre post s.
        (\<forall>t. f s = Some (Done t) \<longrightarrow>
             reaches B (pre @ c @ post) (int (length pre)) s (int (length pre + length c)) t) \<and>
        (\<forall>e t. f s = Some (Fail e t) \<longrightarrow>
             stops B (pre @ c @ post) (int (length pre)) s e t))"

lemma reaches_refl: "reaches B P pc s pc s"
  unfolding reaches_def by (intro exI [of _ 0]) simp

lemma reaches_trans:
  assumes "reaches B P pc s pc' t" and "reaches B P pc' t pc'' u"
  shows "reaches B P pc s pc'' u"
proof -
  from assms obtain k l where
    k: "\<And>n. vm_run B P (k + n) pc s = vm_run B P n pc' t" and
    l: "\<And>n. vm_run B P (l + n) pc' t = vm_run B P n pc'' u"
    unfolding reaches_def by blast
  have "vm_run B P ((k + l) + n) pc s = vm_run B P n pc'' u" for n
    using k [of "l + n"] l [of n] by (simp add: add.assoc)
  then show ?thesis unfolding reaches_def by blast
qed

lemma reaches_stops:
  assumes "reaches B P pc s pc' t" and "stops B P pc' t e u"
  shows "stops B P pc s e u"
proof -
  from assms obtain k l where
    k: "\<And>n. vm_run B P (k + n) pc s = vm_run B P n pc' t" and
    l: "\<And>n. vm_run B P (l + n) pc' t = Some (Fail e u)"
    unfolding reaches_def stops_def by blast
  have "vm_run B P ((k + l) + n) pc s = Some (Fail e u)" for n
    using k [of "l + n"] l [of n] by (simp add: add.assoc)
  then show ?thesis unfolding stops_def by blast
qed

lemma reaches_step:
  assumes "0 \<le> pc" "pc < int (length P)" "vm_effect B (P ! nat pc) s = Done t"
    and "pc' = pc + 1 + vm_jump (P ! nat pc) s"
  shows "reaches B P pc s pc' t"
  unfolding reaches_def using assms by (intro exI [of _ 1]) simp

lemma stops_step:
  assumes "0 \<le> pc" "pc < int (length P)" "vm_effect B (P ! nat pc) s = Fail e t"
  shows "stops B P pc s e t"
  unfolding stops_def using assms by (intro exI [of _ 1]) simp

lemma implementsI:
  assumes "\<And>pre post s t. f s = Some (Done t) \<Longrightarrow>
      reaches B (pre @ c @ post) (int (length pre)) s (int (length pre + length c)) t"
    and "\<And>pre post s e t. f s = Some (Fail e t) \<Longrightarrow>
      stops B (pre @ c @ post) (int (length pre)) s e t"
  shows "implements B c f"
  using assms unfolding implements_def by blast

lemma implements_reaches:
  assumes "implements B c f" "f s = Some (Done t)" "P = pre @ c @ post" "pc = int (length pre)"
    and "pc' = pc + int (length c)"
  shows "reaches B P pc s pc' t"
  using assms unfolding implements_def by (simp only: of_nat_add)

lemma implements_stops:
  assumes "implements B c f" "f s = Some (Fail e t)" "P = pre @ c @ post" "pc = int (length pre)"
  shows "stops B P pc s e t"
  using assms unfolding implements_def by blast

section \<open>Rules\<close>

definition is_jump :: "vinsn \<Rightarrow> bool" where
  "is_jump x \<longleftrightarrow> (case x of VJEQ _ _ _ \<Rightarrow> True | VJNE _ _ _ \<Rightarrow> True | _ \<Rightarrow> False)"

lemma vm_jump_0: "\<not> is_jump x \<Longrightarrow> vm_jump x s = 0"
  by (cases x) (simp_all add: is_jump_def)

lemma implements_Nil: "implements B [] den_skip"
  by (rule implementsI) (auto simp: den_skip_def reaches_refl)

lemma implements_insn: "\<not> is_jump x \<Longrightarrow> implements B [x] (den_insn B x)"
  by (rule implementsI)
     (auto simp: den_insn_def nth_append vm_jump_0 intro!: reaches_step stops_step)

lemma implements_seq:
  assumes "implements B c f" and "implements B d g"
  shows "implements B (c @ d) (den_seq f g)"
proof (rule implementsI)
  fix pre post s t
  assume "den_seq f g s = Some (Done t)"
  then obtain u where f: "f s = Some (Done u)" and g: "g u = Some (Done t)"
    by (auto simp: den_seq_def split: option.splits outcome.splits)
  have "reaches B (pre @ (c @ d) @ post) (int (length pre)) s (int (length (pre @ c))) u"
    by (rule implements_reaches [OF assms(1) f, of _ pre "d @ post"]) simp_all
  moreover have "reaches B (pre @ (c @ d) @ post) (int (length (pre @ c))) u
      (int (length pre + length (c @ d))) t"
    by (rule implements_reaches [OF assms(2) g, of _ "pre @ c" post]) simp_all
  ultimately show "reaches B (pre @ (c @ d) @ post) (int (length pre)) s
      (int (length pre + length (c @ d))) t"
    by (rule reaches_trans)
next
  fix pre post s e t
  assume "den_seq f g s = Some (Fail e t)"
  then consider "f s = Some (Fail e t)"
    | u where "f s = Some (Done u)" and "g u = Some (Fail e t)"
    by (auto simp: den_seq_def split: option.splits outcome.splits)
  then show "stops B (pre @ (c @ d) @ post) (int (length pre)) s e t"
  proof cases
    case 1
    show ?thesis by (rule implements_stops [OF assms(1) 1, of _ pre "d @ post"]) simp_all
  next
    case 2
    have "reaches B (pre @ (c @ d) @ post) (int (length pre)) s (int (length (pre @ c))) u"
      by (rule implements_reaches [OF assms(1) 2(1), of _ pre "d @ post"]) simp_all
    moreover have "stops B (pre @ (c @ d) @ post) (int (length (pre @ c))) u e t"
      by (rule implements_stops [OF assms(2) 2(2), of _ "pre @ c" post]) simp_all
    ultimately show ?thesis by (rule reaches_stops)
  qed
qed

lemma implements_Cons:
  "\<not> is_jump x \<Longrightarrow> implements B c f \<Longrightarrow> implements B (x # c) (den_seq (den_insn B x) f)"
  using implements_seq [OF implements_insn] by fastforce

text \<open>Jumps change nothing but the program counter.\<close>

lemma vm_effect_jump: "is_jump x \<Longrightarrow> vm_effect B x s = Done s"
  by (cases x) (simp_all add: is_jump_def)

lemma implements_skip:
  assumes c: "implements B c f" and x: "is_jump x"
    and j: "\<And>s. vm_jump x s = (if b s then int (length c) else 0)"
  shows "implements B (x # c) (\<lambda>s. if b s then Some (Done s) else f s)"
proof (rule implementsI)
  fix pre post s t
  let ?P = "pre @ (x # c) @ post"
  assume f: "(if b s then Some (Done s) else f s) = Some (Done t)"
  have step: "reaches B ?P (int (length pre)) s (int (length pre) + 1 + vm_jump x s) s"
    by (rule reaches_step) (simp_all add: x vm_effect_jump)
  show "reaches B ?P (int (length pre)) s (int (length pre + length (x # c))) t"
  proof (cases "b s")
    case True
    with f step j show ?thesis by (simp add: algebra_simps)
  next
    case False
    then have "reaches B ?P (int (length pre) + 1) s (int (length pre + length (x # c))) t"
      using f by (intro implements_reaches [OF c, of s t _ "pre @ [x]" post]) simp_all
    with step False j show ?thesis by (auto intro: reaches_trans)
  qed
next
  fix pre post s e t
  let ?P = "pre @ (x # c) @ post"
  assume f: "(if b s then Some (Done s) else f s) = Some (Fail e t)"
  then have "\<not> b s" by auto
  have "reaches B ?P (int (length pre)) s (int (length pre) + 1 + vm_jump x s) s"
    by (rule reaches_step) (simp_all add: x vm_effect_jump)
  moreover have "stops B ?P (int (length pre) + 1) s e t"
    using f \<open>\<not> b s\<close> by (intro implements_stops [OF c, of s e t _ "pre @ [x]" post]) simp_all
  ultimately show "stops B ?P (int (length pre)) s e t"
    using j \<open>\<not> b s\<close> by (auto intro: reaches_stops)
qed

lemma den_loop_induct [consumes 1, case_names fails leaves repeats]:
  assumes "den_loop b f s = Some r"
    and "\<And>s e t. f s = Some (Fail e t) \<Longrightarrow> Q s (Fail e t)"
    and "\<And>s t. f s = Some (Done t) \<Longrightarrow> \<not> b t \<Longrightarrow> Q s (Done t)"
    and "\<And>s t r. f s = Some (Done t) \<Longrightarrow> b t \<Longrightarrow> den_loop b f t = Some r \<Longrightarrow> Q t r \<Longrightarrow> Q s r"
  shows "Q s r"
proof -
  let ?Q = "\<lambda>b' f' s r. b' = b \<longrightarrow> f' = f \<longrightarrow> den_loop b f s = Some r \<and> Q s r"
  have "?Q b f s r"
  proof (rule den_loop.raw_induct [where P = ?Q, OF _ assms(1)])
    fix L b' f' s r
    assume IH: "\<And>b' f' s r. L b' f' s = Some r \<Longrightarrow> ?Q b' f' s r"
      and eq: "Option.bind (f' s) (\<lambda>r. case r of Fail e t \<Rightarrow> Some (Fail e t)
          | Done t \<Rightarrow> if b' t then L b' f' t else Some (Done t)) = Some r"
    show "?Q b' f' s r"
      using eq assms(2-4) IH
      by (subst den_loop.simps)
         (fastforce split: Option.bind_splits outcome.splits if_splits)
  qed
  then show ?thesis by simp
qed

lemma implements_loop:
  assumes c: "implements B c f" and x: "is_jump x"
    and j: "\<And>s. vm_jump x s = (if b s then - int (length c + 1) else 0)"
  shows "implements B (c @ [x]) (den_loop b f)"
proof -
  have nth: "(pre @ (c @ [x]) @ post) ! nat (int (length (pre @ c))) = x" for pre post
    by (simp only: nat_int) (metis append.assoc append_Cons append_Nil nth_append_length)
  have step: "reaches B (pre @ (c @ [x]) @ post) (int (length (pre @ c))) s
      (int (length (pre @ c)) + 1 + vm_jump x s) s" for pre post s
    by (rule reaches_step) (simp_all only: nth vm_effect_jump [OF x], simp_all)
  have body: "reaches B (pre @ (c @ [x]) @ post) (int (length pre)) s (int (length (pre @ c))) t"
    if "f s = Some (Done t)" for pre post s t
    using that by (intro implements_reaches [OF c, of s t _ pre "x # post"]) simp_all
  have again: "reaches B (pre @ (c @ [x]) @ post) (int (length pre)) s (int (length pre)) t"
    if "f s = Some (Done t)" and "b t" for pre post s t
    using reaches_trans [OF body [OF that(1)] step [of pre post t]] that(2)
    by (simp add: j algebra_simps)
  have leave: "reaches B (pre @ (c @ [x]) @ post) (int (length pre)) s
      (int (length pre + length (c @ [x]))) t"
    if "f s = Some (Done t)" and "\<not> b t" for pre post s t
    using reaches_trans [OF body [OF that(1)] step [of pre post t]] that(2)
    by (simp add: j algebra_simps)
  have "(\<forall>t. r = Done t \<longrightarrow> reaches B (pre @ (c @ [x]) @ post) (int (length pre)) s
            (int (length pre + length (c @ [x]))) t) \<and>
        (\<forall>e t. r = Fail e t \<longrightarrow> stops B (pre @ (c @ [x]) @ post) (int (length pre)) s e t)"
    if "den_loop b f s = Some r" for pre post s r
    using that
  proof (induction rule: den_loop_induct)
    case (fails s e t)
    then show ?case
      using implements_stops [OF c, of s e t _ pre "x # post"] by simp
  next
    case (leaves s t)
    then show ?case using leave by simp
  next
    case (repeats s t r)
    then show ?case using again [of s t pre post] by (blast intro: reaches_trans reaches_stops)
  qed
  then show ?thesis by (intro implementsI) blast+
qed

section \<open>Whole programs\<close>

lemma implements_run:
  assumes "implements B P f" and "f s = Some r"
  shows "\<exists>n. vm_run B P n 0 s = Some r"
proof (cases r)
  case (Done t)
  with assms have "reaches B P 0 s (int (length P)) t"
    using implements_reaches [of B P f s t P "[]" "[]" 0 "int (length P)"] by simp
  then obtain k where "\<And>n. vm_run B P (k + n) 0 s = vm_run B P n (int (length P)) t"
    unfolding reaches_def by blast
  moreover have "vm_run B P 1 (int (length P)) t = Some (Done t)" by simp
  ultimately show ?thesis unfolding Done by metis
next
  case (Fail e t)
  with assms have "stops B P 0 s e t"
    using implements_stops [of B P f s e t P "[]" "[]" 0] by simp
  then show ?thesis using Fail unfolding stops_def by blast
qed

end
