(* ===== verification/Bus_Monad.thy ===== *)
theory Bus_Monad
  imports Vm_Logic
begin

text \<open>
  The language in which the effects of generated programs are specified: sequences of bus reads
  and writes and of values sent to the client, with the failure of the bus and polling loops
  that may never end. It has no registers and no program counter. \<open>performs\<close> says that a
  program, placed anywhere, does what such a specification says; its rules follow the shapes
  of code that the drivers of \<^verbatim>\<open>src/mdio\<close> generate.
\<close>

section \<open>Specifications\<close>

text \<open>The state is the bus and the values sent so far; \<open>Inl e\<close> is an error of the bus.\<close>

type_synonym ('w, 'a) bm = "'w \<times> u32 list \<Rightarrow> ((int + 'a) \<times> 'w \<times> u32 list) option"

definition bret :: "'a \<Rightarrow> ('w, 'a) bm" where
  "bret a s = Some (Inr a, s)"

definition bbind :: "('w, 'a) bm \<Rightarrow> ('a \<Rightarrow> ('w, 'b) bm) \<Rightarrow> ('w, 'b) bm" where
  "bbind m f s =
     Option.bind (m s) (\<lambda>(r, t). case r of Inl e \<Rightarrow> Some (Inl e, t) | Inr a \<Rightarrow> f a t)"

definition bmap :: "('a \<Rightarrow> 'b) \<Rightarrow> ('w, 'a) bm \<Rightarrow> ('w, 'b) bm" where
  "bmap h m = bbind m (\<lambda>a. bret (h a))"

definition brd :: "'w bus_api \<Rightarrow> u16 \<Rightarrow> u16 \<Rightarrow> ('w, u16) bm" where
  "brd B dev reg s =
     (case bus_read B dev reg (fst s) of (ret, w) \<Rightarrow>
        Some (if ret < 0 then Inl ret else Inr (word_of_int ret), w, snd s))"

definition bwr :: "'w bus_api \<Rightarrow> u16 \<Rightarrow> u16 \<Rightarrow> u16 \<Rightarrow> ('w, unit) bm" where
  "bwr B dev reg v s =
     (case bus_write B dev reg v (fst s) of (ret, w) \<Rightarrow>
        Some (if ret < 0 then Inl ret else Inr (), w, snd s))"

definition bemit :: "u16 \<Rightarrow> ('w, unit) bm" where
  "bemit v s = Some (Inr (), fst s, snd s @ [ucast v])"

text \<open>A bottom-tested loop, \<open>None\<close> when it never ends.\<close>

partial_function (option) bloop_from ::
  "('x \<Rightarrow> bool) \<Rightarrow> ('x \<Rightarrow> ('w, 'x) bm) \<Rightarrow> 'x \<times> 'w \<times> u32 list \<Rightarrow>
   ((int + 'x) \<times> 'w \<times> u32 list) option" where
  "bloop_from b m xs =
     Option.bind (m (fst xs) (snd xs))
       (\<lambda>(r, t). case r of Inl e \<Rightarrow> Some (Inl e, t)
                         | Inr y \<Rightarrow> if b y then bloop_from b m (y, t) else Some (Inr y, t))"

definition bloop :: "('x \<Rightarrow> bool) \<Rightarrow> ('x \<Rightarrow> ('w, 'x) bm) \<Rightarrow> 'x \<Rightarrow> ('w, 'x) bm" where
  "bloop b m x s = bloop_from b m (x, s)"

lemma bloop_unfold:
  "bloop b m x = bbind (m x) (\<lambda>y. if b y then bloop b m y else bret y)"
  by (rule ext, unfold bloop_def, subst bloop_from.simps)
     (auto simp: bbind_def bloop_def bret_def split: Option.bind_split sum.splits)

text \<open>Running a specification for every element of a list.\<close>

primrec bfor :: "('a \<Rightarrow> ('w, unit) bm) \<Rightarrow> 'a list \<Rightarrow> ('w, unit) bm" where
  "bfor m [] = bret ()"
| "bfor m (x # xs) = bbind (m x) (\<lambda>_. bfor m xs)"

lemma bbind_bret [simp]: "bbind (bret a) f = f a" "bbind m bret = m"
  by (rule ext, auto simp: bbind_def bret_def split: Option.bind_splits sum.splits)+

lemma bbind_assoc: "bbind (bbind m f) g = bbind m (\<lambda>a. bbind (f a) g)"
  by (rule ext) (auto simp: bbind_def split: Option.bind_splits sum.splits)

lemma bmap_id [simp]: "bmap (\<lambda>a. a) m = m"
  by (simp add: bmap_def)

lemma bmap_bbind: "bmap h (bbind m f) = bbind m (\<lambda>a. bmap h (f a))"
  by (simp add: bmap_def bbind_assoc)

lemma bmap_bmap [simp]: "bmap h (bmap g m) = bmap (\<lambda>a. h (g a)) m"
  by (simp add: bmap_def bbind_assoc)

lemma bmap_bret [simp]: "bmap h (bret a) = bret (h a)"
  by (simp add: bmap_def)

lemma bmap_unit [simp]: "bmap (\<lambda>_. ()) m = (m :: ('w, unit) bm)"
  using bmap_id [of m] by simp

lemma bfor_append: "bfor m (xs @ ys) = bbind (bfor m xs) (\<lambda>_. bfor m ys)"
  by (induction xs) (simp_all add: bbind_assoc)

lemma bbind_bmap: "bbind (bmap h m) f = bbind m (\<lambda>a. f (h a))"
  by (simp add: bmap_def bbind_assoc)

lemma bmap_if: "bmap h (if b then m else n) = (if b then bmap h m else bmap h n)"
  by simp

section \<open>Programs that perform a specification\<close>

type_synonym regfile = "nat \<Rightarrow> u16"

fun opv :: "operand \<Rightarrow> regfile \<Rightarrow> u16" where
  "opv (Reg k) r = r k"
| "opv (Imm n) r = n"

lemma opval_opv: "opval s a = opv a (regs s)"
  by (cases a) simp_all

definition matches ::
  "('y \<Rightarrow> regfile \<Rightarrow> bool) \<Rightarrow> ((int + 'y) \<times> 'w \<times> u32 list) option \<Rightarrow> 'w outcome option \<Rightarrow> bool" where
  "matches Q m f =
     (case m of
        None \<Rightarrow> True
      | Some (Inl e, w, o') \<Rightarrow> \<exists>t. f = Some (Fail e t) \<and> bus t = w \<and> out t = o'
      | Some (Inr y, w, o') \<Rightarrow> \<exists>t. f = Some (Done t) \<and> bus t = w \<and> out t = o' \<and> Q y (regs t))"

text \<open>
  \<open>P\<close> relates the argument of the specification to the registers before, \<open>Q\<close> its result to the
  registers after the program.
\<close>

definition performs ::
  "'w bus_api \<Rightarrow> mdio_prog \<Rightarrow> ('x \<Rightarrow> regfile \<Rightarrow> bool) \<Rightarrow> ('x \<Rightarrow> ('w, 'y) bm) \<Rightarrow>
   ('y \<Rightarrow> regfile \<Rightarrow> bool) \<Rightarrow> bool" where
  "performs B c P m Q \<longleftrightarrow>
     (\<exists>V f. decode_prog c = Some V \<and> implements B V f \<and>
        (\<forall>x s. P x (regs s) \<longrightarrow> matches Q (m x (bus s, out s)) (f s)))"

lemma performsI:
  assumes "decode_prog c = Some V" and "implements B V f"
    and "\<And>x s. P x (regs s) \<Longrightarrow> matches Q (m x (bus s, out s)) (f s)"
  shows "performs B c P m Q"
  using assms unfolding performs_def by blast

lemma performsE:
  assumes "performs B c P m Q"
  obtains V f where "decode_prog c = Some V" "implements B V f"
    "\<And>x s. P x (regs s) \<Longrightarrow> matches Q (m x (bus s, out s)) (f s)"
  using assms unfolding performs_def by blast

subsection \<open>Consequence and sequence\<close>

lemma matches_bmap:
  assumes "matches Q (m s) o'" and "\<And>y r. Q y r \<Longrightarrow> Q' (h y) r"
  shows "matches Q' (bmap h m s) o'"
  using assms
  by (cases "m s") (auto simp: matches_def bmap_def bbind_def bret_def split: sum.splits)

lemma performs_conseq:
  fixes B :: "'w bus_api"
  assumes "performs B c P m Q"
    and "\<And>x r. P' x r \<Longrightarrow> \<exists>z h. P z r \<and> m' x = bmap h (m z) \<and> (\<forall>y r'. Q y r' \<longrightarrow> Q' (h y) r')"
  shows "performs B c P' m' Q'"
proof -
  obtain V f where V: "decode_prog c = Some V" "implements B V f"
    and f: "\<And>x s. P x (regs s) \<Longrightarrow> matches Q (m x (bus s, out s)) (f s)"
    using assms(1) by (rule performsE) (rule that)
  show ?thesis
  proof (rule performsI [OF V])
    fix x and s :: "'w mst"
    assume "P' x (regs s)"
    then obtain z h where z: "P z (regs s)" "m' x = bmap h (m z)"
        "\<forall>y r'. Q y r' \<longrightarrow> Q' (h y) r'"
      using assms(2) by blast
    show "matches Q' (m' x (bus s, out s)) (f s)"
      unfolding z(2) by (rule matches_bmap [where m = "m z", OF f [OF z(1)]]) (use z(3) in blast)
  qed
qed

lemma performs_weaken:
  assumes "performs B c P m Q" and "\<And>x r. P' x r \<Longrightarrow> P x r \<and> m' x = m x"
    and "\<And>y r. Q y r \<Longrightarrow> Q' y r"
  shows "performs B c P' m' Q'"
  by (rule performs_conseq [OF assms(1)])
     (use assms(2,3) in \<open>metis bmap_id\<close>)

lemma performs_seq:
  fixes B :: "'w bus_api"
  assumes "performs B c P m Q" and "performs B d Q n R"
  shows "performs B (c @ d) P (\<lambda>x. bbind (m x) n) R"
proof -
  obtain V f where V: "decode_prog c = Some V" "implements B V f"
    and f: "\<And>x s. P x (regs s) \<Longrightarrow> matches Q (m x (bus s, out s)) (f s)"
    using assms(1) by (rule performsE) (rule that)
  obtain W g where W: "decode_prog d = Some W" "implements B W g"
    and g: "\<And>x s. Q x (regs s) \<Longrightarrow> matches R (n x (bus s, out s)) (g s)"
    using assms(2) by (rule performsE) (rule that)
  show ?thesis
  proof (rule performsI)
    show "decode_prog (c @ d) = Some (V @ W)" by (simp add: decode_prog_append V W)
    show "implements B (V @ W) (den_seq f g)" by (rule implements_seq [OF V(2) W(2)])
    fix x and s :: "'w mst"
    assume "P x (regs s)"
    from f [OF this] show "matches R (bbind (m x) n (bus s, out s)) (den_seq f g s)"
    proof (cases "m x (bus s, out s)")
      case (Some rt)
      obtain r w o' where rt: "rt = (r, w, o')" by (metis prod.collapse)
      show ?thesis
      proof (cases r)
        case (Inl e)
        then show ?thesis
          using f [OF \<open>P x (regs s)\<close>] Some rt by (auto simp: matches_def bbind_def den_seq_def)
      next
        case (Inr y)
        then obtain t where t: "f s = Some (Done t)" "bus t = w" "out t = o'" "Q y (regs t)"
          using f [OF \<open>P x (regs s)\<close>] Some rt by (auto simp: matches_def)
        then show ?thesis
          using g [OF t(4)] Some rt Inr by (auto simp: bbind_def den_seq_def)
      qed
    qed (simp add: matches_def bbind_def)
  qed
qed

lemma performs_Nil: "(\<And>x r. P x r \<Longrightarrow> Q (h x) r) \<Longrightarrow> performs B [] P (\<lambda>x. bret (h x)) Q"
  by (rule performsI [of _ "[]" _ den_skip])
     (simp_all add: insn_simps implements_Nil matches_def bret_def den_skip_def)

end
