(* ===== verification/Prog_Logic.thy ===== *)
theory Prog_Logic
  imports Bus_Monad
begin

text \<open>
  The rules of \<open>performs\<close> for single instructions, forward skips and bottom-tested loops, on
  encoded instructions as the drivers push them.
\<close>

section \<open>Instructions\<close>

lemma performs_one:
  assumes "decode i = Some v" and "\<not> is_jump v"
    and "\<And>x s. P x (regs s) \<Longrightarrow> matches Q (m x (bus s, out s)) (Some (vm_effect B v s))"
  shows "performs B [i] P m Q"
  by (rule performsI [of _ "[v]" _ "den_insn B v"])
     (use assms in \<open>simp_all add: insn_simps implements_insn den_insn_def\<close>)

lemma performs_read:
  assumes "decode i = Some (VREAD a b k)"
    and "\<And>x r. P x r \<Longrightarrow> opv a r = dv x \<and> opv b r = rg x \<and> (\<forall>v. Q (h x v) (r(k := v)))"
  shows "performs B [i] P (\<lambda>x. bmap (h x) (brd B (dv x) (rg x))) Q"
  by (rule performs_one [OF assms(1)])
     (use assms(2) in \<open>fastforce simp: is_jump_def matches_def bmap_def bbind_def bret_def brd_def
        opval_opv set_reg_def split: prod.split\<close>)+

lemma performs_write:
  assumes "decode i = Some (VWRITE a b c)"
    and "\<And>x r. P x r \<Longrightarrow> opv a r = dv x \<and> opv b r = rg x \<and> opv c r = vl x \<and> Q (h x) r"
  shows "performs B [i] P (\<lambda>x. bmap (\<lambda>_. h x) (bwr B (dv x) (rg x) (vl x))) Q"
  by (rule performs_one [OF assms(1)])
     (use assms(2) in \<open>fastforce simp: is_jump_def matches_def bmap_def bbind_def bret_def bwr_def
        opval_opv split: prod.split\<close>)+

lemma performs_emit:
  assumes "decode i = Some (VEMIT a)"
    and "\<And>x r. P x r \<Longrightarrow> opv a r = vl x \<and> Q (h x) r"
  shows "performs B [i] P (\<lambda>x. bmap (\<lambda>_. h x) (bemit (vl x))) Q"
  by (rule performs_one [OF assms(1)])
     (use assms(2) in \<open>auto simp: is_jump_def matches_def bmap_def bbind_def bret_def bemit_def
        opval_opv\<close>)

text \<open>An arithmetic instruction has no effect that the specification sees.\<close>

lemma performs_alu:
  assumes "decode i = Some v"
    and "v \<in> {VAND a b k, VOR a b k, VADD a b k}"
    and "\<And>x r. P x r \<Longrightarrow> Q (h x) (r(k := (case v of VAND _ _ _ \<Rightarrow> opv a r AND opv b r
        | VOR _ _ _ \<Rightarrow> opv a r OR opv b r | _ \<Rightarrow> opv a r + opv b r)))"
  shows "performs B [i] P (\<lambda>x. bret (h x)) Q"
  by (rule performs_one [OF assms(1)])
     (use assms(2,3) in \<open>auto simp: is_jump_def matches_def bret_def opval_opv set_reg_def\<close>)

lemmas performs_and = performs_alu [where v = "VAND a b k" and a = a and b = b and k = k for a b k, simplified]
lemmas performs_or = performs_alu [where v = "VOR a b k" and a = a and b = b and k = k for a b k, simplified]
lemmas performs_add = performs_alu [where v = "VADD a b k" and a = a and b = b and k = k for a b k, simplified]

section \<open>Jumps\<close>

lemma sint_jump: "(sint (word_of_int j :: u16)) = j" if "- 32768 \<le> j" "j < 32768"
  using that by (simp add: sint_sbintrunc' signed_take_bit_int_eq_self)

lemma performs_skip:
  fixes B :: "'w bus_api"
  assumes c: "performs B c P' m Q"
    and i: "decode i = Some v" and v: "v = VJEQ a b j \<and> t = True \<or> v = VJNE a b j \<and> t = False"
    and j: "sint j = int (length c)"
    and P: "\<And>x r. P x r \<Longrightarrow> (opv a r = opv b r) = (e x = t) \<and> (e x \<longrightarrow> Q (h x) r) \<and> (\<not> e x \<longrightarrow> P' x r)"
  shows "performs B (i # c) P (\<lambda>x. if e x then bret (h x) else m x) Q"
proof -
  obtain V f where V: "decode_prog c = Some V" "implements B V f"
    and f: "\<And>x s. P' x (regs s) \<Longrightarrow> matches Q (m x (bus s, out s)) (f s)"
    using c by (rule performsE) (rule that)
  have len: "length V = length c" by (rule decode_prog_length [OF V(1)])
  have jmp: "vm_jump v s = (if (opval s a = opval s b) = t then int (length V) else 0)" for s :: "'w mst"
    using v j len by auto
  show ?thesis
  proof (rule performsI [of _ "v # V" _ "\<lambda>s. if (opval s a = opval s b) = t then Some (Done s) else f s"])
    show "decode_prog (i # c) = Some (v # V)" by (simp add: insn_simps i V)
    show "implements B (v # V) (\<lambda>s. if (opval s a = opval s b) = t then Some (Done s) else f s)"
      using v by (intro implements_skip [OF V(2) _ jmp]) (auto simp: is_jump_def)
    fix x and s :: "'w mst"
    assume "P x (regs s)"
    with P [OF this] f v
    show "matches Q ((if e x then bret (h x) else m x) (bus s, out s))
        (if (opval s a = opval s b) = t then Some (Done s) else f s)"
      by (auto simp: matches_def bret_def opval_opv)
  qed
qed

lemma bloop_induct [consumes 1, case_names fails leaves repeats]:
  assumes "bloop b m x s = Some r"
    and "\<And>x s e t. m x s = Some (Inl e, t) \<Longrightarrow> R x s (Inl e, t)"
    and "\<And>x s y t. m x s = Some (Inr y, t) \<Longrightarrow> \<not> b y \<Longrightarrow> R x s (Inr y, t)"
    and "\<And>x s y t r. m x s = Some (Inr y, t) \<Longrightarrow> b y \<Longrightarrow> bloop b m y t = Some r \<Longrightarrow> R y t r \<Longrightarrow> R x s r"
  shows "R x s r"
proof -
  let ?Q = "\<lambda>b' m' xs r. b' = b \<longrightarrow> m' = m \<longrightarrow> bloop_from b m xs = Some r \<and> R (fst xs) (snd xs) r"
  have "?Q b m (x, s) r"
  proof (rule bloop_from.raw_induct [where P = ?Q, OF _ assms(1) [unfolded bloop_def]])
    fix L b' m' xs r
    assume IH: "\<And>b' m' xs r. L b' m' xs = Some r \<Longrightarrow> ?Q b' m' xs r"
      and eq: "Option.bind (m' (fst xs) (snd xs)) (\<lambda>(r, t). case r of Inl e \<Rightarrow> Some (Inl e, t)
          | Inr y \<Rightarrow> if b' y then L b' m' (y, t) else Some (Inr y, t)) = Some r"
    show "?Q b' m' xs r"
    proof (intro impI)
      assume [simp]: "b' = b" "m' = m"
      show "bloop_from b m xs = Some r \<and> R (fst xs) (snd xs) r"
      proof (cases "m (fst xs) (snd xs)")
        case (Some rt)
        obtain q t where rt: "rt = (q, t)" by (rule prod.exhaust)
        show ?thesis
        proof (cases q)
          case (Inl e)
          with eq Some rt have "r = (Inl e, t)" by simp
          with Inl Some rt assms(2) show ?thesis by (subst bloop_from.simps) simp
        next
          case (Inr y)
          show ?thesis
          proof (cases "b y")
            case True
            with eq Some rt Inr have "L b' m' (y, t) = Some r" by simp
            from IH [OF this] have "bloop_from b m (y, t) = Some r" "R y t r" by simp_all
            with True Inr Some rt assms(4) [of "fst xs" "snd xs" y t r] show ?thesis
              by (subst bloop_from.simps) (simp add: bloop_def)
          next
            case False
            with eq Some rt Inr have "r = (Inr y, t)" by simp
            with False Inr Some rt assms(3) show ?thesis by (subst bloop_from.simps) simp
          qed
        qed
      qed (use eq in simp)
    qed
  qed
  then show ?thesis by simp
qed

lemma performs_loop:
  fixes B :: "'w bus_api"
  assumes c: "performs B c A m A"
    and i: "decode i = Some v" and v: "v = VJEQ a b j \<and> t = True \<or> v = VJNE a b j \<and> t = False"
    and j: "sint j = - int (length c + 1)"
    and A: "\<And>x r. A x r \<Longrightarrow> (opv a r = opv b r) = (e x = t)"
  shows "performs B (c @ [i]) A (bloop e m) A"
proof -
  obtain V f where V: "decode_prog c = Some V" "implements B V f"
    and f: "\<And>x s. A x (regs s) \<Longrightarrow> matches A (m x (bus s, out s)) (f s)"
    using c by (rule performsE) (rule that)
  have len: "length V = length c" by (rule decode_prog_length [OF V(1)])
  let ?again = "\<lambda>s :: 'w mst. (opval s a = opval s b) = t"
  have jmp: "vm_jump v s = (if ?again s then - int (length V + 1) else 0)" for s :: "'w mst"
    using v j len by auto
  have e: "?again s = e x" if "A x (regs s)" for x and s :: "'w mst"
    using A [OF that] by (auto simp: opval_opv)
  show ?thesis
  proof (rule performsI [of _ "V @ [v]" _ "den_loop ?again f"])
    show "decode_prog (c @ [i]) = Some (V @ [v])" by (simp add: decode_prog_append insn_simps i V)
    show "implements B (V @ [v]) (den_loop ?again f)"
      using v by (intro implements_loop [OF V(2) _ jmp]) (auto simp: is_jump_def)
    have "\<forall>s. bus s = fst bo \<longrightarrow> out s = snd bo \<longrightarrow> A x (regs s) \<longrightarrow> matches A (Some r) (den_loop ?again f s)"
      if "bloop e m x bo = Some r" for x bo r
      using that
    proof (induction rule: bloop_induct)
      case (fails x bo er t)
      then show ?case
        using f by (subst den_loop.simps) (fastforce simp: matches_def)
    next
      case (leaves x bo y t)
      then show ?case
        using f e by (subst den_loop.simps) (fastforce simp: matches_def)
    next
      case (repeats x bo y t r)
      show ?case
      proof (intro allI impI)
        fix s :: "'w mst"
        assume s: "bus s = fst bo" "out s = snd bo" "A x (regs s)"
        with f [OF s(3)] repeats(1) obtain u where
          u: "f s = Some (Done u)" "bus u = fst t" "out u = snd t" "A y (regs u)"
          by (cases t) (auto simp: matches_def)
        with repeats have "matches A (Some r) (den_loop ?again f u)" by blast
        moreover have "den_loop ?again f s = den_loop ?again f u"
          using u e [OF u(4)] repeats(2) by (subst den_loop.simps) simp
        ultimately show "matches A (Some r) (den_loop ?again f s)" by simp
      qed
    qed
    then show "matches A (bloop e m x (bus s, out s)) (den_loop ?again f s)"
      if "A x (regs s)" for x and s :: "'w mst"
      using that by (cases "bloop e m x (bus s, out s)") (simp add: matches_def, force)
  qed
qed

section \<open>Polling\<close>

lemma bloop_map:
  assumes "\<And>x. m' (h x) = bmap h (m x)" and "\<And>x. b' (h x) = b x"
  shows "bloop b' m' (h x) = bmap h (bloop b m x)"
proof (rule ext)
  fix s
  have 1: "bmap h (bloop b m x) s = Some r" if "bloop b' m' y s = Some r" "y = h x" for y r
    using that
  proof (induction arbitrary: x rule: bloop_induct)
    case (fails y s e t)
    then show ?case using assms(1) [of x]
      by (subst bloop_unfold) (auto simp: bmap_def bbind_def bret_def split: Option.bind_splits sum.splits)
  next
    case (leaves y s z t)
    then obtain u where "m x s = Some (Inr u, t)" "z = h u"
      using assms(1) [of x]
      by (auto simp: bmap_def bbind_def bret_def split: Option.bind_splits sum.splits)
    then show ?case using leaves(2) assms(2)
      by (subst bloop_unfold) (simp add: bmap_def bbind_def bret_def)
  next
    case (repeats y s z t r)
    then obtain u where "m x s = Some (Inr u, t)" "z = h u"
      using assms(1) [of x]
      by (auto simp: bmap_def bbind_def bret_def split: Option.bind_splits sum.splits)
    then show ?case using repeats(2) repeats.IH [of u] assms(2)
      by (subst bloop_unfold) (simp add: bmap_def bbind_def)
  qed
  have 2: "bloop b' m' (h x) s = bmap h (\<lambda>s. Some r) s" if "bloop b m x s = Some r" for r
    using that
  proof (induction rule: bloop_induct)
    case (fails x s e t)
    then show ?case using assms(1) [of x]
      by (subst bloop_unfold) (simp add: bmap_def bbind_def bret_def)
  next
    case (leaves x s z t)
    then show ?case using assms
      by (subst bloop_unfold) (simp add: bmap_def bbind_def bret_def)
  next
    case (repeats x s z t r)
    then show ?case using assms
      by (subst bloop_unfold) (simp add: bmap_def bbind_def bret_def)
  qed
  show "bloop b' m' (h x) s = bmap h (bloop b m x) s"
  proof (cases "bloop b m x s")
    case None
    then have "bmap h (bloop b m x) s = None" by (simp add: bmap_def bbind_def)
    with 1 [of "h x"] show ?thesis by (cases "bloop b' m' (h x) s") auto
  next
    case (Some r)
    then show ?thesis using 2 [OF Some] by (simp add: bmap_def bbind_def)
  qed
qed

text \<open>Read until a masked value is something else: a busy bit.\<close>

definition poll :: "u16 \<Rightarrow> ('w, u16) bm \<Rightarrow> ('w, unit) bm" where
  "poll busy m = bmap (\<lambda>_. ()) (bloop (\<lambda>v. v = busy) (\<lambda>_. bmap (\<lambda>v. v AND busy) m) 0)"

lemma poll_unfold:
  "poll busy m = bbind m (\<lambda>v. if v AND busy = busy then poll busy m else bret ())"
proof -
  have start: "bloop (\<lambda>v. v = busy) (\<lambda>_. n) x = bloop (\<lambda>v. v = busy) (\<lambda>_. n) 0" for n :: "('w, u16) bm" and x
    by (subst (1 2) bloop_unfold) simp
  show ?thesis
    unfolding poll_def
    by (subst bloop_unfold)
       (simp add: bbind_bmap bmap_bbind start [of _ busy] if_distrib [of "bmap _"] cong: if_cong)
qed

definition with_r0 :: "('x \<Rightarrow> regfile \<Rightarrow> bool) \<Rightarrow> u16 \<times> 'x \<Rightarrow> regfile \<Rightarrow> bool" where
  "with_r0 P vx r \<longleftrightarrow> r 0 = fst vx \<and> P (snd vx) r"

definition poll_code :: "mdio_prog \<Rightarrow> u16 \<Rightarrow> mdio_prog" where
  "poll_code c busy =
     c @ [INSN OP_AND (REG 0) (IMM busy) (REG 0),
          INSN OP_JEQ (REG 0) (IMM busy) (IMM (word_of_int (- int (length c) - 2)))]"

lemma performs_poll:
  assumes P: "\<And>x r v. P x r \<Longrightarrow> P x (r(0 := v))"
    and c: "performs B c P (\<lambda>x. bmap (\<lambda>v. (v, x)) m) (with_r0 P)" and len: "length c \<le> 1000"
  shows "performs B (poll_code c busy) P (\<lambda>x. bmap (\<lambda>_. x) (poll busy m)) P"
proof -
  let ?j = "- int (length c) - 2" and ?and = "INSN OP_AND (REG 0) (IMM busy) (REG 0)"
  have c': "performs B c (with_r0 P) (\<lambda>vx. bmap (\<lambda>v. (v, snd vx)) m) (with_r0 P)"
    by (rule performs_conseq [OF c]) (auto simp: with_r0_def intro!: exI [of _ "\<lambda>x. x"])
  have an: "performs B [?and] (with_r0 P) (\<lambda>vx. bret (fst vx AND busy, snd vx)) (with_r0 P)"
    by (rule performs_alu [of _ "VAND (Reg 0) (Imm busy) 0" "Reg 0" "Imm busy" 0])
       (use P in \<open>auto simp: insn_simps with_r0_def\<close>)
  have body: "performs B (c @ [?and]) (with_r0 P)
      (\<lambda>vx. bmap (\<lambda>v. (v, snd vx)) (bmap (\<lambda>v. v AND busy) m)) (with_r0 P)"
    using performs_seq [OF c' an] by (simp add: bbind_bmap bmap_def bbind_assoc)
  have j: "sint (word_of_int ?j :: u16) = - int (length (c @ [?and]) + 1)"
    using len by (subst sint_jump) simp_all
  have loop: "performs B ((c @ [?and]) @ [INSN OP_JEQ (REG 0) (IMM busy) (IMM (word_of_int ?j))])
      (with_r0 P)
      (bloop (\<lambda>vx. fst vx = busy) (\<lambda>vx. bmap (\<lambda>v. (v, snd vx)) (bmap (\<lambda>v. v AND busy) m)))
      (with_r0 P)"
    by (rule performs_loop [where a = "Reg 0" and b = "Imm busy" and t = True
          and v = "VJEQ (Reg 0) (Imm busy) (word_of_int ?j)", OF body _ _ j])
       (auto simp: insn_simps with_r0_def)
  have spec: "bmap (\<lambda>_. x) (poll busy m) = bmap snd
      (bloop (\<lambda>vx. fst vx = busy) (\<lambda>vx. bmap (\<lambda>v. (v, snd vx)) (bmap (\<lambda>v. v AND busy) m)) (v, x))" for v x
  proof -
    let ?n = "bmap (\<lambda>v. v AND busy) m"
    have "bloop (\<lambda>v. v = busy) (\<lambda>_. ?n) v = bloop (\<lambda>v. v = busy) (\<lambda>_. ?n) 0"
      by (subst (1 2) bloop_unfold) simp
    then show ?thesis
      using bloop_map [of "\<lambda>vx. bmap (\<lambda>v. (v, snd vx)) ?n" "\<lambda>v. (v, x)" "\<lambda>_. ?n"
          "\<lambda>vx. fst vx = busy" "\<lambda>v. v = busy" v]
      by (simp add: poll_def)
  qed
  have "performs B (poll_code c busy) (with_r0 P)
      (bloop (\<lambda>vx. fst vx = busy) (\<lambda>vx. bmap (\<lambda>v. (v, snd vx)) (bmap (\<lambda>v. v AND busy) m)))
      (with_r0 P)"
    using loop by (simp add: poll_code_def)
  then show ?thesis
  proof (rule performs_conseq)
    fix x r
    assume "P x r"
    then show "\<exists>z h. with_r0 P z r \<and>
        bmap (\<lambda>_. x) (poll busy m) = bmap h
          (bloop (\<lambda>vx. fst vx = busy) (\<lambda>vx. bmap (\<lambda>v. (v, snd vx)) (bmap (\<lambda>v. v AND busy) m)) z) \<and>
        (\<forall>y r'. with_r0 P y r' \<longrightarrow> P (h y) r')"
      by (intro exI [of _ "(r 0, x)"] exI [of _ snd]) (simp add: with_r0_def spec [of x "r 0"])
  qed
qed

section \<open>Counting loops\<close>

text \<open>A loop that counts register 1 from 0 to a limit, as the status programs do.\<close>

definition in_r1 :: "u16 \<Rightarrow> regfile \<Rightarrow> bool" where
  "in_r1 n r \<longleftrightarrow> r 1 = n"

definition count_loop :: "mdio_prog \<Rightarrow> u16 \<Rightarrow> mdio_prog" where
  "count_loop c lim =
     INSN OP_ADD (IMM 0) (IMM 0) (REG 1) # c @
     [INSN OP_ADD (REG 1) (IMM 1) (REG 1),
      INSN OP_JNE (REG 1) (IMM lim) (IMM (word_of_int (- int (length c) - 2)))]"

lemma bloop_count:
  "unat n < unat lim \<Longrightarrow> bloop (\<lambda>n. n \<noteq> lim) (\<lambda>n :: u16. bmap (\<lambda>_. n + 1) (m n)) n =
     bmap (\<lambda>_. lim) (bfor m (map word_of_nat [unat n ..< unat lim]))"
proof (induction "unat lim - unat n" arbitrary: n)
  case (Suc k)
  have n: "unat (n + 1) = Suc (unat n)"
    using Suc.prems unsigned_less [of lim, where ?'a = nat]
    by (subst unat_add_lem [THEN iffD1]) simp_all
  have eq: "[unat n ..< unat lim] = unat n # [unat (n + 1) ..< unat lim]"
    using Suc.prems by (simp add: n upt_conv_Cons)
  have "(if n + 1 \<noteq> lim then bloop (\<lambda>n. n \<noteq> lim) (\<lambda>n. bmap (\<lambda>_. n + 1) (m n)) (n + 1)
         else bret (n + 1)) = bmap (\<lambda>_. lim) (bfor m (map word_of_nat [unat (n + 1) ..< unat lim]))"
  proof (cases "n + 1 = lim")
    case False
    then have "unat (n + 1) \<noteq> unat lim" by (simp add: word_unat_eq_iff)
    with Suc n False show ?thesis by simp
  qed simp
  then show ?case
    unfolding eq by (subst bloop_unfold) (simp add: bbind_bmap bmap_bbind)
qed simp

lemma performs_count_loop:
  assumes c: "performs B c in_r1 (\<lambda>n. bmap (\<lambda>_. n) (m n)) in_r1"
    and lim: "0 < lim" and len: "length c \<le> 1000"
  shows "performs B (count_loop c lim) P
           (\<lambda>x. bmap (\<lambda>_. h x) (bfor m (map word_of_nat [0 ..< unat lim]))) (\<lambda>_ _. True)"
proof -
  let ?j = "- int (length c) - 2"
  have init: "performs B [INSN OP_ADD (IMM 0) (IMM 0) (REG 1)] P (\<lambda>x. bret 0) in_r1"
    by (rule performs_alu [of _ "VADD (Imm 0) (Imm 0) 1" "Imm 0" "Imm 0" 1])
       (simp_all add: insn_simps in_r1_def)
  have inc: "performs B [INSN OP_ADD (REG 1) (IMM 1) (REG 1)] in_r1 (\<lambda>n. bret (n + 1)) in_r1"
    by (rule performs_alu [of _ "VADD (Reg 1) (Imm 1) 1" "Reg 1" "Imm 1" 1])
       (simp_all add: insn_simps in_r1_def)
  have body: "performs B (c @ [INSN OP_ADD (REG 1) (IMM 1) (REG 1)]) in_r1
      (\<lambda>n. bmap (\<lambda>_. n + 1) (m n)) in_r1"
    using performs_seq [OF c inc] by (simp add: bbind_bmap bmap_def bbind_assoc)
  have j: "sint (word_of_int ?j :: u16) = - int (length (c @ [INSN OP_ADD (REG 1) (IMM 1) (REG 1)]) + 1)"
    using len by (subst sint_jump) simp_all
  have loop: "performs B ((c @ [INSN OP_ADD (REG 1) (IMM 1) (REG 1)]) @
      [INSN OP_JNE (REG 1) (IMM lim) (IMM (word_of_int ?j))]) in_r1
      (bloop (\<lambda>n. n \<noteq> lim) (\<lambda>n. bmap (\<lambda>_. n + 1) (m n))) in_r1"
    by (rule performs_loop [where a = "Reg 1" and b = "Imm lim" and t = False
          and v = "VJNE (Reg 1) (Imm lim) (word_of_int ?j)", OF body _ _ j])
       (auto simp: insn_simps in_r1_def)
  have "0 < unat lim" using lim by (simp add: word_less_nat_alt)
  then have spec: "bloop (\<lambda>n. n \<noteq> lim) (\<lambda>n. bmap (\<lambda>_. n + 1) (m n)) 0 =
      bmap (\<lambda>_. lim) (bfor m (map word_of_nat [0 ..< unat lim]))"
    using bloop_count [of 0 lim m] by simp
  have "performs B (count_loop c lim) P
      (\<lambda>x. bmap (\<lambda>_. lim) (bfor m (map word_of_nat [0 ..< unat lim]))) in_r1"
    using performs_seq [OF init loop] by (simp add: spec count_loop_def)
  then show ?thesis
  proof (rule performs_conseq)
    fix x r
    assume "P x r"
    then show "\<exists>z h'. P z r \<and>
        bmap (\<lambda>_. h x) (bfor m (map word_of_nat [0 ..< unat lim])) =
          bmap h' (bmap (\<lambda>_. lim) (bfor m (map word_of_nat [0 ..< unat lim]))) \<and>
        (\<forall>y r'. in_r1 y r' \<longrightarrow> True)"
      by (intro exI [of _ x] exI [of _ "\<lambda>_. h x"]) simp
  qed
qed

section \<open>Whole programs\<close>

text \<open>
  A program that performs a specification which ends is accepted by the documented machine and
  halts with the bus and the output that the specification gives.
\<close>

definition spec_result :: "((int + 'y) \<times> 'w \<times> u32 list) \<Rightarrow> 'w outcome \<Rightarrow> bool" where
  "spec_result m r =
     (case m of (Inl e, w, o') \<Rightarrow> \<exists>t. r = Fail e t \<and> bus t = w \<and> out t = o'
              | (Inr y, w, o') \<Rightarrow> \<exists>t. r = Done t \<and> bus t = w \<and> out t = o')"

lemma performs_run:
  assumes "performs B c P m Q" and "P x (regs s)" and "m x (bus s, out s) = Some r"
  shows "\<exists>V n res. decode_prog c = Some V \<and> vm_run B V n 0 s = Some res \<and> spec_result r res"
proof -
  obtain V f where V: "decode_prog c = Some V" "implements B V f"
    and f: "\<And>x s. P x (regs s) \<Longrightarrow> matches Q (m x (bus s, out s)) (f s)"
    using assms(1) by (rule performsE) (rule that)
  from f [OF assms(2)] assms(3) obtain res where "f s = Some res" "spec_result r res"
    by (auto simp: matches_def spec_result_def split: prod.splits sum.splits)
  with implements_run [OF V(2)] V(1) show ?thesis by blast
qed

text \<open>
  \<open>runs_to B p w r\<close>: the program \<open>p\<close> decodes, and the documented machine, started on the bus \<open>w\<close>,
  ends as \<open>r\<close> says: with an error of the bus or not, the final bus and the values sent.
\<close>

definition runs_to ::
  "'w bus_api \<Rightarrow> mdio_prog \<Rightarrow> 'w \<Rightarrow> ((int + 'y) \<times> 'w \<times> u32 list) \<Rightarrow> bool" where
  "runs_to B p w r \<longleftrightarrow>
     (\<exists>V n res. decode_prog p = Some V \<and> vm_run B V n 0 (init_mst w) = Some res \<and> spec_result r res)"

lemma performs_runs_to:
  assumes "performs B p (\<lambda>_ _. True) (\<lambda>_ :: unit. m) Q" and "m (w, []) = Some r"
  shows "runs_to B p w r"
  unfolding runs_to_def
  by (rule performs_run [OF assms(1)]) (use assms(2) in \<open>simp_all add: init_mst_def\<close>)

end
