(* ===== verification/Mdio_Driver.thy ===== *)
theory Mdio_Driver
  imports Mdio_Device Prog_Logic
begin

text \<open>
  The contract between the generic commands and a driver, as locales, and what the commands'
  programs do for every driver that keeps it. A read leaves its value in register 0; reads and
  writes may use registers 0 and 1 and keep the others, on which the benchmark relies.
\<close>

section \<open>The contract\<close>

definition keep :: "regfile \<Rightarrow> regfile \<Rightarrow> bool" where
  "keep g r \<longleftrightarrow> (\<forall>k \<ge> 2. r k = g k)"

lemma keep_refl [simp]: "keep g g"
  by (simp add: keep_def)

lemma keep_upd [simp]: "k < 2 \<Longrightarrow> keep g (r(k := v)) = keep g r"
  by (auto simp: keep_def)

lemma keep_trans: "keep g r \<Longrightarrow> keep r r' \<Longrightarrow> keep g r'"
  by (simp add: keep_def)

lemma keep_nth: "keep g r \<Longrightarrow> 2 \<le> k \<Longrightarrow> r k = g k"
  by (simp add: keep_def)

text \<open>
  \<open>appends f c\<close>: the generator succeeds and pushes exactly \<open>c\<close>, whatever is there already. The
  length bound keeps every program within the kernel's limit of 512 instructions, and its jumps
  within 16 bits.
\<close>

definition appends :: "(mdio_prog \<Rightarrow> int \<times> mdio_prog) \<Rightarrow> mdio_prog \<Rightarrow> bool" where
  "appends f c \<longleftrightarrow> (\<forall>p. f p = (0, p @ c)) \<and> length c \<le> 100"

definition read_code :: "'w bus_api \<Rightarrow> mdio_prog \<Rightarrow> ('w, u16) bm \<Rightarrow> bool" where
  "read_code B c m \<longleftrightarrow>
     performs B c (\<lambda>(u :: unit, g). keep g) (\<lambda>(u, g). bmap (\<lambda>v. (v, g)) m)
       (\<lambda>(v, g) r. r 0 = v \<and> keep g r)"

definition write_code ::
  "'w bus_api \<Rightarrow> mdio_prog \<Rightarrow> operand \<Rightarrow> (u16 \<Rightarrow> ('w, unit) bm) \<Rightarrow> bool" where
  "write_code B c a m \<longleftrightarrow>
     performs B c (\<lambda>(v, g) r. opv a r = v \<and> keep g r) (\<lambda>(v, g). bmap (\<lambda>u. (u, g)) (m v))
       (\<lambda>(u :: unit, g). keep g)"

definition reads_as ::
  "'w bus_api \<Rightarrow> (mdio_prog \<Rightarrow> int \<times> mdio_prog) \<Rightarrow> ('w, u16) bm \<Rightarrow> bool" where
  "reads_as B f m \<longleftrightarrow> (\<exists>c. appends f c \<and> read_code B c m)"

definition writes_as ::
  "'w bus_api \<Rightarrow> (mdio_prog \<Rightarrow> int \<times> mdio_prog) \<Rightarrow> operand \<Rightarrow> (u16 \<Rightarrow> ('w, unit) bm) \<Rightarrow> bool" where
  "writes_as B f a m \<longleftrightarrow> (\<exists>c. appends f c \<and> write_code B c a m)"

lemma matches_bmap_iff: "matches Q (bmap h m s) o' = matches (\<lambda>y. Q (h y)) (m s) o'"
  by (cases "m s") (auto simp: matches_def bmap_def bbind_def bret_def split: sum.splits)

lemma matches_mono: "matches Q m o' \<Longrightarrow> (\<And>y r. Q y r \<Longrightarrow> Q' y r) \<Longrightarrow> matches Q' m o'"
  by (fastforce simp: matches_def split: option.splits prod.splits sum.splits)

text \<open>Using a contract where more is known about the registers.\<close>

lemma performs_frame:
  fixes B :: "'w bus_api"
  assumes "performs B c P0 (\<lambda>(z, g). bmap (\<lambda>y. (y, g)) (m0 z)) Q0"
    and "\<And>x r. P x r \<Longrightarrow> \<exists>z g. P0 (z, g) r \<and> m x = bmap (h x) (m0 z) \<and>
           (\<forall>y r'. Q0 (y, g) r' \<longrightarrow> Q (h x y) r')"
  shows "performs B c P m Q"
proof -
  obtain V f where V: "decode_prog c = Some V" "implements B V f"
    and f: "\<And>zg s. P0 zg (regs s) \<Longrightarrow>
        matches Q0 ((case zg of (z, g) \<Rightarrow> bmap (\<lambda>y. (y, g)) (m0 z)) (bus s, out s)) (f s)"
    using assms(1) by (rule performsE) (rule that)
  show ?thesis
  proof (rule performsI [OF V])
    fix x and s :: "'w mst"
    assume "P x (regs s)"
    then obtain z g where z: "P0 (z, g) (regs s)" "m x = bmap (h x) (m0 z)"
        "\<And>y r'. Q0 (y, g) r' \<Longrightarrow> Q (h x y) r'"
      using assms(2) by blast
    from f [OF z(1)] show "matches Q (m x (bus s, out s)) (f s)"
      unfolding z(2) matches_bmap_iff prod.case by (rule matches_mono) (rule z(3))
  qed
qed

lemma read_codeD:
  assumes "read_code B c m"
    and Q: "\<And>x r v r'. P x r \<Longrightarrow> r' 0 = v \<Longrightarrow> keep r r' \<Longrightarrow> Q (h x v) r'"
  shows "performs B c P (\<lambda>x. bmap (h x) m) Q"
proof (rule performs_frame [where h = h, OF assms(1) [unfolded read_code_def]])
  fix x r
  assume "P x r"
  then have "\<forall>y r'. r' 0 = y \<and> keep r r' \<longrightarrow> Q (h x y) r'" using Q by blast
  then show "\<exists>(z :: unit) g. (case (z, g) of (u, g) \<Rightarrow> keep g) r \<and> bmap (h x) m = bmap (h x) m \<and>
      (\<forall>y r'. (case (y, g) of (v, g) \<Rightarrow> \<lambda>r. r 0 = v \<and> keep g r) r' \<longrightarrow> Q (h x y) r')"
    by (intro exI [of _ "()"] exI [of _ r]) simp
qed

lemma write_codeD:
  assumes "write_code B c a m"
    and "\<And>x r. P x r \<Longrightarrow> opv a r = vl x"
    and "\<And>x r r'. P x r \<Longrightarrow> keep r r' \<Longrightarrow> Q (h x) r'"
  shows "performs B c P (\<lambda>x. bmap (\<lambda>_. h x) (m (vl x))) Q"
proof (rule performs_frame [where h = "\<lambda>x _. h x", OF assms(1) [unfolded write_code_def]])
  fix x r
  assume P: "P x r"
  have "opv a r = vl x" "\<forall>r'. keep r r' \<longrightarrow> Q (h x) r'"
    using assms(2,3) [OF P] by simp_all
  then show "\<exists>z g. (case (z, g) of (v, g) \<Rightarrow> \<lambda>r. opv a r = v \<and> keep g r) r \<and>
      bmap (\<lambda>_. h x) (m (vl x)) = bmap (\<lambda>_. h x) (m z) \<and>
      (\<forall>(y :: unit) r'. (case (y, g) of (u, g) \<Rightarrow> keep g) r' \<longrightarrow> Q (h x) r')"
    by (intro exI [of _ "vl x"] exI [of _ r]) simp
qed

text \<open>
  Every driver reads, and writes a value that is given as an immediate.
\<close>

locale mdio_driver =
  fixes B :: "'w bus_api"
    and rd_op :: "u32 \<Rightarrow> mdio_prog \<Rightarrow> int \<times> mdio_prog"
    and wr_op :: "u32 \<Rightarrow> u32 \<Rightarrow> mdio_prog \<Rightarrow> int \<times> mdio_prog"
    and rd :: "u32 \<Rightarrow> ('w, u16) bm"
    and wr :: "u32 \<Rightarrow> u16 \<Rightarrow> ('w, unit) bm"
  assumes reads: "reads_as B (rd_op reg) (rd reg)"
    and writes_imm: "writes_as B (wr_op reg (arg32 (IMM n))) (Imm n) (wr reg)"

text \<open>Writing the value of a register as well; register 1 belongs to the driver.\<close>

locale mdio_reg_driver = mdio_driver +
  assumes writes_reg: "k < 8 \<Longrightarrow> k \<noteq> 1 \<Longrightarrow>
    writes_as B (wr_op reg (arg32 (REG (word_of_nat k)))) (Reg k) (wr reg)"

section \<open>What the commands do\<close>

abbreviation any_regs :: "'a \<Rightarrow> regfile \<Rightarrow> bool" where
  "any_regs \<equiv> \<lambda>_ _. True"

definition in_r0 :: "u16 \<Rightarrow> regfile \<Rightarrow> bool" where
  "in_r0 v r \<longleftrightarrow> r 0 = v"

text \<open>The specifications of the three commands.\<close>

definition raw_read_spec :: "('w, u16) bm \<Rightarrow> ('w, unit) bm" where
  "raw_read_spec m = bbind m bemit"

definition raw_mask_spec ::
  "('w, u16) bm \<Rightarrow> (u16 \<Rightarrow> ('w, unit) bm) \<Rightarrow> u16 \<Rightarrow> u16 \<Rightarrow> ('w, unit) bm" where
  "raw_mask_spec m w val msk = bbind m (\<lambda>v. w ((v AND msk) OR val))"

primrec bench_reads :: "('w, u16) bm \<Rightarrow> nat \<Rightarrow> u16 \<Rightarrow> ('w, unit) bm" where
  "bench_reads m 0 x = bret ()"
| "bench_reads m (Suc n) x =
     bbind m (\<lambda>v. bbind (if v = x then bret () else bemit v) (\<lambda>_. bench_reads m n x))"

definition dump_spec :: "('r \<Rightarrow> ('w, u16) bm) \<Rightarrow> 'r list \<Rightarrow> ('w, unit) bm" where
  "dump_spec m = bfor (\<lambda>r. bbind (m r) bemit)"

lemma dump_spec_simps [simp]:
  "dump_spec m [] = bret ()"
  "dump_spec m (r # rs) = bbind (m r) (\<lambda>v. bbind (bemit v) (\<lambda>_. dump_spec m rs))"
  by (simp_all add: dump_spec_def bbind_assoc)

lemma brd_ok: "bus_read B d r w = (uint v, w') \<Longrightarrow> brd B d r (w, o') = Some (Inr v, w', o')"
  by (simp add: brd_def)

lemma bwr_ok: "bus_write B d r v w = (0, w') \<Longrightarrow> bwr B d r v (w, o') = Some (Inr (), w', o')"
  by (simp add: bwr_def)

lemma bbind_ok: "m s = Some (Inr a, t) \<Longrightarrow> bbind m f s = f a t"
  by (simp add: bbind_def)

lemma bmap_ok: "m s = Some (Inr a, t) \<Longrightarrow> bmap h m s = Some (Inr (h a), t)"
  by (simp add: bmap_def bbind_def bret_def)

lemma dump_spec_ok:
  assumes "\<And>r o'. r \<in> set rs \<Longrightarrow> m r (w, o') = Some (Inr (val r), w, o')"
  shows "dump_spec m rs (w, o') = Some (Inr (), w, o' @ map (\<lambda>r. ucast (val r)) rs)"
  using assms by (induction rs arbitrary: o') (simp_all add: bbind_def bemit_def bret_def)

lemma emit_r0: "performs B [INSN OP_EMIT (REG 0) 0 0] in_r0 bemit any_regs"
  using performs_emit [of "INSN OP_EMIT (REG 0) 0 0" "Reg 0" in_r0 "\<lambda>v. v" any_regs "\<lambda>_. ()" B]
  by (simp add: insn_simps in_r0_def)

lemma and_r0: "performs B [INSN OP_AND (REG 0) (IMM n) (REG 0)] in_r0 (\<lambda>v. bret (v AND n)) in_r0"
  by (rule performs_alu [of _ "VAND (Reg 0) (Imm n) 0" "Reg 0" "Imm n" 0])
     (simp_all add: insn_simps in_r0_def)

lemma or_r0: "performs B [INSN OP_OR (REG 0) (IMM n) (REG 0)] in_r0 (\<lambda>v. bret (v OR n)) in_r0"
  by (rule performs_alu [of _ "VOR (Reg 0) (Imm n) 0" "Reg 0" "Imm n" 0])
     (simp_all add: insn_simps in_r0_def)

lemma read_to_r0: "read_code B c m \<Longrightarrow> performs B c P (\<lambda>_. m) in_r0"
  using read_codeD [of B c m P in_r0 "\<lambda>_ v. v"] by (simp add: in_r0_def)

context mdio_driver begin

lemma raw_read:
  assumes "drv_read dev = rd_op"
  shows "\<exists>p. raw_prog dev reg None = Inr (p, mdio_common_raw_read_cb) \<and>
           performs B p (any_regs :: unit \<Rightarrow> _) (\<lambda>_. raw_read_spec (rd reg)) any_regs \<and>
           length p \<le> 512"
proof -
  obtain c where c: "appends (rd_op reg) c" "read_code B c (rd reg)"
    using reads unfolding reads_as_def by blast
  from performs_seq [OF read_to_r0 [OF c(2)] emit_r0] c(1) assms show ?thesis
    by (simp add: raw_prog_def appends_def mdio_prog_push_def MDIO_PROG_EMPTY_def raw_read_spec_def)
qed

lemma raw_write:
  assumes "drv_write dev = wr_op"
  shows "\<exists>p. raw_prog dev reg (Some (val, 0)) = Inr (p, mdio_common_raw_write_cb) \<and>
           performs B p (any_regs :: unit \<Rightarrow> _) (\<lambda>_. wr reg (ucast val)) any_regs \<and>
           length p \<le> 512"
proof -
  obtain c where c: "appends (wr_op reg (arg32 (IMM (ucast val)))) c"
      "write_code B c (Imm (ucast val)) (wr reg)"
    using writes_imm unfolding writes_as_def by blast
  show ?thesis
    using write_codeD [OF c(2), of any_regs "\<lambda>_. ucast val" any_regs "\<lambda>_. ()"] c(1) assms
    by (simp add: raw_prog_def appends_def MDIO_PROG_EMPTY_def)
qed

end

context mdio_reg_driver begin

lemma raw_mask:
  assumes "drv_read dev = rd_op" "drv_write dev = wr_op" and "msk \<noteq> 0"
  shows "\<exists>p. raw_prog dev reg (Some (val, msk)) = Inr (p, mdio_common_raw_write_cb) \<and>
           performs B p (any_regs :: unit \<Rightarrow> _)
             (\<lambda>_. raw_mask_spec (rd reg) (wr reg) (ucast val) (ucast msk)) any_regs \<and>
           length p \<le> 512"
proof -
  obtain c where c: "appends (rd_op reg) c" "read_code B c (rd reg)"
    using reads unfolding reads_as_def by blast
  obtain d where d: "appends (wr_op reg (arg32 (REG 0))) d" "write_code B d (Reg 0) (wr reg)"
    using writes_reg [of 0] unfolding writes_as_def by auto
  have w: "performs B d in_r0 (wr reg) any_regs"
    using write_codeD [OF d(2), of in_r0 "\<lambda>v. v" any_regs "\<lambda>_. ()"] by (simp add: in_r0_def)
  from performs_seq [OF performs_seq [OF performs_seq [OF read_to_r0 [OF c(2), of any_regs]
          and_r0 [of _ "ucast msk"]] or_r0 [of _ "ucast val"]] w] c(1) d(1) assms
  show ?thesis
    by (simp add: raw_prog_def appends_def mdio_prog_push_def MDIO_PROG_EMPTY_def Let_def
        raw_mask_spec_def bbind_assoc)
qed

end

section \<open>The benchmark\<close>

text \<open>The abstract state of the loop: how many reads were made, and the value expected.\<close>

definition bench_inv :: "u16 \<times> u16 \<Rightarrow> regfile \<Rightarrow> bool" where
  "bench_inv nx r \<longleftrightarrow> r 6 = fst nx \<and> r 7 = snd nx"

definition bench_body :: "('w, u16) bm \<Rightarrow> u16 \<times> u16 \<Rightarrow> ('w, u16 \<times> u16) bm" where
  "bench_body m nx =
     bbind m (\<lambda>v. bbind (if v = snd nx then bret () else bemit v) (\<lambda>_. bret (fst nx + 1, snd nx)))"

definition bench_code :: "mdio_prog \<Rightarrow> mdio_prog" where
  "bench_code c =
     c @ [INSN OP_JEQ (REG 0) (REG 7) (IMM 1), INSN OP_EMIT (REG 0) 0 0,
          INSN OP_ADD (REG 6) (IMM 1) (REG 6)]"

lemma bench_step:
  assumes "read_code B c m"
  shows "performs B (bench_code c) bench_inv (bench_body m) bench_inv"
proof -
  let ?P = "\<lambda>(v, nx) r. r 0 = v \<and> bench_inv nx r"
  have 1: "performs B c bench_inv (\<lambda>nx. bmap (\<lambda>v. (v, nx)) m) ?P"
    by (rule read_codeD [OF assms]) (auto simp: bench_inv_def keep_def)
  have "performs B [INSN OP_EMIT (REG 0) 0 0] ?P (\<lambda>x. bmap (\<lambda>_. snd x) (bemit (fst x))) bench_inv"
    by (rule performs_emit) (auto simp: insn_simps)
  then have 2: "performs B (INSN OP_JEQ (REG 0) (REG 7) (IMM 1) # [INSN OP_EMIT (REG 0) 0 0]) ?P
      (\<lambda>x. if fst x = snd (snd x) then bret (snd x) else bmap (\<lambda>_. snd x) (bemit (fst x))) bench_inv"
    by (rule performs_skip [where v = "VJEQ (Reg 0) (Reg 7) 1" and a = "Reg 0" and b = "Reg 7"
          and j = 1 and t = True])
       (auto simp: insn_simps bench_inv_def)
  have 3: "performs B [INSN OP_ADD (REG 6) (IMM 1) (REG 6)] bench_inv
      (\<lambda>nx. bret (fst nx + 1, snd nx)) bench_inv"
    by (rule performs_alu [of _ "VADD (Reg 6) (Imm 1) 6" "Reg 6" "Imm 1" 6])
       (auto simp: insn_simps bench_inv_def)
  have "bbind (bbind (bmap (\<lambda>v. (v, nx)) m)
        (\<lambda>x. if fst x = snd (snd x) then bret (snd x) else bmap (\<lambda>_. snd x) (bemit (fst x))))
      (\<lambda>nx. bret (fst nx + 1, snd nx)) = bench_body m nx" for nx
    unfolding bench_body_def bbind_assoc bbind_bmap
    by (rule arg_cong [of _ _ "bbind m"], rule ext) (simp add: bmap_def bbind_assoc)
  with performs_seq [OF performs_seq [OF 1 2] 3] show ?thesis
    by (simp add: bench_code_def)
qed

lemma bench_loop:
  assumes "read_code B c m" and "length c \<le> 1000"
  shows "performs B
     (bench_code c @ [INSN OP_JNE (REG 6) (IMM 1000) (GOTO (k + int (length (bench_code c))) k)])
     bench_inv (bloop (\<lambda>nx. fst nx \<noteq> 1000) (bench_body m)) bench_inv"
proof -
  let ?j = "k - (k + int (length (bench_code c))) - 1"
  have j: "sint (word_of_int ?j :: u16) = - int (length (bench_code c) + 1)"
    using assms(2) by (subst sint_jump) (simp_all add: bench_code_def)
  show ?thesis
    by (rule performs_loop [where a = "Reg 6" and b = "Imm 1000" and t = False
          and v = "VJNE (Reg 6) (Imm 1000) (word_of_int ?j)", OF bench_step [OF assms(1)] _ _ j])
       (auto simp: insn_simps GOTO_IMM bench_inv_def)
qed

lemma bloop_bench:
  "unat n < 1000 \<Longrightarrow> bloop (\<lambda>nx. fst nx \<noteq> 1000) (bench_body m) (n, x) =
     bmap (\<lambda>_. (1000, x)) (bench_reads m (1000 - unat n) x)"
proof (induction "1000 - unat n" arbitrary: n)
  case (Suc k)
  have n: "unat (n + 1) = Suc (unat n)"
    using Suc.prems by (subst unat_add_lem [THEN iffD1]) simp_all
  have eq: "1000 - unat n = Suc (1000 - unat (n + 1))"
    using Suc.prems n by simp
  have "(if n + 1 \<noteq> 1000 then bloop (\<lambda>nx. fst nx \<noteq> 1000) (bench_body m) (n + 1, x)
         else bret (n + 1, x)) = bmap (\<lambda>_. (1000, x)) (bench_reads m (1000 - unat (n + 1)) x)"
  proof (cases "n + 1 = 1000")
    case True
    then have "unat (n + 1) = 1000" by simp
    with True show ?thesis by simp
  next
    case False
    then have "unat (n + 1) \<noteq> 1000" by (auto simp: word_unat_eq_iff)
    with Suc n show ?thesis using False by simp
  qed
  then show ?case
    unfolding eq by (subst bloop_unfold) (simp add: bench_body_def bbind_assoc bmap_bbind)
qed simp

text \<open>The value to expect: the one written, or the one read first.\<close>

definition bench_spec ::
  "('w, u16) bm \<Rightarrow> (u16 \<Rightarrow> ('w, unit) bm) \<Rightarrow> u16 option \<Rightarrow> ('w, unit) bm" where
  "bench_spec m w val =
     bbind (case val of Some v \<Rightarrow> bmap (\<lambda>_. v) (w v) | None \<Rightarrow> m) (bench_reads m 1000)"

definition in_r7 :: "u16 \<Rightarrow> regfile \<Rightarrow> bool" where
  "in_r7 v r \<longleftrightarrow> r 7 = v"

context mdio_driver begin

lemma bench_tail_performs:
  assumes "drv_read dev = rd_op" and "performs B p P m in_r7"
  shows "\<exists>q. bench_tail dev reg p = Inr q \<and>
           performs B q P (\<lambda>x. bbind (m x) (bench_reads (rd reg) 1000)) any_regs"
proof -
  obtain c where c: "appends (rd_op reg) c" "read_code B c (rd reg)"
    using reads unfolding reads_as_def by blast
  have "performs B [INSN OP_ADD (IMM 0) (IMM 0) (REG 6)] in_r7 (\<lambda>x. bret (0, x)) bench_inv"
    by (rule performs_alu [of _ "VADD (Imm 0) (Imm 0) 6" "Imm 0" "Imm 0" 6])
       (auto simp: insn_simps in_r7_def bench_inv_def)
  from performs_seq [OF performs_seq [OF assms(2) this] bench_loop [OF c(2), of "1 + int (length p)"]]
    c(1)
  have "performs B (p @ INSN OP_ADD (IMM 0) (IMM 0) (REG 6) # bench_code c @
      [INSN OP_JNE (REG 6) (IMM 1000)
         (GOTO (1 + int (length p) + int (length (bench_code c))) (1 + int (length p)))]) P
      (\<lambda>x. bbind (m x) (\<lambda>y. bmap (\<lambda>_. (1000, y)) (bench_reads (rd reg) 1000 y))) bench_inv"
    by (simp add: appends_def bbind_assoc bloop_bench)
  from performs_conseq [OF this, of P "\<lambda>x. bbind (m x) (bench_reads (rd reg) 1000)" any_regs]
  show ?thesis
    using c(1) assms(1)
    by (fastforce simp: bench_tail_def Let_def mdio_prog_push_def appends_def bench_code_def
        bmap_bbind algebra_simps intro: exI [of _ "\<lambda>_. ()"])
qed

lemma bench_read:
  assumes "drv_read dev = rd_op"
    and "mdio_device_parse_reg dev argv False = Inr ([], reg, e)"
  shows "\<exists>q. bench_prog dev argv = Inr q \<and>
           performs B q (any_regs :: unit \<Rightarrow> _) (\<lambda>_. bench_spec (rd reg) (wr reg) None) any_regs"
proof -
  obtain c where c: "appends (rd_op reg) c" "read_code B c (rd reg)"
    using reads unfolding reads_as_def by blast
  have "performs B [INSN OP_ADD (REG 0) (IMM 0) (REG 7)] in_r0 bret in_r7"
    by (rule performs_alu [of _ "VADD (Reg 0) (Imm 0) 7" "Reg 0" "Imm 0" 7 _ _ "\<lambda>x. x"])
       (auto simp: insn_simps in_r7_def in_r0_def)
  from performs_seq [OF read_to_r0 [OF c(2)] this]
  have "performs B (c @ [INSN OP_ADD (REG 0) (IMM 0) (REG 7)]) any_regs (\<lambda>_ :: unit. rd reg) in_r7"
    by simp
  from bench_tail_performs [OF assms(1) this, of reg] show ?thesis
    using c(1) assms
    by (simp add: bench_prog_def bench_head_def appends_def mdio_prog_push_def
        MDIO_PROG_EMPTY_def bench_spec_def)
qed

text \<open>Dumping with the generic loop.\<close>

lemma dump_regs_performs:
  assumes "drv_read dev = rd_op"
  shows "\<exists>c. (\<forall>p. dump_regs dev rs p = (0, p @ c)) \<and>
           performs B c (any_regs :: unit \<Rightarrow> _) (\<lambda>_. dump_spec rd rs) any_regs"
proof (induction rs)
  case Nil
  show ?case
    using performs_Nil [of any_regs any_regs "\<lambda>u. u" B] by (intro exI [of _ "[]"]) simp
next
  case (Cons reg rs)
  then obtain d where d: "\<forall>p. dump_regs dev rs p = (0, p @ d)"
      "performs B d any_regs (\<lambda>_ :: unit. dump_spec rd rs) any_regs"
    by blast
  obtain c where c: "appends (rd_op reg) c" "read_code B c (rd reg)"
    using reads unfolding reads_as_def by blast
  show ?case
    using performs_seq [OF performs_seq [OF read_to_r0 [OF c(2)] emit_r0] d(2)] c(1) d(1) assms
    by (intro exI [of _ "(c @ [INSN OP_EMIT (REG 0) 0 0]) @ d"])
       (simp add: appends_def mdio_prog_push_def bbind_assoc)
qed

end

context mdio_reg_driver begin

lemma bench_write:
  assumes "drv_read dev = rd_op" "drv_write dev = wr_op"
    and "mdio_device_parse_reg dev argv False = Inr (a # as, reg, e)"
    and "mdio_device_parse_val dev (a # as) False = Inr ([], val, msk)"
  shows "\<exists>q. bench_prog dev argv = Inr q \<and>
           performs B q (any_regs :: unit \<Rightarrow> _)
             (\<lambda>_. bench_spec (rd reg) (wr reg) (Some (ucast val))) any_regs"
proof -
  obtain c where c: "appends (wr_op reg (arg32 (REG 7))) c" "write_code B c (Reg 7) (wr reg)"
    using writes_reg [of 7] unfolding writes_as_def by auto
  let ?ld = "[INSN OP_ADD (IMM (ucast val)) (IMM 0) (REG 7)]"
  have "performs B ?ld any_regs (\<lambda>_ :: unit. bret (ucast val)) in_r7"
    by (rule performs_alu [of _ "VADD (Imm (ucast val)) (Imm 0) 7" "Imm (ucast val)" "Imm 0" 7])
       (auto simp: insn_simps in_r7_def)
  moreover have "performs B c in_r7 (\<lambda>v. bmap (\<lambda>_. v) (wr reg v)) in_r7"
    by (rule write_codeD [OF c(2)]) (auto simp: in_r7_def keep_def)
  ultimately have "performs B (?ld @ c) any_regs
      (\<lambda>_ :: unit. bmap (\<lambda>_. ucast val) (wr reg (ucast val))) in_r7"
    by (drule_tac performs_seq) simp_all
  from bench_tail_performs [OF assms(1) this, of reg] show ?thesis
    using c(1) assms
    by (simp add: bench_prog_def bench_head_def appends_def mdio_prog_push_def
        MDIO_PROG_EMPTY_def bench_spec_def Let_def)
qed

end

section \<open>Ranges\<close>

lemma range_regs_empty: "e < s \<Longrightarrow> range_regs s e = Some []"
  by (subst range_regs.simps) (simp add: not_le [symmetric])

text \<open>The loop over a range ends, with the registers in order, unless the range ends at the top.\<close>

lemma range_regs_upt:
  assumes "e < - 1"
  shows "range_regs s e = Some (map word_of_nat [unat s ..< Suc (unat e)])"
proof (induction "Suc (unat e) - unat s" arbitrary: s)
  case 0
  then have "e < s" by (simp add: word_less_nat_alt)
  with 0 show ?case by (simp add: range_regs_empty)
next
  case (Suc k)
  then have le: "s \<le> e" by (simp add: word_le_nat_alt)
  with assms have "s < - 1" by simp
  then have "unat s < 2 ^ 32 - 1"
    by (simp add: word_less_nat_alt unsigned_minus_1_eq_mask mask_eq_exp_minus_1)
  then have s: "unat (s + 1) = Suc (unat s)"
    by (subst unat_add_lem [THEN iffD1]) simp_all
  have "range_regs (s + 1) e = Some (map word_of_nat [unat (s + 1) ..< Suc (unat e)])"
    using Suc s by (intro Suc.hyps(1)) simp
  moreover have "[unat s ..< Suc (unat e)] = unat s # [Suc (unat s) ..< Suc (unat e)]"
    using le by (intro upt_conv_Cons) (simp add: word_le_nat_alt)
  ultimately show ?case
    using le by (subst range_regs.simps) (simp add: s)
qed

lemma range_regs_never_ends:
  "range_regs s (- 1) = None"
proof -
  have "range_regs s (- 1) \<noteq> Some rs" for rs
  proof (induction rs arbitrary: s)
    case Nil
    show ?case by (subst range_regs.simps) (auto split: Option.bind_splits)
  next
    case (Cons r rs)
    then show ?case by (subst range_regs.simps) (auto split: Option.bind_splits)
  qed
  then show ?thesis by (cases "range_regs s (- 1)") auto
qed

end
