(* ===== verification/Mdio_Run.thy ===== *)
theory Mdio_Run
  imports Mdio_Driver
begin

text \<open>
  Commands on a kernel that does what the documented machine does and that answers in one
  message: what is printed and the exit status, from the arguments on. The kernel module is one
  (\<open>Full_Stack\<close>).
\<close>

section \<open>A kernel that runs the machine\<close>

text \<open>
  The bus is in state \<open>w\<close> when the program arrives; \<open>n\<close> is the number of steps for which the
  deadline leaves time.
\<close>

definition machine_link :: "'w bus_api \<Rightarrow> nat \<Rightarrow> 'w \<Rightarrow> kernel_link" where
  "machine_link B n w bus_id p t =
     (case decode_prog p of
        None \<Rightarrow> Answer [] (- EINVAL)
      | Some V \<Rightarrow>
          (case vm_run B V n 0 (init_mst w) of
             None \<Rightarrow> one_reply (- ETIMEDOUT) []
           | Some (Done s) \<Rightarrow> one_reply 0 (out s)
           | Some (Fail e s) \<Rightarrow> one_reply e (out s)))"

definition status_of :: "int + 'y \<Rightarrow> int" where
  "status_of r = (case r of Inl e \<Rightarrow> e | Inr _ \<Rightarrow> 0)"

lemma status_of_simps [simp]: "status_of (Inl e) = e" "status_of (Inr y) = 0"
  by (simp_all add: status_of_def)

text \<open>
  The interface between the commands and the kernel: every program of acceptable length that ends
  and sends at most \<open>cap\<close> values is answered in one message, with the machine's status and output.
  The tool asks for one second or for ten.
\<close>

locale machine_kernel =
  fixes link :: "nat \<Rightarrow> kernel_link" and B :: "'w bus_api" and w :: 'w and bus_id :: string and cap :: nat
  assumes answers: "decode_prog p = Some V \<Longrightarrow> vm_run B V n 0 (init_mst w) = Some res \<Longrightarrow> n \<le> m \<Longrightarrow>
    length p \<le> 512 \<Longrightarrow> unat t \<le> 10000 \<Longrightarrow> length (out (outcome_state res)) \<le> cap \<Longrightarrow>
    link m bus_id p t = one_reply (outcome_status res) (out (outcome_state res))"
begin

lemma answers_run:
  assumes "runs_to B p w (r, w', o')" and "length p \<le> 512" and "length o' \<le> cap"
  obtains n where "\<And>m t. n \<le> m \<Longrightarrow> unat t \<le> 10000 \<Longrightarrow> link m bus_id p t = one_reply (status_of r) o'"
proof -
  obtain V n res where V: "decode_prog p = Some V" "vm_run B V n 0 (init_mst w) = Some res"
      "spec_result (r, w', o') res"
    using assms(1) unfolding runs_to_def by blast
  have res: "outcome_status res = status_of r" "out (outcome_state res) = o'"
    using V(3) by (auto simp: spec_result_def split: sum.splits)
  show thesis
    by (rule that [of n], subst answers [OF V(1,2)]) (simp_all add: assms res)
qed

lemma xfer_ok:
  assumes "runs_to B p w (Inr y, w', o')" and "length p \<le> 512" and "length o' \<le> cap"
    and "cb o' 0 = (ret, s)"
  obtains n where "\<And>m. n \<le> m \<Longrightarrow> mdio_xfer (link m) bus_id p cb =
    (if ret = 0 then 0 else MNL_CB_ERROR, s)"
proof -
  obtain n where n: "\<And>m t. n \<le> m \<Longrightarrow> unat t \<le> 10000 \<Longrightarrow> link m bus_id p t = one_reply 0 o'"
    by (rule answers_run [OF assms(1-3), unfolded status_of_simps]) (rule that)
  have "mdio_xfer (link m) bus_id p cb = (if ret = 0 then 0 else MNL_CB_ERROR, s)" if "n \<le> m" for m
    using xfer_one_reply [where data = o' and err = 0 and cb = cb and prog = p and ret = ret and s = s]
      n [OF that] assms(2,4) by (simp add: mdio_xfer_def XFER_BUF_LEN_def)
  then show thesis by (rule that)
qed

lemma xfer_fails:
  assumes "runs_to B p w (Inl e, w', o')" and "length p \<le> 512" and "length o' \<le> cap"
    and "cb o' e = (ret, s)" and "- (2 ^ 31) \<le> e" "e < 0"
  obtains n where "\<And>m. n \<le> m \<Longrightarrow> mdio_xfer (link m) bus_id p cb = (e, s)"
proof -
  obtain n where n: "\<And>m t. n \<le> m \<Longrightarrow> unat t \<le> 10000 \<Longrightarrow> link m bus_id p t = one_reply e o'"
    by (rule answers_run [OF assms(1-3), unfolded status_of_simps]) (rule that)
  have "mdio_xfer (link m) bus_id p cb = (e, s)" if "n \<le> m" for m
    using xfer_one_reply [where data = o' and err = e and cb = cb and prog = p and ret = ret and s = s]
      n [OF that] assms(2-6) by (simp add: mdio_xfer_def XFER_BUF_LEN_def)
  then show thesis by (rule that)
qed

end

interpretation machine: machine_kernel "\<lambda>m. machine_link B m w" B w bus_id cap
proof
  fix p V n res m t
  assume "decode_prog p = Some V" "vm_run B V n 0 (init_mst w) = Some res" "n \<le> (m :: nat)"
  then show "machine_link B m w bus_id p t = one_reply (outcome_status res) (out (outcome_state res))"
    using vm_run_mono [of B V n 0 "init_mst w" res m]
    by (cases res) (simp_all add: machine_link_def)
qed

section \<open>Raw access\<close>

context mdio_driver begin

lemma raw_read_prints:
  assumes "drv_read dev = rd_op" and "raw_args dev argv = Inr (reg, None)"
    and "rd reg (w, []) = Some (Inr v, w', [])" and K: "machine_kernel link B w (dev_bus dev) cap" "1 \<le> cap"
  shows "\<exists>n. \<forall>m \<ge> n. mdio_common_raw_exec (link m) dev argv =
           (0, ''0x'' @ hex_pad 4 (unat v) @ [CHR 0x0A])"
proof -
  obtain p where p: "raw_prog dev reg None = Inr (p, mdio_common_raw_read_cb)"
      "performs B p (any_regs :: unit \<Rightarrow> _) (\<lambda>_. raw_read_spec (rd reg)) any_regs" "length p \<le> 512"
    using raw_read [OF assms(1)] by blast
  have "raw_read_spec (rd reg) (w, []) = Some (Inr (), w', [ucast v])"
    by (simp add: raw_read_spec_def bbind_def bemit_def assms(3))
  from performs_runs_to [OF p(2) this]
  have run: "runs_to B p w (Inr (), w', [ucast v])" .
  have "unat (ucast v :: u32) = unat v"
    using unsigned_less [of v, where ?'a = nat] by (simp add: unsigned_ucast_eq take_bit_nat_eq_self)
  then have cb: "mdio_common_raw_read_cb [ucast v] 0 = (0, ''0x'' @ hex_pad 4 (unat v) @ [CHR 0x0A])"
    by (simp add: mdio_common_raw_read_cb_def)
  obtain n where n: "\<And>m. n \<le> m \<Longrightarrow>
      mdio_xfer (link m) (dev_bus dev) p mdio_common_raw_read_cb =
        (0, ''0x'' @ hex_pad 4 (unat v) @ [CHR 0x0A])"
    by (rule machine_kernel.xfer_ok [where cb = mdio_common_raw_read_cb, OF K(1) run p(3) _ cb])
       (use K(2) in simp, rule that, simp)
  show ?thesis
    by (intro exI [of _ n]) (simp add: mdio_common_raw_exec_def assms(2) p(1) n)
qed

lemma raw_read_fails:
  assumes "drv_read dev = rd_op" and "raw_args dev argv = Inr (reg, None)"
    and "rd reg (w, []) = Some (Inl e, w', [])" and "- (2 ^ 31) \<le> e" "e < 0"
    and K: "machine_kernel link B w (dev_bus dev) cap"
  shows "\<exists>n. \<forall>m \<ge> n. mdio_common_raw_exec (link m) dev argv = (1, [])"
proof -
  obtain p where p: "raw_prog dev reg None = Inr (p, mdio_common_raw_read_cb)"
      "performs B p (any_regs :: unit \<Rightarrow> _) (\<lambda>_. raw_read_spec (rd reg)) any_regs" "length p \<le> 512"
    using raw_read [OF assms(1)] by blast
  have "raw_read_spec (rd reg) (w, []) = Some (Inl e, w', [])"
    by (simp add: raw_read_spec_def bbind_def assms(3))
  from performs_runs_to [OF p(2) this]
  have run: "runs_to B p w (Inl e :: int + unit, w', [])" .
  have cb: "mdio_common_raw_read_cb [] e = (1, [])" by (simp add: mdio_common_raw_read_cb_def)
  obtain n where n: "\<And>m. n \<le> m \<Longrightarrow>
      mdio_xfer (link m) (dev_bus dev) p mdio_common_raw_read_cb = (e, [])"
    by (rule machine_kernel.xfer_fails [where cb = mdio_common_raw_read_cb, OF K run p(3) _ cb assms(4,5)])
       (simp, rule that)
  show ?thesis
    using assms(5) by (intro exI [of _ n]) (simp add: mdio_common_raw_exec_def assms(2) p(1) n)
qed

end

end
