(* ===== verification/Bitfield.thy ===== *)
theory Bitfield
  imports Mdio_Prelude
begin

text \<open>
  \<^verbatim>\<open>include/linux/bitfield.h\<close>: the field macros and the \<^verbatim>\<open>encode\<close>,
  \<^verbatim>\<open>replace\<close> and \<^verbatim>\<open>get\<close> functions on words of any width. A field is given by
  its mask; the theorems are about contiguous masks, which the macros require.
\<close>

section \<open>The macros\<close>

text \<open>The index of the lowest bit set: \<^verbatim>\<open>__builtin_ffsll(x) - 1\<close>.\<close>

definition bf_shf :: "'a::len word \<Rightarrow> nat" where
  "bf_shf x = length (takeWhile (\<lambda>n. \<not> bit x n) [0 ..< LENGTH('a)])"

definition FIELD_MAX :: "'a::len word \<Rightarrow> 'a word" where
  "FIELD_MAX m = drop_bit (bf_shf m) m"

definition FIELD_FIT :: "'a::len word \<Rightarrow> 'a word \<Rightarrow> bool" where
  "FIELD_FIT m v \<longleftrightarrow> push_bit (bf_shf m) v AND NOT m = 0"

definition FIELD_PREP :: "'a::len word \<Rightarrow> 'a word \<Rightarrow> 'a word" where
  "FIELD_PREP m v = push_bit (bf_shf m) v AND m"

definition FIELD_GET :: "'a::len word \<Rightarrow> 'a word \<Rightarrow> 'a word" where
  "FIELD_GET m r = drop_bit (bf_shf m) (r AND m)"

section \<open>The functions\<close>

definition field_multiplier :: "u64 \<Rightarrow> u64" where
  "field_multiplier field = field AND - field"

definition field_mask :: "u64 \<Rightarrow> u64" where
  "field_mask field = field div field_multiplier field"

definition encode_bits :: "'a::len word \<Rightarrow> 'a word \<Rightarrow> 'a word" where
  "encode_bits v field =
     ucast ((ucast v AND field_mask (ucast field)) * field_multiplier (ucast field))"

definition replace_bits :: "'a::len word \<Rightarrow> 'a word \<Rightarrow> 'a word \<Rightarrow> 'a word" where
  "replace_bits old val field = (old AND NOT field) OR encode_bits val field"

definition get_bits :: "'a::len word \<Rightarrow> 'a word \<Rightarrow> 'a word" where
  "get_bits v field = ucast (ucast (v AND field) div field_multiplier (ucast field))"

definition field_max :: "'a::len word \<Rightarrow> 'a word" where
  "field_max field = ucast (field_mask (ucast field))"

text \<open>The variant that works through a pointer, on the memory the pointer leads to.\<close>

definition p_replace_bits ::
  "'p \<Rightarrow> 'a::len word \<Rightarrow> 'a word \<Rightarrow> ('p \<Rightarrow> 'a word) \<Rightarrow> 'p \<Rightarrow> 'a word" where
  "p_replace_bits p val field m = m(p := (m p AND NOT field) OR encode_bits val field)"

lemma p_replace_bits: "p_replace_bits p val field m = m(p := replace_bits (m p) val field)"
  by (simp add: p_replace_bits_def replace_bits_def)

section \<open>Contiguous masks\<close>

definition field_at :: "nat \<Rightarrow> nat \<Rightarrow> 'a::len word" where
  "field_at k n = push_bit k (mask n)"

lemma bit_field_at: "bit (field_at k n :: 'a::len word) i \<longleftrightarrow> k \<le> i \<and> i < k + n \<and> i < LENGTH('a)"
  by (auto simp: field_at_def bit_simps)

lemma bf_shf_field_at:
  assumes "0 < n" and "k + n \<le> LENGTH('a)"
  shows "bf_shf (field_at k n :: 'a::len word) = k"
proof -
  have "[0 ..< LENGTH('a)] = [0 ..< k] @ [k ..< LENGTH('a)]"
    using assms upt_add_eq_append [of 0 k "LENGTH('a) - k"] by simp
  also have "[k ..< LENGTH('a)] = k # [Suc k ..< LENGTH('a)]"
    using assms by (simp add: upt_conv_Cons)
  finally show ?thesis
    using assms by (simp add: bf_shf_def takeWhile_append bit_field_at)
qed



text \<open>
  The functions divide and multiply by the lowest bit of the mask, which is a shift.
\<close>

lemma field_multiplier_at:
  assumes "0 < n" and "k + n \<le> 64"
  shows "field_multiplier (field_at k n) = push_bit k 1"
proof -
  let ?f = "field_at k n :: u64"
  let ?g = "field_at (Suc k) (n - 1) :: u64"
  have "?f = push_bit k 1 OR ?g"
    by (rule bit_word_eqI) (use assms in \<open>auto simp: bit_simps bit_field_at\<close>)
  also have "\<dots> = push_bit k 1 + ?g"
    by (rule disjunctive_add [symmetric]) (auto simp: bit_simps bit_field_at)
  finally have f: "?f - 1 = mask k + ?g"
    by (simp add: mask_eq_exp_minus_1 push_bit_eq_mult)
  also have "\<dots> = mask k OR ?g"
    by (rule disjunctive_add) (auto simp: bit_simps bit_field_at)
  finally have "- ?f = NOT (mask k OR ?g)"
    by (simp add: minus_eq_not_minus_1)
  then show ?thesis
    unfolding field_multiplier_def
    by (simp only:, intro bit_word_eqI) (use assms in \<open>auto simp: bit_simps bit_field_at\<close>)
qed

lemma div_push_bit_1: "k < LENGTH('a) \<Longrightarrow> (w :: 'a::len word) div push_bit k 1 = drop_bit k w"
  by (simp add: drop_bit_eq_div push_bit_eq_mult)

lemma mult_push_bit_1: "(w :: 'a::len word) * push_bit k 1 = push_bit k w"
  by (simp add: push_bit_eq_mult)

lemma field_mask_at:
  assumes "0 < n" and "k + n \<le> 64"
  shows "field_mask (field_at k n) = mask n"
  unfolding field_mask_def field_multiplier_at [OF assms]
  using assms
  by (subst div_push_bit_1) (auto intro!: bit_word_eqI simp: bit_simps bit_field_at)

lemma ucast_field_at:
  assumes "k + n \<le> LENGTH('a)" and "LENGTH('a) \<le> 64"
  shows "(ucast (field_at k n :: 'a::len word) :: u64) = field_at k n"
  by (rule bit_word_eqI) (use assms in \<open>auto simp: bit_simps bit_field_at\<close>)

text \<open>
  On every width up to 64 bits the functions, which multiply and divide by the lowest bit of
  the mask, agree with the macros, which shift: what \<^verbatim>\<open>replace_bits\<close> stores in a field is
  what \<^verbatim>\<open>get_bits\<close> reads, cut to the field, and the other bits stay.
\<close>

theorem bits_functions_agree:
  fixes v old :: "'a::len word"
  assumes "0 < n" and "k + n \<le> LENGTH('a)" and "LENGTH('a) \<le> 64"
  shows "let f = field_at k n in
         encode_bits v f = FIELD_PREP f v \<and> get_bits old f = FIELD_GET f old \<and>
         get_bits (replace_bits old v f) f = take_bit n v \<and>
         replace_bits old v f AND NOT f = old AND NOT f"
proof -
  let ?f = "field_at k n :: 'a word"
  have shf: "bf_shf ?f = k" by (rule bf_shf_field_at [OF assms(1,2)])
  have k: "k < 64" "k + n \<le> 64" using assms by simp_all
  have d: "w div push_bit k 1 = drop_bit k w" for w :: u64
    using div_push_bit_1 [of k w] k by simp
  have enc: "encode_bits v ?f = FIELD_PREP ?f v" for v
    unfolding encode_bits_def FIELD_PREP_def shf ucast_field_at [OF assms(2,3)]
      field_multiplier_at [OF assms(1) k(2)] field_mask_at [OF assms(1) k(2)] mult_push_bit_1
    by (rule bit_word_eqI) (use assms in \<open>auto simp: bit_simps bit_field_at\<close>)
  have get: "get_bits old ?f = FIELD_GET ?f old" for old
    unfolding get_bits_def FIELD_GET_def shf ucast_field_at [OF assms(2,3)]
      field_multiplier_at [OF assms(1) k(2)] d
    by (rule bit_word_eqI) (use assms in \<open>auto simp: bit_simps bit_field_at dest: bit_imp_le_length\<close>)
  have "get_bits (replace_bits old v ?f) ?f = take_bit n v"
    unfolding get replace_bits_def enc FIELD_GET_def FIELD_PREP_def shf
    by (rule bit_word_eqI) (use assms in \<open>auto simp: bit_simps bit_field_at\<close>)
  moreover have "replace_bits old v ?f AND NOT ?f = old AND NOT ?f"
    unfolding replace_bits_def enc FIELD_PREP_def by (rule bit_word_eqI) (auto simp: bit_simps)
  ultimately show ?thesis using enc get by (simp add: Let_def)
qed

theorem bits_functions_agree_witness:
  "get_bits (replace_bits (0xabcd :: u16) 0x12 (field_at 4 8)) (field_at 4 8) = 0x12"
  using bits_functions_agree [of 8 4 "0x12 :: u16" "0xabcd"] unfolding Let_def by simp

end
