(* ===== verification/Phy.thy ===== *)
theory Phy
  imports Mdio_Run Bitfield
begin

text \<open>
  \<^verbatim>\<open>src/mdio/phy.c\<close>: the driver for PHYs and directly addressed MMDs, the one for MMDs
  behind the Clause 22 registers 13 and 14, their status programs and commands, as instances of
  the driver contract.
\<close>

section \<open>The drivers\<close>

text \<open>The device is its MDIO address; \<^verbatim>\<open>IMM(reg)\<close> keeps the low 16 bits of a register number.\<close>

definition phy_read :: "u16 \<Rightarrow> u32 \<Rightarrow> mdio_prog \<Rightarrow> int \<times> mdio_prog" where
  "phy_read dev_id reg prog =
     (0, mdio_prog_push prog (INSN OP_READ (IMM dev_id) (IMM (ucast reg)) (REG 0)))"

definition phy_write :: "u16 \<Rightarrow> u32 \<Rightarrow> u32 \<Rightarrow> mdio_prog \<Rightarrow> int \<times> mdio_prog" where
  "phy_write dev_id reg val prog =
     (0, mdio_prog_push prog (INSN OP_WRITE (IMM dev_id) (IMM (ucast reg)) (of_arg32 val)))"

definition c22_prtad :: "phy_uapi \<Rightarrow> u16 \<Rightarrow> u8" where
  "c22_prtad U dev_id = ucast (drop_bit 5 (dev_id AND MDIO_PHY_ID_PRTAD U))"

definition c22_devad :: "phy_uapi \<Rightarrow> u16 \<Rightarrow> u8" where
  "c22_devad U dev_id = ucast (dev_id AND MDIO_PHY_ID_DEVAD U)"

definition mmd_c22_addr :: "phy_uapi \<Rightarrow> u16 \<Rightarrow> u32 \<Rightarrow> mdio_prog \<Rightarrow> mdio_prog" where
  "mmd_c22_addr U dev_id reg prog =
     (let prtad = ucast (c22_prtad U dev_id);
          ctrl = ucast (c22_devad U dev_id);
          prog = mdio_prog_push prog (INSN OP_WRITE (IMM prtad) (IMM 13) (IMM ctrl));
          prog = mdio_prog_push prog (INSN OP_WRITE (IMM prtad) (IMM 14) (IMM (ucast reg))) in
      mdio_prog_push prog (INSN OP_WRITE (IMM prtad) (IMM 13) (IMM (ctrl OR push_bit 14 1))))"

definition mmd_c22_read :: "phy_uapi \<Rightarrow> u16 \<Rightarrow> u32 \<Rightarrow> mdio_prog \<Rightarrow> int \<times> mdio_prog" where
  "mmd_c22_read U dev_id reg prog =
     (0, mdio_prog_push (mmd_c22_addr U dev_id reg prog)
           (INSN OP_READ (IMM (ucast (c22_prtad U dev_id))) (IMM 14) (REG 0)))"

definition mmd_c22_write :: "phy_uapi \<Rightarrow> u16 \<Rightarrow> u32 \<Rightarrow> u32 \<Rightarrow> mdio_prog \<Rightarrow> int \<times> mdio_prog" where
  "mmd_c22_write U dev_id reg val prog =
     (0, mdio_prog_push (mmd_c22_addr U dev_id reg prog)
           (INSN OP_WRITE (IMM (ucast (c22_prtad U dev_id))) (IMM 14) (of_arg32 val)))"

section \<open>Building blocks for driver code\<close>

text \<open>Accesses with immediate addresses, in the shape the contract needs.\<close>

lemma read_code_one: "read_code B [INSN OP_READ (IMM d) (IMM r) (REG 0)] (brd B d r)"
  unfolding read_code_def case_prod_unfold
  by (rule performs_read [where h = "\<lambda>ug v. (v, snd ug)"]) (simp add: insn_simps, simp)

lemma write_code_one:
  assumes "decode_ri a' = Some a"
  shows "write_code B [INSN OP_WRITE (IMM d) (IMM r) a'] a (bwr B d r)"
proof -
  have "performs B [INSN OP_WRITE (IMM d) (IMM r) a'] (\<lambda>(v, g) r. opv a r = v \<and> keep g r)
      (\<lambda>x. bmap (\<lambda>_. ((), snd x)) (bwr B d r (fst x))) (\<lambda>(u :: unit, g). keep g)"
    by (rule performs_write) (use assms in \<open>auto simp: insn_simps\<close>)
  moreover have "bmap (\<lambda>_. ((), g)) m = bmap (\<lambda>u. (u, g)) (m :: (_, unit) bm)" for m g
    by simp
  ultimately show ?thesis
    by (simp add: write_code_def case_prod_unfold)
qed

text \<open>A write of a constant, kept beside whatever else is known.\<close>

lemma performs_set:
  "performs B [INSN OP_WRITE (IMM d) (IMM r) (IMM n)] P (\<lambda>x. bmap (\<lambda>_. x) (bwr B d r n)) P"
  by (rule performs_write [where h = "\<lambda>x. x"]) (simp add: insn_simps, simp)

lemma read_code_after:
  assumes "\<And>P :: unit \<times> regfile \<Rightarrow> regfile \<Rightarrow> bool. performs B c P (\<lambda>x. bmap (\<lambda>_. x) m) P"
    and "read_code B d n"
  shows "read_code B (c @ d) (bbind m (\<lambda>_ :: unit. n))"
  unfolding read_code_def
  using performs_seq [OF assms(1) assms(2) [unfolded read_code_def]]
  by (simp add: case_prod_unfold bbind_bmap bmap_bbind)

lemma write_code_after:
  assumes "\<And>P :: u16 \<times> regfile \<Rightarrow> regfile \<Rightarrow> bool. performs B c P (\<lambda>x. bmap (\<lambda>_. x) m) P"
    and "write_code B d a n"
  shows "write_code B (c @ d) a (\<lambda>v. bbind m (\<lambda>_ :: unit. n v))"
  unfolding write_code_def
  using performs_seq [OF assms(1) assms(2) [unfolded write_code_def]]
  by (simp add: case_prod_unfold bbind_bmap bmap_bbind)

lemma appends_one: "(\<And>p. f p = (0, mdio_prog_push p i)) \<Longrightarrow> appends f [i]"
  by (simp add: appends_def mdio_prog_push_def)

lemma decode_ri_arg:
  "decode_ri (of_arg32 (arg32 (IMM n))) = Some (Imm n)"
  "k < 8 \<Longrightarrow> decode_ri (of_arg32 (arg32 (REG (word_of_nat k)))) = Some (Reg k)"
proof -
  assume "k < 8"
  then have "k \<in> {0, 1, 2, 3, 4, 5, 6, 7}" by auto
  then show "decode_ri (of_arg32 (arg32 (REG (word_of_nat k)))) = Some (Reg k)"
    by (auto simp: insn_simps)
qed (simp add: insn_simps)

section \<open>The drivers keep the contract\<close>

definition c22_select :: "'w bus_api \<Rightarrow> phy_uapi \<Rightarrow> u16 \<Rightarrow> u16 \<Rightarrow> ('w, unit) bm" where
  "c22_select B U dev_id reg =
     (let p = ucast (c22_prtad U dev_id); d = ucast (c22_devad U dev_id) in
      bbind (bwr B p 13 d) (\<lambda>_. bbind (bwr B p 14 reg) (\<lambda>_. bwr B p 13 (d OR push_bit 14 1))))"

definition c22_addr_code :: "phy_uapi \<Rightarrow> u16 \<Rightarrow> u16 \<Rightarrow> mdio_prog" where
  "c22_addr_code U dev_id reg =
     (let p = IMM (ucast (c22_prtad U dev_id)); d = ucast (c22_devad U dev_id) in
      [INSN OP_WRITE p (IMM 13) (IMM d), INSN OP_WRITE p (IMM 14) (IMM reg),
       INSN OP_WRITE p (IMM 13) (IMM (d OR push_bit 14 1))])"

lemma c22_addr_appends:
  "mmd_c22_addr U dev_id reg p = p @ c22_addr_code U dev_id (ucast reg)"
  by (simp add: mmd_c22_addr_def c22_addr_code_def Let_def mdio_prog_push_def)

lemma c22_addr_performs:
  "performs B (c22_addr_code U dev_id reg) P (\<lambda>x. bmap (\<lambda>_. x) (c22_select B U dev_id reg)) P"
proof -
  let ?p = "ucast (c22_prtad U dev_id)" and ?d = "ucast (c22_devad U dev_id)"
  have "performs B [INSN OP_WRITE (IMM ?p) (IMM 13) (IMM ?d)] P
      (\<lambda>x. bmap (\<lambda>_. x) (bwr B ?p 13 ?d)) P"
    and "performs B [INSN OP_WRITE (IMM ?p) (IMM 14) (IMM reg)] P
      (\<lambda>x. bmap (\<lambda>_. x) (bwr B ?p 14 reg)) P"
    and "performs B [INSN OP_WRITE (IMM ?p) (IMM 13) (IMM (?d OR push_bit 14 1))] P
      (\<lambda>x. bmap (\<lambda>_. x) (bwr B ?p 13 (?d OR push_bit 14 1))) P"
    by (rule performs_set)+
  from performs_seq [OF performs_seq [OF this(1,2)] this(3)] show ?thesis
    by (simp add: c22_addr_code_def c22_select_def Let_def bbind_bmap bmap_bbind bbind_assoc)
qed

interpretation phy: mdio_reg_driver B "phy_read dev_id" "phy_write dev_id"
    "\<lambda>reg. brd B dev_id (ucast reg)" "\<lambda>reg. bwr B dev_id (ucast reg)" for B dev_id
proof unfold_locales
  fix reg
  show "reads_as B (phy_read dev_id reg) (brd B dev_id (ucast reg))"
    unfolding reads_as_def
    by (rule exI, rule conjI [OF appends_one read_code_one]) (simp add: phy_read_def)
next
  have w: "writes_as B (phy_write dev_id reg (arg32 a')) a (bwr B dev_id (ucast reg))"
    if "decode_ri (of_arg32 (arg32 a')) = Some a" for a' a reg
    unfolding writes_as_def
    by (rule exI, rule conjI [OF appends_one write_code_one [OF that]]) (simp add: phy_write_def)
  show "writes_as B (phy_write dev_id reg (arg32 (IMM n))) (Imm n) (bwr B dev_id (ucast reg))"
    for reg n
    by (rule w) (rule decode_ri_arg)
  show "writes_as B (phy_write dev_id reg (arg32 (REG (word_of_nat k)))) (Reg k)
      (bwr B dev_id (ucast reg))" if "k < 8" "k \<noteq> 1" for reg k
    by (rule w) (rule decode_ri_arg(2) [OF that(1)])
qed

interpretation mmd_c22: mdio_reg_driver B "mmd_c22_read U dev_id" "mmd_c22_write U dev_id"
    "\<lambda>reg. bbind (c22_select B U dev_id (ucast reg)) (\<lambda>_. brd B (ucast (c22_prtad U dev_id)) 14)"
    "\<lambda>reg v. bbind (c22_select B U dev_id (ucast reg)) (\<lambda>_. bwr B (ucast (c22_prtad U dev_id)) 14 v)"
  for B U dev_id
proof unfold_locales
  fix reg
  show "reads_as B (mmd_c22_read U dev_id reg)
      (bbind (c22_select B U dev_id (ucast reg)) (\<lambda>_. brd B (ucast (c22_prtad U dev_id)) 14))"
    unfolding reads_as_def
    by (rule exI, rule conjI [OF _ read_code_after [OF c22_addr_performs read_code_one]])
       (simp add: appends_def mmd_c22_read_def c22_addr_appends mdio_prog_push_def c22_addr_code_def
          Let_def)
next
  have w: "writes_as B (mmd_c22_write U dev_id reg (arg32 a')) a
      (\<lambda>v. bbind (c22_select B U dev_id (ucast reg)) (\<lambda>_. bwr B (ucast (c22_prtad U dev_id)) 14 v))"
    if "decode_ri (of_arg32 (arg32 a')) = Some a" for a' a reg
    unfolding writes_as_def
    by (rule exI, rule conjI [OF _ write_code_after [OF c22_addr_performs write_code_one [OF that]]])
       (simp add: appends_def mmd_c22_write_def c22_addr_appends mdio_prog_push_def
          c22_addr_code_def Let_def)
  show "writes_as B (mmd_c22_write U dev_id reg (arg32 (IMM n))) (Imm n)
      (\<lambda>v. bbind (c22_select B U dev_id (ucast reg)) (\<lambda>_. bwr B (ucast (c22_prtad U dev_id)) 14 v))"
    for reg n
    by (rule w) (rule decode_ri_arg)
  show "writes_as B (mmd_c22_write U dev_id reg (arg32 (REG (word_of_nat k)))) (Reg k)
      (\<lambda>v. bbind (c22_select B U dev_id (ucast reg)) (\<lambda>_. bwr B (ucast (c22_prtad U dev_id)) 14 v))"
    if "k < 8" "k \<noteq> 1" for reg k
    by (rule w) (rule decode_ri_arg(2) [OF that(1)])
qed

section \<open>Status programs\<close>

text \<open>What the callbacks hand to the printers of \<^verbatim>\<open>print-phy.c\<close>, or print themselves.\<close>

datatype report =
    Text string
  | No_Device_Found
  | Bmcr u16 | Bmsr u16 | Phy_Id u16 u16 | Estatus u16
  | Current_Page u32
  | Mmd_Ctrl1 u16 | Mmd_Stat1 u16 | Mmd_Devid u16 u16 | Mmd_Speed u16 | Mmd_Devs u16 u16
  | Mmd_Extra "u32 list" | Mmd_Pkgid u16 u16

definition phy_status_prog :: "u16 \<Rightarrow> mdio_prog" where
  "phy_status_prog dev_id =
     [INSN OP_READ (IMM dev_id) (IMM 0) (REG 0),
      INSN OP_EMIT (REG 0) 0 0,
      INSN OP_READ (IMM dev_id) (IMM 1) (REG 0),
      INSN OP_EMIT (REG 0) 0 0,
      INSN OP_READ (IMM dev_id) (IMM 2) (REG 0),
      INSN OP_EMIT (REG 0) 0 0,
      INSN OP_READ (IMM dev_id) (IMM 3) (REG 0),
      INSN OP_EMIT (REG 0) 0 0,
      INSN OP_READ (IMM dev_id) (IMM 15) (REG 0),
      INSN OP_EMIT (REG 0) 0 0]"

definition phy_status_cb :: "phy_uapi \<Rightarrow> report xfer_cb" where
  "phy_status_cb U data err =
     (if length data \<noteq> 5 then (1, [])
      else if data ! 2 = 0xffff \<and> data ! 3 = 0xffff then (1, [No_Device_Found])
      else (err,
            [Bmcr (ucast (data ! 0)), Bmsr (ucast (data ! 1)),
             Phy_Id (ucast (data ! 2)) (ucast (data ! 3))] @
            (if data ! 1 AND ucast (BMSR_ESTATEN U) \<noteq> 0 then [Estatus (ucast (data ! 4))] else [])))"

definition phy_exec_status ::
  "phy_uapi \<Rightarrow> kernel_link \<Rightarrow> string \<Rightarrow> u16 \<Rightarrow> int \<times> report list" where
  "phy_exec_status U link bus_id dev_id =
     (case mdio_xfer link bus_id (phy_status_prog dev_id) (phy_status_cb U) of (err, reps) \<Rightarrow>
        (if err \<noteq> 0 then 1 else 0, reps))"

definition mmd_status_prog :: "u16 \<Rightarrow> mdio_prog" where
  "mmd_status_prog dev_id =
     [INSN OP_ADD (IMM 0) (IMM 0) (REG 1),
      INSN OP_READ (IMM dev_id) (REG 1) (REG 0),
      INSN OP_EMIT (REG 0) 0 0,
      INSN OP_ADD (REG 1) (IMM 1) (REG 1),
      INSN OP_JNE (REG 1) (IMM 16) (IMM (- 4))]"

text \<open>Which of the four printers an MMD has; the Clause 45 device number selects it.\<close>

record mmd_print_device =
  has_ctrl1 :: bool
  has_stat1 :: bool
  has_speed :: bool
  has_extra :: bool

definition mmd_printer :: "phy_uapi \<Rightarrow> u16 \<Rightarrow> mmd_print_device" where
  "mmd_printer U dev_id =
     (let devad = FIELD_GET (MDIO_PHY_ID_DEVAD U) dev_id in
      if devad = MDIO_MMD_PMAPMD U \<or> devad = MDIO_MMD_PCS U then
        \<lparr>has_ctrl1 = True, has_stat1 = True, has_speed = True, has_extra = True\<rparr>
      else if devad = MDIO_MMD_AN U then
        \<lparr>has_ctrl1 = True, has_stat1 = True, has_speed = False, has_extra = False\<rparr>
      else \<lparr>has_ctrl1 = False, has_stat1 = False, has_speed = False, has_extra = False\<rparr>)"

definition mmd_status_cb :: "mmd_print_device \<Rightarrow> report xfer_cb" where
  "mmd_status_cb dev data err =
     (if length data \<noteq> 16 then (1, [])
      else if data ! 2 = 0xffff \<and> data ! 3 = 0xffff \<or> data ! 2 = 0 \<and> data ! 3 = 0
      then (1, [No_Device_Found])
      else (err,
            (if has_ctrl1 dev then [Mmd_Ctrl1 (ucast (data ! 0))] else []) @
            (if has_stat1 dev then [Mmd_Stat1 (ucast (data ! 1))] else []) @
            [Mmd_Devid (ucast (data ! 2)) (ucast (data ! 3))] @
            (if has_speed dev then [Mmd_Speed (ucast (data ! 4))] else []) @
            [Mmd_Devs (ucast (data ! 6)) (ucast (data ! 5))] @
            (if has_extra dev then [Mmd_Extra data] else []) @
            [Mmd_Pkgid (ucast (data ! 14)) (ucast (data ! 15))]))"

definition mmd_exec_status ::
  "phy_uapi \<Rightarrow> kernel_link \<Rightarrow> string \<Rightarrow> u16 \<Rightarrow> int \<times> report list" where
  "mmd_exec_status U link bus_id dev_id =
     (case mdio_xfer link bus_id (mmd_status_prog dev_id) (mmd_status_cb (mmd_printer U dev_id)) of
        (err, reps) \<Rightarrow> (if err \<noteq> 0 then 1 else 0, reps))"

section \<open>Commands\<close>

definition phy_device :: "string \<Rightarrow> u16 \<Rightarrow> mdio_device" where
  "phy_device bus_id dev_id =
     \<lparr>dev_bus = bus_id, mem_max = 31, mem_width = 16,
      drv_read = phy_read dev_id, drv_write = phy_write dev_id,
      drv_dump = None, drv_parse_reg = None, drv_parse_val = None\<rparr>"

definition mmd_device ::
  "(u32 \<Rightarrow> mdio_prog \<Rightarrow> int \<times> mdio_prog) \<Rightarrow> (u32 \<Rightarrow> u32 \<Rightarrow> mdio_prog \<Rightarrow> int \<times> mdio_prog) \<Rightarrow>
   string \<Rightarrow> mdio_device" where
  "mmd_device rd_op wr_op bus_id =
     \<lparr>dev_bus = bus_id, mem_max = 0xffff, mem_width = 16, drv_read = rd_op, drv_write = wr_op,
      drv_dump = None, drv_parse_reg = None, drv_parse_val = None\<rparr>"

text \<open>\<open>None\<close> is a command that never ends.\<close>

definition with_text :: "(int \<times> string) option \<Rightarrow> (int \<times> report list) option" where
  "with_text = map_option (\<lambda>(err, s). (err, [Text s]))"

definition phy_exec ::
  "phy_uapi \<Rightarrow> kernel_link \<Rightarrow> string \<Rightarrow> string list \<Rightarrow> (int \<times> report list) option" where
  "phy_exec U link bus_id argv =
     (case argv_pop argv of
        (None, _) \<Rightarrow> Some (1, [])
      | (Some arg, argv) \<Rightarrow>
          (case mdio_parse_dev U arg False of
             Inl e \<Rightarrow> Some (1, [])
           | Inr dev_id \<Rightarrow>
               if argv_peek argv = None \<or> argv_peek argv = Some ''status''
               then Some (phy_exec_status U link bus_id dev_id)
               else with_text (mdio_common_exec link (phy_device bus_id dev_id) argv)))"

definition mmd_exec_with ::
  "(u16 \<Rightarrow> u32 \<Rightarrow> mdio_prog \<Rightarrow> int \<times> mdio_prog) \<Rightarrow>
   (u16 \<Rightarrow> u32 \<Rightarrow> u32 \<Rightarrow> mdio_prog \<Rightarrow> int \<times> mdio_prog) \<Rightarrow>
   phy_uapi \<Rightarrow> kernel_link \<Rightarrow> string \<Rightarrow> string list \<Rightarrow> (int \<times> report list) option" where
  "mmd_exec_with rd_op wr_op U link bus_id argv =
     (case argv_pop argv of
        (None, _) \<Rightarrow> Some (1, [])
      | (Some arg, argv) \<Rightarrow>
          (case mdio_parse_dev U arg True of
             Inl e \<Rightarrow> Some (1, [])
           | Inr dev_id \<Rightarrow>
               if dev_id AND MDIO_PHY_ID_C45 U = 0 then Some (1, [])
               else if argv_peek argv = None \<or> argv_peek argv = Some ''status''
               then Some (mmd_exec_status U link bus_id dev_id)
               else with_text
                      (mdio_common_exec link (mmd_device (rd_op dev_id) (wr_op dev_id) bus_id) argv)))"

definition mmd_exec where
  "mmd_exec = mmd_exec_with phy_read phy_write"

definition mmd_c22_exec where
  "mmd_c22_exec U = mmd_exec_with (mmd_c22_read U) (mmd_c22_write U) U"

section \<open>What the status programs read\<close>

definition status_code :: "u16 \<Rightarrow> u16 list \<Rightarrow> mdio_prog" where
  "status_code dev_id rs =
     concat (map (\<lambda>r. [INSN OP_READ (IMM dev_id) (IMM r) (REG 0), INSN OP_EMIT (REG 0) 0 0]) rs)"

lemma status_code_keeps:
  assumes P: "\<And>x r v. P x r \<Longrightarrow> P x (r(0 := v))"
  shows "performs B (status_code dev_id rs) P (\<lambda>x. bmap (\<lambda>_. x) (dump_spec (brd B dev_id) rs)) P"
proof (induction rs)
  case Nil
  show ?case using performs_Nil [of P P "\<lambda>x. x" B] by (simp add: status_code_def)
next
  case (Cons r rs)
  let ?Q = "\<lambda>(v, x) r. r 0 = v \<and> P x r"
  have rd: "performs B [INSN OP_READ (IMM dev_id) (IMM r) (REG 0)] P
      (\<lambda>x. bmap (\<lambda>v. (v, x)) (brd B dev_id r)) ?Q"
    by (rule performs_read [of _ "Imm dev_id" "Imm r" 0]) (use P in \<open>auto simp: insn_simps\<close>)
  have em: "performs B [INSN OP_EMIT (REG 0) 0 0] ?Q (\<lambda>x. bmap (\<lambda>_. snd x) (bemit (fst x))) P"
    by (rule performs_emit [of _ "Reg 0"]) (auto simp: insn_simps)
  from performs_seq [OF performs_seq [OF rd em] Cons.IH] show ?case
    by (simp add: status_code_def bbind_assoc bbind_bmap bmap_bbind)
qed

lemma status_code_performs:
  fixes B :: "'w bus_api"
  shows "performs B (status_code dev_id rs) any_regs (\<lambda>_ :: unit. dump_spec (brd B dev_id) rs) any_regs"
proof -
  have "bmap (\<lambda>_. x) m = m" for x and m :: "('w, unit) bm"
    using bmap_unit [of m] by (cases x) simp
  then show ?thesis
    using status_code_keeps [of "any_regs :: unit \<Rightarrow> _" B dev_id rs] by simp
qed

lemma phy_status_code: "phy_status_prog dev_id = status_code dev_id [0, 1, 2, 3, 15]"
  by (simp add: phy_status_prog_def status_code_def)

lemma mmd_status_performs:
  "performs B (mmd_status_prog dev_id) P
     (\<lambda>_. dump_spec (brd B dev_id) (map word_of_nat [0 ..< 16])) any_regs"
proof -
  let ?rd = "INSN OP_READ (IMM dev_id) (REG 1) (REG 0)" and ?em = "INSN OP_EMIT (REG 0) 0 0"
  let ?Q = "\<lambda>(v, n) r. r 0 = v \<and> in_r1 n r"
  have "performs B [?rd] in_r1 (\<lambda>n. bmap (\<lambda>v. (v, n)) (brd B dev_id n)) ?Q"
    by (rule performs_read [of _ "Imm dev_id" "Reg 1" 0])
       (auto simp: insn_simps in_r1_def)
  moreover have "performs B [?em] ?Q (\<lambda>x. bmap (\<lambda>_. snd x) (bemit (fst x))) in_r1"
    by (rule performs_emit [of _ "Reg 0"]) (auto simp: insn_simps)
  ultimately have "performs B [?rd, ?em] in_r1
      (\<lambda>n. bmap (\<lambda>_. n) (bbind (brd B dev_id n) bemit)) in_r1"
    by (drule_tac performs_seq) (auto simp: bbind_bmap bmap_bbind)
  from performs_count_loop [OF this, of 16 P "\<lambda>_. ()"] show ?thesis
    by (simp add: count_loop_def mmd_status_prog_def dump_spec_def)
qed

end
