(* ===== verification/End_To_End.thy ===== *)
theory End_To_End
  imports Nl_Theorems Mdio_Run Phy
begin

text \<open>
  The two halves together: what the kernel module delivers for a program that a driver of the
  tool generated, and what a command prints.
\<close>

section \<open>Generated programs in the kernel\<close>


section \<open>Commands on a PHY\<close>

lemma dec_hd: "dec n = c # cs \<Longrightarrow> is_digit 10 c"
  using digits_in_digits [of 10 c n] by (simp add: dec_def)

lemma phy_raw_args:
  assumes "reg \<le> 31"
  shows "raw_args (phy_device b d) [dec reg] = Inr (word_of_nat reg, None)"
proof -
  have "mdio_parse_range 31 (dec reg) False = Inr (word_of_nat reg, word_of_nat reg)"
    using parse_range_dec [of reg 31 reg False] assms by simp
  then show ?thesis
    by (simp add: raw_args_def phy_device_def mdio_device_parse_reg_def mdio_device_dflt_parse_reg_def)
qed

text \<open>The commands on any kernel that answers as the machine does.\<close>

lemma phy_raw_on:
  assumes "machine_kernel link B w b cap" and "1 \<le> cap" and "d \<le> 31" and "reg \<le> 31"
    and "bus_read B (of_nat d) (of_nat reg) w = (uint (v :: u16), w')"
  shows "\<exists>n. \<forall>m \<ge> n. phy_exec U (link m) b [dec d, ''raw'', dec reg] =
           Some (0, [Text (''0x'' @ hex_pad 4 (unat v) @ [CHR 0x0A])])"
proof -
  have dev: "mdio_parse_dev U (dec d) False = Inr (word_of_nat d)"
    using parse_dev_dec [of d d U False] assms(3) by simp
  have reg: "(ucast (word_of_nat reg :: u32) :: u16) = word_of_nat reg"
    by (rule bit_word_eqI) (auto simp: bit_simps)
  obtain n where "\<forall>m \<ge> n. mdio_common_raw_exec (link m)
      (phy_device b (word_of_nat d)) [dec reg] = (0, ''0x'' @ hex_pad 4 (unat v) @ [CHR 0x0A])"
    using phy.raw_read_prints [where link = link and cap = cap and B = B and dev_id = "word_of_nat d" and w = w and v = v and w' = w',
        OF _ phy_raw_args [OF assms(4), of b "word_of_nat d"]] assms(1,2,5)
    by (auto simp: phy_device_def reg brd_def)
  then show ?thesis
    by (intro exI [of _ n]) (simp add: phy_exec_def dev mdio_common_exec_def with_text_def)
qed


lemma ucast_u16_u32: "ucast (ucast v :: u32) = v" for v :: u16
  by (rule bit_word_eqI) (auto simp: bit_simps)

lemma ucast_u32_inj: "(ucast a :: u32) = ucast b \<longleftrightarrow> a = b" for a b :: u16
proof
  assume "(ucast a :: u32) = ucast b"
  then have "(ucast (ucast a :: u32) :: u16) = ucast (ucast b :: u32)" by simp
  then show "a = b" unfolding ucast_u16_u32 .
qed simp

lemma phy_status_on:
  assumes "machine_kernel link B w b cap" and "5 \<le> cap"
    and "d \<le> 31" and "\<And>r. bus_read B (of_nat d) r w = (uint (val r), w)"
  shows "\<exists>n. \<forall>m \<ge> n. phy_exec U (link m) b [dec d] =
           Some (if val 2 = 0xffff \<and> val 3 = 0xffff then (1, [No_Device_Found])
                 else (0, [Bmcr (val 0), Bmsr (val 1), Phy_Id (val 2) (val 3)] @
                          (if val 1 AND BMSR_ESTATEN U \<noteq> 0 then [Estatus (val 15)] else [])))"
proof -
  let ?id = "word_of_nat d :: u16" and ?rs = "[0, 1, 2, 3, 15] :: u16 list"
  let ?data = "map (\<lambda>r. ucast (val r)) ?rs :: u32 list"
  define reps where "reps = (if val 2 = 0xffff \<and> val 3 = 0xffff then [No_Device_Found]
      else [Bmcr (val 0), Bmsr (val 1), Phy_Id (val 2) (val 3)] @
           (if val 1 AND BMSR_ESTATEN U \<noteq> 0 then [Estatus (val 15)] else []))"
  let ?none = "val 2 = 0xffff \<and> val 3 = 0xffff"
  have dev: "mdio_parse_dev U (dec d) False = Inr ?id"
    using parse_dev_dec [of d d U False] assms(3) by simp
  have "dump_spec (brd B ?id) ?rs (w, []) = Some (Inr (), w, [] @ ?data)"
    by (rule dump_spec_ok) (rule brd_ok, rule assms(4))
  then have run: "runs_to B (phy_status_prog ?id) w (Inr (), w, ?data)"
    unfolding phy_status_code append_Nil by (rule performs_runs_to [OF status_code_performs])
  have up: "(ucast v :: u32) = 0xffff \<longleftrightarrow> v = 0xffff" for v :: u16
    using ucast_u32_inj [of v "0xffff"] by simp
  have "(ucast a :: u32) AND ucast c \<noteq> 0 \<longleftrightarrow> a AND c \<noteq> 0" for a c :: u16
    using ucast_u32_inj [of "a AND c" 0] by (simp add: unsigned_and_eq)
  then have cb: "phy_status_cb U ?data 0 = (if ?none then 1 else 0, reps)"
    by (simp add: phy_status_cb_def reps_def up ucast_u16_u32)
  obtain n where n: "\<And>m. n \<le> m \<Longrightarrow> mdio_xfer (link m) b (phy_status_prog ?id) (phy_status_cb U) =
      (if (if ?none then 1 else 0) = (0 :: int) then 0 else MNL_CB_ERROR, reps)"
    by (rule machine_kernel.xfer_ok [where cb = "phy_status_cb U", OF assms(1) run _ _ cb])
       (simp add: phy_status_prog_def, use assms(2) in simp, rule that)
  show ?thesis
    by (intro exI [of _ n])
       (simp add: phy_exec_def dev phy_exec_status_def n reps_def MNL_CB_ERROR_def)
qed

lemma mmd_status_on:
  fixes val :: "u16 \<Rightarrow> u16"
  assumes K: "machine_kernel link B w b cap" "16 \<le> cap" and "p \<le> 31" and "d \<le> 31" and "uapi_ok U"
    and "\<And>r. bus_read B (mdio_phy_id_c45 U (of_nat p) (of_nat d)) r w = (uint (val r), w)"
  shows "\<exists>n. \<forall>m \<ge> n. mmd_exec U (link m) b [dec p @ '':'' @ dec d] =
           (case mmd_status_cb (mmd_printer U (mdio_phy_id_c45 U (of_nat p) (of_nat d)))
                   (map (\<lambda>r. ucast (val (of_nat r))) [0 ..< 16]) 0 of
              (err, reps) \<Rightarrow> Some (if err \<noteq> 0 then 1 else 0, reps))"
proof -
  let ?id = "mdio_phy_id_c45 U (of_nat p) (of_nat d)"
  let ?data = "map (\<lambda>r. ucast (val (of_nat r))) [0 ..< 16] :: u32 list"
  have dev: "mdio_parse_dev U (dec p @ '':'' @ dec d) True = Inr ?id"
    using parse_dev_dec [of p d U True] assms(3,4) by simp
  have le: "(of_nat p :: u16) \<le> 31" "(of_nat d :: u16) \<le> 31"
    using assms(3,4) by (simp_all add: word_le_nat_alt unsigned_of_nat take_bit_nat_eq_self)
  have c45: "?id AND MDIO_PHY_ID_C45 U \<noteq> 0"
    using assms(5) le unfolding uapi_ok_def by blast
  have "dump_spec (brd B ?id) (map word_of_nat [0 ..< 16]) (w, []) =
      Some (Inr (), w, [] @ map (\<lambda>r. ucast (val r)) (map word_of_nat [0 ..< 16]))"
    by (rule dump_spec_ok) (rule brd_ok, rule assms(6))
  then have run: "runs_to B (mmd_status_prog ?id) w (Inr (), w, ?data)"
    unfolding append_Nil map_map o_def
    by (rule performs_runs_to [OF mmd_status_performs])
  obtain e reps where cb: "mmd_status_cb (mmd_printer U ?id) ?data 0 = (e, reps)" by fastforce
  obtain n where n: "\<And>m. n \<le> m \<Longrightarrow> mdio_xfer (link m) b (mmd_status_prog ?id)
      (mmd_status_cb (mmd_printer U ?id)) = (if e = 0 then 0 else MNL_CB_ERROR, reps)"
    by (rule machine_kernel.xfer_ok [where cb = "mmd_status_cb (mmd_printer U ?id)", OF K(1) run _ _ cb])
       (simp add: mmd_status_prog_def, use K(2) in simp, rule that)
  show ?thesis
    unfolding cb by (intro exI [of _ n])
      (simp add: mmd_exec_def mmd_exec_with_def dev [simplified] c45 mmd_exec_status_def n MNL_CB_ERROR_def)
qed

end
