(* ===== verification/Nl_Messages.thy ===== *)
theory Nl_Messages
  imports Nl_Theorems
begin

text \<open>
  The replies of \<^verbatim>\<open>kernel/mdio-netlink.c\<close> message by message. \<open>netlink_ok\<close> speaks of the stream of
  values only; here a message has a size in bytes and a beginning and an end, and the handler's
  reply is computed exactly: which values each message carries, where the error goes, and what
  becomes of the end mark when there is no room for it.
\<close>

section \<open>Messages as the receiver sees them\<close>

text \<open>
  The values in the attribute \<^verbatim>\<open>MDIO_NLA_DATA\<close>, the attribute \<^verbatim>\<open>MDIO_NLA_ERROR\<close>, whether
  \<^verbatim>\<open>genlmsg_end\<close> has set the length of the message (until then it covers the headers only), and
  whether \<^verbatim>\<open>NLMSG_DONE\<close> follows.
\<close>

record msg_view =
  v_data :: "u32 list"
  v_error :: "int option"
  v_ended :: bool
  v_done :: bool

definition new_view :: msg_view where
  "new_view = \<lparr>v_data = [], v_error = None, v_ended = False, v_done = False\<rparr>"

text \<open>
  \<^verbatim>\<open>nla_nest_end\<close> makes the nested attribute reach to the end of the message. If the error has been
  put by then, its header (length 8, type 5) and its value become the last two values.
\<close>

definition nest_end_view :: "msg_view \<Rightarrow> msg_view" where
  "nest_end_view v =
     (case v_error v of
        None \<Rightarrow> v
      | Some e \<Rightarrow> v\<lparr>v_data := v_data v @ [0x00050008, word_of_int e], v_error := None\<rparr>)"

text \<open>
  The documented behaviour of the functions of \<^verbatim>\<open>linux/netlink.h\<close>: \<open>room m\<close> are the bytes that are
  left in a message, \<open>L\<close> those of a new one, \<open>recvd n\<close> the messages that were delivered. Each
  function takes the bytes of its header and payload, or fails and changes nothing. Memory is
  available, and the receiver is there.
\<close>

definition netlink_bytes ::
  "('m, 'n) nl_api \<Rightarrow> nat \<Rightarrow> ('m \<Rightarrow> nat) \<Rightarrow> ('m \<Rightarrow> msg_view) \<Rightarrow> ('n \<Rightarrow> msg_view list) \<Rightarrow> bool" where
  "netlink_bytes N L room view recvd \<longleftrightarrow>
     (\<forall>n. \<exists>m n'. nlmsg_new N n = (Some m, n') \<and> view m = new_view \<and> room m = L \<and> recvd n' = recvd n) \<and>
     (\<forall>m. 20 \<le> room m \<longrightarrow>
        (\<exists>m'. genlmsg_put N m = Some m' \<and> view m' = view m \<and> room m' = room m - 20)) \<and>
     (\<forall>m. 4 \<le> room m \<longrightarrow>
        (\<exists>m'. nla_nest_start N m = Some m' \<and> view m' = view m \<and> room m' = room m - 4)) \<and>
     (\<forall>m v. if 4 \<le> room m
            then \<exists>m'. nla_put_nohdr N m v = (0, m') \<and> room m' = room m - 4 \<and>
                   view m' = (view m)\<lparr>v_data := v_data (view m) @ [v]\<rparr>
            else nla_put_nohdr N m v = (- EMSGSIZE, m)) \<and>
     (\<forall>m. view (nla_nest_end N m) = nest_end_view (view m) \<and> room (nla_nest_end N m) = room m) \<and>
     (\<forall>m e. if 8 \<le> room m
            then \<exists>m'. nla_put_error N m e = (0, m') \<and> room m' = room m - 8 \<and>
                   view m' = (view m)\<lparr>v_error := Some e\<rparr>
            else nla_put_error N m e = (- EMSGSIZE, m)) \<and>
     (\<forall>m. view (genlmsg_end N m) = (view m)\<lparr>v_ended := True\<rparr> \<and> room (genlmsg_end N m) = room m) \<and>
     (\<forall>m. if 16 \<le> room m
          then \<exists>m'. nlmsg_put_done N m = Some m' \<and> room m' = room m - 16 \<and>
                 view m' = (view m)\<lparr>v_done := True\<rparr>
          else nlmsg_put_done N m = None) \<and>
     (\<forall>m n. \<exists>n'. genlmsg_unicast N m n = (0, n') \<and> recvd n' = recvd n @ [view m])"

lemma netlink_bytesD:
  assumes "netlink_bytes N L room view recvd"
  shows "\<exists>m n'. nlmsg_new N n = (Some m, n') \<and> view m = new_view \<and> room m = L \<and> recvd n' = recvd n"
    and "20 \<le> room m \<Longrightarrow> \<exists>m'. genlmsg_put N m = Some m' \<and> view m' = view m \<and> room m' = room m - 20"
    and "4 \<le> room m \<Longrightarrow> \<exists>m'. nla_nest_start N m = Some m' \<and> view m' = view m \<and> room m' = room m - 4"
    and "4 \<le> room m \<Longrightarrow> \<exists>m'. nla_put_nohdr N m v = (0, m') \<and> room m' = room m - 4 \<and>
           view m' = (view m)\<lparr>v_data := v_data (view m) @ [v]\<rparr>"
    and "\<not> 4 \<le> room m \<Longrightarrow> nla_put_nohdr N m v = (- EMSGSIZE, m)"
    and "view (nla_nest_end N m) = nest_end_view (view m)" "room (nla_nest_end N m) = room m"
    and "8 \<le> room m \<Longrightarrow> \<exists>m'. nla_put_error N m e = (0, m') \<and> room m' = room m - 8 \<and>
           view m' = (view m)\<lparr>v_error := Some e\<rparr>"
    and "\<not> 8 \<le> room m \<Longrightarrow> nla_put_error N m e = (- EMSGSIZE, m)"
    and "view (genlmsg_end N m) = (view m)\<lparr>v_ended := True\<rparr>" "room (genlmsg_end N m) = room m"
    and "16 \<le> room m \<Longrightarrow> \<exists>m'. nlmsg_put_done N m = Some m' \<and> room m' = room m - 16 \<and>
           view m' = (view m)\<lparr>v_done := True\<rparr>"
    and "\<not> 16 \<le> room m \<Longrightarrow> nlmsg_put_done N m = None"
    and "\<exists>n'. genlmsg_unicast N m n = (0, n') \<and> recvd n' = recvd n @ [view m]"
  using assms unfolding netlink_bytes_def by - (elim conjE, meson)+

section \<open>The messages of a reply\<close>

text \<open>
  Emitted values fill one message after the other: the messages that were sent because the next
  value did not fit, and the values in the current one. A message has room for \<open>cap\<close> values.
\<close>

definition chunk_add ::
  "nat \<Rightarrow> u32 list list \<times> u32 list \<Rightarrow> u32 \<Rightarrow> u32 list list \<times> u32 list" where
  "chunk_add cap = (\<lambda>(full, cur) v.
     if length cur < cap then (full, cur @ [v]) else (full @ [cur], [v]))"

definition chunks :: "nat \<Rightarrow> u32 list \<Rightarrow> u32 list list \<times> u32 list" where
  "chunks cap vs = foldl (chunk_add cap) ([], []) vs"

definition flushed :: "u32 list \<Rightarrow> msg_view" where
  "flushed vs = \<lparr>v_data = vs, v_error = None, v_ended = True, v_done = False\<rparr>"

text \<open>
  The messages that \<^verbatim>\<open>mdio_nl_close\<close> sends when the current message has the values \<open>cur\<close> and \<open>left\<close>
  bytes left.
\<close>

definition closing :: "nat \<Rightarrow> u32 list \<Rightarrow> int \<Rightarrow> msg_view list" where
  "closing left cur err =
     (if err = 0 then
        if 16 \<le> left then [\<lparr>v_data = cur, v_error = None, v_ended = True, v_done = True\<rparr>]
        else [flushed cur, \<lparr>v_data = [], v_error = None, v_ended = False, v_done = True\<rparr>]
      else if 24 \<le> left then [\<lparr>v_data = cur, v_error = Some err, v_ended = True, v_done = True\<rparr>]
      else if 8 \<le> left then
        [flushed (cur @ [0x00050008, word_of_int err]),
         \<lparr>v_data = [], v_error = None, v_ended = False, v_done = True\<rparr>]
      else
        [flushed cur, \<lparr>v_data = [], v_error = Some err, v_ended = True, v_done = True\<rparr>])"

definition reply_views :: "nat \<Rightarrow> u32 list \<Rightarrow> int \<Rightarrow> msg_view list" where
  "reply_views L vs err =
     (case chunks ((L - 24) div 4) vs of (full, cur) \<Rightarrow>
        map flushed full @ closing (L - 24 - 4 * length cur) cur err)"

lemma chunks_snoc: "chunks cap (vs @ [v]) = chunk_add cap (chunks cap vs) v"
  by (simp add: chunks_def)

lemma chunks_one: "length vs \<le> cap \<Longrightarrow> chunks cap vs = ([], vs)"
  by (induction vs rule: rev_induct) (simp_all add: chunks_snoc chunk_add_def, simp add: chunks_def)

text \<open>No value is lost, and every message but the last is full.\<close>

lemma chunks_all:
  "0 < cap \<Longrightarrow> chunks cap vs = (full, cur) \<Longrightarrow>
   concat full @ cur = vs \<and> (\<forall>c \<in> set full. length c = cap) \<and> length cur \<le> cap"
proof (induction vs arbitrary: full cur rule: rev_induct)
  case (snoc v vs)
  obtain f c where fc: "chunks cap vs = (f, c)" by fastforce
  from snoc.IH [OF snoc.prems(1) fc] snoc.prems show ?case
    by (auto simp: chunks_snoc fc chunk_add_def Suc_le_eq split: if_splits)
qed (simp add: chunks_def)

section \<open>Opening, flushing and emitting\<close>

lemma open_bytes:
  assumes N: "netlink_bytes N L room view recvd" and "24 \<le> L"
  shows "\<exists>y m. mdio_nl_open N x = (0, y) \<and> same_run x y \<and> x_msg y = Live m \<and>
           view m = new_view \<and> room m = L - 24 \<and> recvd (x_sock y) = recvd (x_sock x)"
proof -
  obtain m n where m: "nlmsg_new N (x_sock x) = (Some m, n)" "view m = new_view" "room m = L"
      "recvd n = recvd (x_sock x)"
    using netlink_bytesD(1) [OF N] by blast
  obtain m1 where m1: "genlmsg_put N m = Some m1" "view m1 = view m" "room m1 = room m - 20"
    using netlink_bytesD(2) [OF N, of m] m(3) assms(2) by auto
  have "4 \<le> room m1" using m(3) m1(3) assms(2) by arith
  then obtain m2 where m2: "nla_nest_start N m1 = Some m2" "view m2 = view m1" "room m2 = room m1 - 4"
    using netlink_bytesD(3) [OF N] by blast
  show ?thesis
    using m m1 m2 by (simp add: mdio_nl_open_def same_run_def)
qed

lemma flush_bytes:
  assumes N: "netlink_bytes N L room view recvd" and "24 \<le> L" and "x_msg x = Live m"
  shows "\<exists>y m'. mdio_nl_flush N x = Inr (0, y) \<and> same_run x y \<and> x_msg y = Live m' \<and>
           view m' = new_view \<and> room m' = L - 24 \<and>
           recvd (x_sock y) = recvd (x_sock x) @ [(nest_end_view (view m))\<lparr>v_ended := True\<rparr>]"
proof -
  let ?m = "genlmsg_end N (nla_nest_end N m)"
  obtain n where n: "genlmsg_unicast N ?m (x_sock x) = (0, n)" "recvd n = recvd (x_sock x) @ [view ?m]"
    using netlink_bytesD(14) [OF N] by blast
  let ?z = "x\<lparr>x_msg := Freed, x_sock := n\<rparr>"
  have "mdio_nl_close N x False 0 = Inr (0, ?z)"
    using assms(3) n by (simp add: mdio_nl_close.simps [of N x False 0] upd_msg_def set_msg_def unicast_def)
  moreover obtain y m' where y: "mdio_nl_open N ?z = (0, y)" "same_run ?z y" "x_msg y = Live m'"
      "view m' = new_view" "room m' = L - 24" "recvd (x_sock y) = recvd (x_sock ?z)"
    using open_bytes [OF N assms(2), of ?z] by blast
  moreover have "same_run x y" using y(2) by (simp add: same_run_def)
  ultimately show ?thesis
    using n(2) by (simp add: mdio_nl_flush.simps netlink_bytesD [OF N])
qed

text \<open>What the message and the socket hold after the values \<open>vs\<close> were emitted.\<close>

definition msg_holds ::
  "('m, 'n) nl_api \<Rightarrow> nat \<Rightarrow> ('m \<Rightarrow> nat) \<Rightarrow> ('m \<Rightarrow> msg_view) \<Rightarrow> ('n \<Rightarrow> msg_view list) \<Rightarrow>
   msg_view list \<Rightarrow> ('m, 'n, 'w) xfer \<Rightarrow> u32 list \<Rightarrow> bool" where
  "msg_holds N L room view recvd sent x vs \<longleftrightarrow>
     netlink_bytes N L room view recvd \<and> 48 \<le> L \<and>
     (\<exists>m. x_msg x = Live m \<and>
        (case chunks ((L - 24) div 4) vs of (full, cur) \<Rightarrow>
           view m = new_view\<lparr>v_data := cur\<rparr> \<and> room m = L - 24 - 4 * length cur \<and>
           4 * length cur \<le> L - 24 \<and> recvd (x_sock x) = sent @ map flushed full))"

lemma emit_holds:
  assumes "msg_holds N L room view recvd sent x vs"
  shows "\<exists>y. mdio_nl_emit N x v = Inr (0, y) \<and> same_run x y \<and>
           msg_holds N L room view recvd sent y (vs @ [v])"
proof -
  obtain full cur where fc: "chunks ((L - 24) div 4) vs = (full, cur)" by fastforce
  obtain m where N: "netlink_bytes N L room view recvd" and L: "48 \<le> L" and m: "x_msg x = Live m"
      "view m = new_view\<lparr>v_data := cur\<rparr>" "room m = L - 24 - 4 * length cur"
      "4 * length cur \<le> L - 24" "recvd (x_sock x) = sent @ map flushed full"
    using assms unfolding msg_holds_def fc by auto
  have fits: "4 \<le> room m \<longleftrightarrow> length cur < (L - 24) div 4"
    using m(3,4) by (simp add: less_eq_div_iff_mult_less_eq Suc_le_eq [symmetric]) linarith
  show ?thesis
  proof (cases "4 \<le> room m")
    case True
    then obtain m' where m': "nla_put_nohdr N m v = (0, m')" "room m' = room m - 4"
        "view m' = (view m)\<lparr>v_data := v_data (view m) @ [v]\<rparr>"
      using netlink_bytesD(4) [OF N] by blast
    then have "mdio_nl_emit N x v = Inr (0, set_msg m' x)"
      by (simp add: mdio_nl_emit_def m(1))
    moreover have "msg_holds N L room view recvd sent (set_msg m' x) (vs @ [v])"
      using N L m m' True fits
      by (simp add: msg_holds_def chunks_snoc fc chunk_add_def set_msg_def)
    ultimately show ?thesis by (intro exI [of _ "set_msg m' x"] conjI) simp_all
  next
    case False
    let ?x = "set_msg m x"
    have p: "nla_put_nohdr N m v = (- EMSGSIZE, m)" by (rule netlink_bytesD(5) [OF N False])
    have x: "x_msg ?x = Live m" by (simp add: set_msg_def)
    obtain y m' where y: "mdio_nl_flush N ?x = Inr (0, y)" "same_run ?x y" "x_msg y = Live m'"
        "view m' = new_view" "room m' = L - 24"
        "recvd (x_sock y) = recvd (x_sock ?x) @ [(nest_end_view (view m))\<lparr>v_ended := True\<rparr>]"
      using flush_bytes [OF N _ x] L by auto
    have "4 \<le> room m'" using y(5) L by arith
    then obtain m2 where m2: "nla_put_nohdr N m' v = (0, m2)" "room m2 = room m' - 4"
        "view m2 = (view m')\<lparr>v_data := v_data (view m') @ [v]\<rparr>"
      using netlink_bytesD(4) [OF N] by blast
    have "mdio_nl_emit N x v = Inr (0, set_msg m2 y)"
      using p y(1,3) m2(1) by (simp add: mdio_nl_emit_def m(1) errno_defs)
    moreover have "msg_holds N L room view recvd sent (set_msg m2 y) (vs @ [v])"
      using N L m y m2 False fits
      by (simp add: msg_holds_def chunks_snoc fc chunk_add_def set_msg_def new_view_def flushed_def
          nest_end_view_def)
    moreover have "same_run x (set_msg m2 y)" using y(2) by simp
    ultimately show ?thesis by blast
  qed
qed

interpretation bytes: reply_buffer N "msg_holds N L room view recvd sent"
  by unfold_locales (rule emit_holds, assumption, simp add: msg_holds_def)

section \<open>Closing\<close>

lemma put_error_bytes:
  assumes N: "netlink_bytes N L room view recvd" and "x_msg x = Live m" and "8 \<le> room m"
  shows "\<exists>m'. put_error N e x = Inr (0, set_msg m' x) \<and> room m' = room m - 8 \<and>
           view m' = (view m)\<lparr>v_error := Some e\<rparr>"
  using netlink_bytesD(8) [OF N assms(3), of e] assms(2) by (auto simp: put_error_def)

lemma put_done_bytes:
  assumes N: "netlink_bytes N L room view recvd" and "x_msg x = Live m" and "16 \<le> room m"
  shows "\<exists>m'. put_done N x = Inr (True, set_msg m' x) \<and> view m' = (view m)\<lparr>v_done := True\<rparr>"
  using netlink_bytesD(12) [OF N assms(3)] assms(2) by (auto simp: put_done_def)

text \<open>
  The two parts of \<^verbatim>\<open>mdio_nl_close\<close> that may flush: what was sent by the end of the part, and the
  message that is left.
\<close>

lemma error_part_bytes:
  assumes N: "netlink_bytes N L room view recvd" and L: "48 \<le> L" and x: "x_msg x = Live m"
    and m: "view m = new_view\<lparr>v_data := cur\<rparr>"
  shows "\<exists>y m'. (if xerr \<noteq> 0 then
        crash_bind (put_error N xerr x) (\<lambda>(r, x).
          if r \<noteq> 0 then
            crash_bind (mdio_nl_flush N x) (\<lambda>(err, x).
              if err \<noteq> 0 then Inr (err, x)
              else crash_bind (put_error N xerr x) (\<lambda>(r, x).
                     Inr (if r \<noteq> 0 then - EMSGSIZE else 0, x)))
          else Inr (0, x))
      else Inr (0, x)) = Inr (0, y) \<and> same_run x y \<and> x_msg y = Live m' \<and>
      (if xerr = 0 then view m' = view m \<and> room m' = room m \<and> recvd (x_sock y) = recvd (x_sock x)
       else if 8 \<le> room m
       then view m' = (view m)\<lparr>v_error := Some xerr\<rparr> \<and> room m' = room m - 8 \<and>
         recvd (x_sock y) = recvd (x_sock x)
       else view m' = new_view\<lparr>v_error := Some xerr\<rparr> \<and> room m' = L - 32 \<and>
         recvd (x_sock y) = recvd (x_sock x) @ [flushed cur])"
proof -
  consider (none) "xerr = 0" | (fits) "xerr \<noteq> 0" "8 \<le> room m" | (flush) "xerr \<noteq> 0" "\<not> 8 \<le> room m"
    by blast
  then show ?thesis
  proof cases
    case none
    with x show ?thesis by (intro exI [of _ x] exI [of _ m]) simp
  next
    case fits
    then obtain m' where "put_error N xerr x = Inr (0, set_msg m' x)" "room m' = room m - 8"
        "view m' = (view m)\<lparr>v_error := Some xerr\<rparr>"
      using put_error_bytes [OF N x] by blast
    with fits show ?thesis
      by (intro exI [of _ "set_msg m' x"] exI [of _ m']) (simp add: set_msg_def same_run_def)
  next
    case flush
    have p: "put_error N xerr x = Inr (- EMSGSIZE, set_msg m x)"
      using netlink_bytesD(9) [OF N flush(2)] x by (simp add: put_error_def)
    have "x_msg (set_msg m x) = Live m" by (simp add: set_msg_def)
    from flush_bytes [OF N _ this] L obtain y m1 where
      y: "mdio_nl_flush N (set_msg m x) = Inr (0, y)" "same_run (set_msg m x) y" "x_msg y = Live m1"
         "view m1 = new_view" "room m1 = L - 24"
         "recvd (x_sock y) = recvd (x_sock (set_msg m x)) @ [(nest_end_view (view m))\<lparr>v_ended := True\<rparr>]"
      by auto
    have "8 \<le> room m1" using y(5) L by arith
    then obtain m' where "put_error N xerr y = Inr (0, set_msg m' y)" "room m' = room m1 - 8"
        "view m' = (view m1)\<lparr>v_error := Some xerr\<rparr>"
      using put_error_bytes [OF N y(3)] by blast
    with flush p y L m show ?thesis
      by (intro exI [of _ "set_msg m' y"] exI [of _ m'])
         (simp add: set_msg_def same_run_def errno_defs new_view_def nest_end_view_def flushed_def)
  qed
qed

lemma done_part_bytes:
  assumes N: "netlink_bytes N L room view recvd" and L: "48 \<le> L" and x: "x_msg x = Live m"
  shows "\<exists>y m'. (if True then
        crash_bind (put_done N x) (\<lambda>(ok, x).
          if \<not> ok then
            crash_bind (mdio_nl_flush N x) (\<lambda>(err, x).
              if err \<noteq> 0 then Inr (err, x)
              else crash_bind (put_done N x) (\<lambda>(ok, x).
                     Inr (if \<not> ok then - EMSGSIZE else 0, x)))
          else Inr (0, x))
      else Inr (0, x)) = Inr (0, y) \<and> same_run x y \<and> x_msg y = Live m' \<and>
      (if 16 \<le> room m
       then view m' = (view m)\<lparr>v_done := True\<rparr> \<and> recvd (x_sock y) = recvd (x_sock x)
       else view m' = new_view\<lparr>v_done := True\<rparr> \<and>
         recvd (x_sock y) = recvd (x_sock x) @ [(nest_end_view (view m))\<lparr>v_ended := True\<rparr>])"
proof (cases "16 \<le> room m")
  case True
  then obtain m' where "put_done N x = Inr (True, set_msg m' x)" "view m' = (view m)\<lparr>v_done := True\<rparr>"
    using put_done_bytes [OF N x] by blast
  with True show ?thesis
    by (intro exI [of _ "set_msg m' x"] exI [of _ m']) (simp add: set_msg_def same_run_def)
next
  case False
  have p: "put_done N x = Inr (False, x)"
    using netlink_bytesD(13) [OF N False] x by (simp add: put_done_def)
  from flush_bytes [OF N _ x] L obtain y m1 where
    y: "mdio_nl_flush N x = Inr (0, y)" "same_run x y" "x_msg y = Live m1" "view m1 = new_view"
       "room m1 = L - 24"
       "recvd (x_sock y) = recvd (x_sock x) @ [(nest_end_view (view m))\<lparr>v_ended := True\<rparr>]"
    by auto
  have "16 \<le> room m1" using y(5) L by arith
  then obtain m' where "put_done N y = Inr (True, set_msg m' y)" "view m' = (view m1)\<lparr>v_done := True\<rparr>"
    using put_done_bytes [OF N y(3)] by blast
  with False p y show ?thesis
    by (intro exI [of _ "set_msg m' y"] exI [of _ m']) (simp add: set_msg_def same_run_def)
qed

lemma close_bytes:
  assumes N: "netlink_bytes N L room view recvd" and L: "48 \<le> L" and x: "x_msg x = Live m"
    and m: "view m = new_view\<lparr>v_data := cur\<rparr>"
  shows "\<exists>y. mdio_nl_close N x True xerr = Inr (0, y) \<and> same_run x y \<and>
           recvd (x_sock y) = recvd (x_sock x) @ closing (room m) cur xerr"
proof -
  let ?x1 = "set_msg (nla_nest_end N m) x" and ?m1 = "nla_nest_end N m"
  have x1: "x_msg ?x1 = Live ?m1" by (simp add: set_msg_def)
  have sock1: "x_sock ?x1 = x_sock x" by (simp add: set_msg_def)
  have m1: "view ?m1 = new_view\<lparr>v_data := cur\<rparr>" "room ?m1 = room m"
    using m by (simp_all add: netlink_bytesD [OF N] nest_end_view_def new_view_def)
  from error_part_bytes [OF N L x1 m1(1), of xerr]
  obtain y m2 where
    err: "(if xerr \<noteq> 0 then
        crash_bind (put_error N xerr ?x1) (\<lambda>(r, x).
          if r \<noteq> 0 then
            crash_bind (mdio_nl_flush N x) (\<lambda>(err, x).
              if err \<noteq> 0 then Inr (err, x)
              else crash_bind (put_error N xerr x) (\<lambda>(r, x).
                     Inr (if r \<noteq> 0 then - EMSGSIZE else 0, x)))
          else Inr (0, x))
      else Inr (0, ?x1)) = Inr (0, y)" "same_run ?x1 y" and y: "x_msg y = Live m2" and
    m2: "if xerr = 0 then view m2 = view ?m1 \<and> room m2 = room m \<and> recvd (x_sock y) = recvd (x_sock x)
       else if 8 \<le> room m
       then view m2 = (view ?m1)\<lparr>v_error := Some xerr\<rparr> \<and> room m2 = room m - 8 \<and>
         recvd (x_sock y) = recvd (x_sock x)
       else view m2 = new_view\<lparr>v_error := Some xerr\<rparr> \<and> room m2 = L - 32 \<and>
         recvd (x_sock y) = recvd (x_sock x) @ [flushed cur]"
    unfolding m1(2) sock1 by blast
  let ?x2 = "set_msg (genlmsg_end N m2) y"
  have x2: "x_msg ?x2 = Live (genlmsg_end N m2)" by (simp add: set_msg_def)
  have sock: "x_sock ?x2 = x_sock y" by (simp add: set_msg_def)
  from done_part_bytes [OF N L x2] obtain z m3 where
    fin: "(if True then
        crash_bind (put_done N ?x2) (\<lambda>(ok, x).
          if \<not> ok then
            crash_bind (mdio_nl_flush N x) (\<lambda>(err, x).
              if err \<noteq> 0 then Inr (err, x)
              else crash_bind (put_done N x) (\<lambda>(ok, x).
                     Inr (if \<not> ok then - EMSGSIZE else 0, x)))
          else Inr (0, x))
      else Inr (0, ?x2)) = Inr (0, z)" "same_run ?x2 z" and z: "x_msg z = Live m3" and
    m3: "if 16 \<le> room m2
       then view m3 = ((view m2)\<lparr>v_ended := True\<rparr>)\<lparr>v_done := True\<rparr> \<and> recvd (x_sock z) = recvd (x_sock y)
       else view m3 = new_view\<lparr>v_done := True\<rparr> \<and>
         recvd (x_sock z) = recvd (x_sock y) @ [(nest_end_view ((view m2)\<lparr>v_ended := True\<rparr>))\<lparr>v_ended := True\<rparr>]"
    unfolding netlink_bytesD(10,11) [OF N] sock by blast
  obtain n where n: "genlmsg_unicast N m3 (x_sock z) = (0, n)" "recvd n = recvd (x_sock z) @ [view m3]"
    using netlink_bytesD(14) [OF N] by blast
  let ?r = "z\<lparr>x_msg := Freed, x_sock := n\<rparr>"
  have "unicast N z = Inr (0, ?r)" using z n by (simp add: unicast_def)
  moreover have "upd_msg (nla_nest_end N) x = Inr ?x1" "upd_msg (genlmsg_end N) y = Inr ?x2"
    using x y by (simp_all add: upd_msg_def)
  ultimately have "mdio_nl_close N x True xerr = Inr (0, ?r)"
    unfolding mdio_nl_close.simps [of N x True xerr]
    by (simp only: crash_bind.simps err(1) fin(1) prod.case simp_thms if_False)
  moreover have "same_run x ?r" using err(2) fin(2) by (simp add: same_run_def set_msg_def)
  moreover have "recvd (x_sock ?r) = recvd (x_sock x) @ closing (room m) cur xerr"
    using n(2) m1(1) m2 m3 L
    by (auto simp: closing_def flushed_def new_view_def nest_end_view_def split: if_splits)
  ultimately show ?thesis by blast
qed

section \<open>The handler\<close>

lemma eval_bytes:
  assumes "accepted a" and "decode_prog (nla_data a) = Some Q"
    and "x_prog x = nla_data a" "x_prog_len x = int (nla_len a div 8)"
    and "vm_run (k_bus K) Q n 0 (init_mst (x_mdio x)) = Some r"
    and "\<And>k. k < n \<Longrightarrow> \<not> time_after K (clk (Suc k)) (clk 0 + msecs_to_jiffies K (x_timeout_ms x))"
    and "msg_holds (k_nl K) L room view recvd sent x []"
  shows "\<exists>y. mdio_nl_eval K clk n x = Some (Inr (outcome_status r, y)) \<and> \<not> x_locked y \<and>
           x_mdio y = bus (outcome_state r) \<and>
           msg_holds (k_nl K) L room view recvd sent y (out (outcome_state r))"
proof -
  let ?st = "\<lparr>i_regs = replicate 8 0, i_pc = 0, i_xfer = x\<lparr>x_locked := True\<rparr>\<rparr>"
  have "msg_holds (k_nl K) L room view recvd sent (i_xfer ?st) (out (init_mst (x_mdio x)))"
    using assms(7) by (simp add: msg_holds_def init_mst_def)
  then obtain y where
    y: "eval_loop K clk (clk 0 + msecs_to_jiffies K (x_timeout_ms x)) n 1 ?st =
          Some (Inr (outcome_status r, y))" "x_mdio y = bus (outcome_state r)"
       "msg_holds (k_nl K) L room view recvd sent y (out (outcome_state r))"
    using bytes.eval_loop_holds [OF init_inv [OF assms(1-4)] assms(5), where clk = clk and tick = 1
        and N = "k_nl K" and L = L and room = room and view = view and recvd = recvd and sent = sent
        and timeout = "clk 0 + msecs_to_jiffies K (x_timeout_ms x)"] assms(6) by auto
  let ?y = "y\<lparr>x_locked := False\<rparr>"
  have "mdio_nl_eval K clk n x = Some (Inr (outcome_status r, ?y))"
    using y(1) by (simp add: mdio_nl_eval_def Let_def)
  moreover have "msg_holds (k_nl K) L room view recvd sent ?y (out (outcome_state r))"
    using y(3) by (simp add: msg_holds_def)
  ultimately show ?thesis using y(2) by (intro exI [of _ ?y]) simp
qed

lemma cmd_xfer_messages:
  assumes "accepted prog" and "attr_prog info = Some prog"
    and "attr_bus_id info = Some b" and "\<not> attr_data info" and "\<not> attr_error info"
    and "mdio_find_bus K b"
    and "decode_prog (nla_data prog) = Some Q"
    and "vm_run (k_bus K) Q n 0 (init_mst (sys_bus s)) = Some r"
    and "\<And>k. k < n \<Longrightarrow> \<not> time_after K (clk (Suc k))
           (clk 0 + msecs_to_jiffies K (case attr_timeout info of Some t \<Rightarrow> sint t | None \<Rightarrow> 100))"
    and N: "netlink_bytes (k_nl K) L room view recvd" and L: "48 \<le> L"
  shows "\<exists>s'. mdio_nl_cmd_xfer K clk n info s = Some (Inr (0, s')) \<and>
           sys_bus s' = bus (outcome_state r) \<and>
           recvd (sys_sock s') =
             recvd (sys_sock s) @ reply_views L (out (outcome_state r)) (outcome_status r) \<and>
           \<not> sys_locked s' \<and> sys_refs s' = sys_refs s"
proof -
  let ?s = "get_device s" and ?sent = "recvd (sys_sock s)"
  have "24 \<le> L" using L by simp
  from open_bytes [OF N this, of "init_xfer info prog ?s"] obtain x m where
    x: "mdio_nl_open (k_nl K) (init_xfer info prog ?s) = (0, x)" "x_msg x = Live m"
       "view m = new_view" "room m = L - 24" "recvd (x_sock x) = ?sent"
    by (auto simp: init_xfer_def)
  have "vm_run (k_bus K) Q n 0 (init_mst (x_mdio x)) = Some r"
    using assms(8) by (simp add: open_init(3) [OF x(1)])
  moreover have "msg_holds (k_nl K) L room view recvd ?sent x []"
    using N L x by (simp add: msg_holds_def chunks_def new_view_def)
  ultimately obtain y where
    y: "mdio_nl_eval K clk n x = Some (Inr (outcome_status r, y))" "\<not> x_locked y"
       "x_mdio y = bus (outcome_state r)"
       "msg_holds (k_nl K) L room view recvd ?sent y (out (outcome_state r))"
    using eval_bytes [OF assms(1,7) open_init(1,2) [OF x(1)], where clk = clk] assms(9)
    unfolding open_init(5) [OF x(1)] by blast
  obtain full cur where fc: "chunks ((L - 24) div 4) (out (outcome_state r)) = (full, cur)" by fastforce
  obtain m' where m': "x_msg y = Live m'" "view m' = new_view\<lparr>v_data := cur\<rparr>"
      "room m' = L - 24 - 4 * length cur" "recvd (x_sock y) = ?sent @ map flushed full"
    using y(4) unfolding msg_holds_def fc by auto
  obtain z where z: "mdio_nl_close (k_nl K) y True (outcome_status r) = Inr (0, z)" "same_run y z"
      "recvd (x_sock z) = recvd (x_sock y) @ closing (room m') cur (outcome_status r)"
    using close_bytes [OF N L m'(1,2)] by blast
  have "xfer_run K clk n info prog ?s = Some (Inr (0, put_device z ?s))"
    by (simp add: xfer_run_def x(1) y(1) z(1))
  then have "mdio_nl_cmd_xfer K clk n info s = Some (Inr (0, put_device z ?s))"
    using assms(2-6) by (simp add: mdio_nl_cmd_xfer_def)
  moreover have "recvd (sys_sock (put_device z ?s)) =
      ?sent @ reply_views L (out (outcome_state r)) (outcome_status r)"
    by (simp add: reply_views_def fc z(3) m'(3,4))
  ultimately show ?thesis
    using y(2,3) z(2) by (intro exI [of _ "put_device z ?s"]) (simp add: same_run_def)
qed

text \<open>
  C3. The reply of the handler, message by message: the values fill one message after the other,
  in order; the last message has the error of the program, if there was one, and the end mark.
  When the end mark does not fit behind the last message it is put into a new message whose length
  is never set, and when the error has just been put its bytes have become two more values.
\<close>

theorem reply_messages:
  assumes "accepted prog" and "attr_prog info = Some prog"
    and "attr_bus_id info = Some b" and "\<not> attr_data info" and "\<not> attr_error info"
    and "mdio_find_bus K b"
    and "decode_prog (nla_data prog) = Some Q"
    and "vm_run (k_bus K) Q n 0 (init_mst (sys_bus s)) = Some r"
    and "\<And>k. k < n \<Longrightarrow> \<not> time_after K (clk (Suc k))
           (clk 0 + msecs_to_jiffies K (case attr_timeout info of Some t \<Rightarrow> sint t | None \<Rightarrow> 100))"
    and "netlink_bytes (k_nl K) L room view recvd" and "48 \<le> L"
    and "chunks ((L - 24) div 4) (out (outcome_state r)) = (full, cur)"
  shows "\<exists>s'. mdio_nl_cmd_xfer K clk n info s = Some (Inr (0, s')) \<and>
           recvd (sys_sock s') = recvd (sys_sock s) @ map flushed full @
             closing (L - 24 - 4 * length cur) cur (outcome_status r) \<and>
           concat full @ cur = out (outcome_state r) \<and>
           (\<forall>c \<in> set full. length c = (L - 24) div 4) \<and> length cur \<le> (L - 24) div 4"
  using cmd_xfer_messages [OF assms(1-11)] chunks_all [OF _ assms(12)] assms(11,12)
  by (auto simp: reply_views_def)

section \<open>A concrete netlink\<close>

record byte_msg =
  bm_view :: msg_view
  bm_room :: nat

definition byte_nl :: "nat \<Rightarrow> (byte_msg, msg_view list) nl_api" where
  "byte_nl L =
     \<lparr>nlmsg_new = (\<lambda>n. (Some \<lparr>bm_view = new_view, bm_room = L\<rparr>, n)),
      genlmsg_put = (\<lambda>m. if 20 \<le> bm_room m then Some (m\<lparr>bm_room := bm_room m - 20\<rparr>) else None),
      nla_nest_start = (\<lambda>m. if 4 \<le> bm_room m then Some (m\<lparr>bm_room := bm_room m - 4\<rparr>) else None),
      nla_put_nohdr = (\<lambda>m v. if 4 \<le> bm_room m
         then (0, \<lparr>bm_view = (bm_view m)\<lparr>v_data := v_data (bm_view m) @ [v]\<rparr>, bm_room = bm_room m - 4\<rparr>)
         else (- EMSGSIZE, m)),
      nla_nest_end = (\<lambda>m. m\<lparr>bm_view := nest_end_view (bm_view m)\<rparr>),
      nla_put_error = (\<lambda>m e. if 8 \<le> bm_room m
         then (0, \<lparr>bm_view = (bm_view m)\<lparr>v_error := Some e\<rparr>, bm_room = bm_room m - 8\<rparr>)
         else (- EMSGSIZE, m)),
      genlmsg_end = (\<lambda>m. m\<lparr>bm_view := (bm_view m)\<lparr>v_ended := True\<rparr>\<rparr>),
      nlmsg_put_done = (\<lambda>m. if 16 \<le> bm_room m
         then Some \<lparr>bm_view = (bm_view m)\<lparr>v_done := True\<rparr>, bm_room = bm_room m - 16\<rparr> else None),
      genlmsg_unicast = (\<lambda>m n. (0, n @ [bm_view m]))\<rparr>"

lemma byte_nl_ok: "netlink_bytes (byte_nl L) L bm_room bm_view id"
  unfolding netlink_bytes_def by (simp add: byte_nl_def)

definition byte_kernel :: "nat \<Rightarrow> (byte_msg, msg_view list, mem) kernel" where
  "byte_kernel L =
     \<lparr>k_bus = ex_bus, k_nl = byte_nl L, time_after = (\<lambda>a b. b < a), msecs_to_jiffies = word_of_int,
      mdio_find_bus = (\<lambda>b. b = ''fixed-0'')\<rparr>"

lemma byte_kernel_simps [simp]:
  "k_bus (byte_kernel L) = ex_bus" "k_nl (byte_kernel L) = byte_nl L"
  "time_after (byte_kernel L) a b = (b < a)" "msecs_to_jiffies (byte_kernel L) = word_of_int"
  "mdio_find_bus (byte_kernel L) c = (c = ''fixed-0'')"
  by (simp_all add: byte_kernel_def)

definition byte_sys :: "(msg_view list, mem) ksys" where
  "byte_sys = \<lparr>sys_sock = [], sys_bus = (\<lambda>d r. d + r), sys_locked = False, sys_refs = 0\<rparr>"

theorem reply_messages_witness:
  "\<exists>s'. mdio_nl_cmd_xfer (byte_kernel 48) (\<lambda>_. 0) 20 (ex_info ex_prog) byte_sys = Some (Inr (0, s')) \<and>
        sys_sock s' = [\<lparr>v_data = [3, 4], v_error = None, v_ended = True, v_done = True\<rparr>]"
  using reply_messages [OF ex_accepted, where K = "byte_kernel 48" and L = 48 and room = bm_room
      and view = bm_view and recvd = id and clk = "\<lambda>_. 0" and n = 20 and info = "ex_info ex_prog"
      and s = byte_sys and b = "''fixed-0''" and Q = ex_code and full = "[]" and cur = "[3, 4]"]
    byte_nl_ok [of 48] ex_decode ex_run
  by (auto simp: byte_sys_def ex_sys_def chunks_one closing_def)

end
