(* ===== verification/Paged_Phy.thy ===== *)
theory Paged_Phy
  imports Phy
begin

text \<open>
  \<^verbatim>\<open>src/mdio/paged-phy.c\<close>: PHYs whose registers are banked behind a page register. Every
  access saves the current page in register 1, selects the page, and puts the old page back.
\<close>

section \<open>The driver\<close>

record pphy_device =
  pp_id :: u16
  pp_page_reg :: u8
  pp_page_names :: "(string \<times> u8) list option"

definition pphy_enter :: "pphy_device \<Rightarrow> u8 \<Rightarrow> mdio_prog \<Rightarrow> mdio_prog" where
  "pphy_enter pdev page prog =
     (let prog = mdio_prog_push prog
            (INSN OP_READ (IMM (pp_id pdev)) (IMM (ucast (pp_page_reg pdev))) (REG 1));
          prog = mdio_prog_push prog (INSN OP_JEQ (REG 1) (IMM (ucast page)) (IMM 1)) in
      mdio_prog_push prog
        (INSN OP_WRITE (IMM (pp_id pdev)) (IMM (ucast (pp_page_reg pdev))) (IMM (ucast page))))"

definition pphy_leave :: "pphy_device \<Rightarrow> u8 \<Rightarrow> mdio_prog \<Rightarrow> mdio_prog" where
  "pphy_leave pdev page prog =
     (let prog = mdio_prog_push prog (INSN OP_JEQ (REG 1) (IMM (ucast page)) (IMM 1)) in
      mdio_prog_push prog
        (INSN OP_WRITE (IMM (pp_id pdev)) (IMM (ucast (pp_page_reg pdev))) (REG 1)))"

definition reg_page :: "u32 \<Rightarrow> u8" where
  "reg_page reg = ucast (drop_bit 16 reg)"

definition pphy_read :: "pphy_device \<Rightarrow> u32 \<Rightarrow> mdio_prog \<Rightarrow> int \<times> mdio_prog" where
  "pphy_read pdev reg prog =
     (let page = reg_page reg;
          reg = reg AND 0x1f;
          prog = pphy_enter pdev page prog;
          prog = mdio_prog_push prog (INSN OP_READ (IMM (pp_id pdev)) (IMM (ucast reg)) (REG 0)) in
      (0, pphy_leave pdev page prog))"

definition pphy_write :: "pphy_device \<Rightarrow> u32 \<Rightarrow> u32 \<Rightarrow> mdio_prog \<Rightarrow> int \<times> mdio_prog" where
  "pphy_write pdev reg val prog =
     (let page = reg_page reg;
          reg = reg AND 0x1f;
          prog = pphy_enter pdev page prog;
          prog = mdio_prog_push prog
                   (INSN OP_WRITE (IMM (pp_id pdev)) (IMM (ucast reg)) (of_arg32 val)) in
      (0, pphy_leave pdev page prog))"

definition pphy_dump ::
  "pphy_device \<Rightarrow> u32 \<times> u32 \<Rightarrow> mdio_prog \<Rightarrow> (int \<times> mdio_prog \<times> u32 \<times> u32) option" where
  "pphy_dump pdev rng prog =
     (let page = reg_page (fst rng);
          start = fst rng AND 0x1f;
          prog = pphy_enter pdev page prog in
      map_option (\<lambda>rs.
          let prog = foldl (\<lambda>prog reg.
                mdio_prog_push
                  (mdio_prog_push prog (INSN OP_READ (IMM (pp_id pdev)) (IMM (ucast reg)) (REG 0)))
                  (INSN OP_EMIT (REG 0) 0 0)) prog rs in
          (0, pphy_leave pdev page prog, start, snd rng))
        (range_regs start (snd rng)))"

section \<open>Page and register arguments\<close>

definition pphy_parse_page :: "pphy_device \<Rightarrow> string \<Rightarrow> parse_err + u8" where
  "pphy_parse_page pdev tok =
     (case map_of (case pp_page_names pdev of Some ns \<Rightarrow> ns | None \<Rightarrow> []) tok of
        Some page \<Rightarrow> Inr page
      | None \<Rightarrow>
          (case strtoull tok of (r, end0, _) \<Rightarrow>
             if end0 \<noteq> [] then Inl (Not_A_Page tok)
             else if 255 < r then Inl (Page_Out_Of_Range r)
             else Inr (ucast r)))"

definition pphy_parse_reg ::
  "pphy_device \<Rightarrow> u32 \<Rightarrow> string list \<Rightarrow> bool \<Rightarrow> parse_err + (string list \<times> u32 \<times> u32)" where
  "pphy_parse_reg pdev mx argv rege =
     (case argv_pop argv of
        (None, _) \<Rightarrow> Inl Expected_Page
      | (Some str, argv) \<Rightarrow>
          (case strtok CHR '':'' str of
             None \<Rightarrow> Inl Expected_Page
           | Some (tok, rest) \<Rightarrow>
               (case pphy_parse_page pdev tok of
                  Inl e \<Rightarrow> Inl e
                | Inr page \<Rightarrow>
                    (case strtok CHR '':'' rest of
                       None \<Rightarrow> Inl Expected_Register
                     | Some (tok, _) \<Rightarrow>
                         (case mdio_parse_range mx tok rege of
                            Inl e \<Rightarrow> Inl (Bad_Page_Register e)
                          | Inr (rs, re) \<Rightarrow>
                              Inr (argv, rs OR push_bit 16 (ucast page), re))))))"

section \<open>Commands\<close>

definition mva_status_prog :: "pphy_device \<Rightarrow> mdio_prog" where
  "mva_status_prog pdev =
     [INSN OP_READ (IMM (pp_id pdev)) (IMM 0) (REG 0),
      INSN OP_EMIT (REG 0) 0 0,
      INSN OP_READ (IMM (pp_id pdev)) (IMM 1) (REG 0),
      INSN OP_EMIT (REG 0) 0 0,
      INSN OP_READ (IMM (pp_id pdev)) (IMM 2) (REG 0),
      INSN OP_EMIT (REG 0) 0 0,
      INSN OP_READ (IMM (pp_id pdev)) (IMM 3) (REG 0),
      INSN OP_EMIT (REG 0) 0 0,
      INSN OP_READ (IMM (pp_id pdev)) (IMM (ucast (pp_page_reg pdev))) (REG 0),
      INSN OP_EMIT (REG 0) 0 0]"

definition mva_status_cb :: "report xfer_cb" where
  "mva_status_cb data err =
     (if length data \<noteq> 5 then (1, [])
      else if data ! 2 = 0xffff \<and> data ! 3 = 0xffff then (1, [No_Device_Found])
      else (err,
            [Bmcr (ucast (data ! 0)), Bmsr (ucast (data ! 1)),
             Phy_Id (ucast (data ! 2)) (ucast (data ! 3)), Current_Page (data ! 4 AND 0xff)]))"

definition mva_exec_status ::
  "kernel_link \<Rightarrow> string \<Rightarrow> pphy_device \<Rightarrow> int \<times> report list" where
  "mva_exec_status link bus_id pdev =
     (case mdio_xfer link bus_id (mva_status_prog pdev) mva_status_cb of (err, reps) \<Rightarrow>
        (if err \<noteq> 0 then 1 else 0, reps))"

definition pphy_mdio_device :: "string \<Rightarrow> pphy_device \<Rightarrow> mdio_device" where
  "pphy_mdio_device bus_id pdev =
     \<lparr>dev_bus = bus_id, mem_max = 31, mem_width = 16,
      drv_read = pphy_read pdev, drv_write = pphy_write pdev,
      drv_dump = Some (pphy_dump pdev), drv_parse_reg = Some (pphy_parse_reg pdev 31),
      drv_parse_val = None\<rparr>"

definition mva_device :: "u16 \<Rightarrow> pphy_device" where
  "mva_device dev_id =
     \<lparr>pp_id = dev_id, pp_page_reg = 0x16,
      pp_page_names = Some [(''copper'', 0), (''cu'', 0), (''fiber'', 1), (''fibre'', 1)]\<rparr>"

definition mscc_device :: "u16 \<Rightarrow> pphy_device" where
  "mscc_device dev_id = \<lparr>pp_id = dev_id, pp_page_reg = 0x1f, pp_page_names = None\<rparr>"

definition mva_exec ::
  "phy_uapi \<Rightarrow> kernel_link \<Rightarrow> string \<Rightarrow> string list \<Rightarrow> (int \<times> report list) option" where
  "mva_exec U link bus_id argv =
     (case argv_pop argv of
        (None, _) \<Rightarrow> Some (1, [])
      | (Some arg, argv) \<Rightarrow>
          (case mdio_parse_dev U arg True of
             Inl e \<Rightarrow> Some (1, [])
           | Inr dev_id \<Rightarrow>
               if argv_peek argv = None \<or> argv_peek argv = Some ''status''
               then Some (mva_exec_status link bus_id (mva_device dev_id))
               else with_text
                      (mdio_common_exec link (pphy_mdio_device bus_id (mva_device dev_id)) argv)))"

definition mscc_exec ::
  "phy_uapi \<Rightarrow> kernel_link \<Rightarrow> string \<Rightarrow> string list \<Rightarrow> (int \<times> report list) option" where
  "mscc_exec U link bus_id argv =
     (case argv_pop argv of
        (None, _) \<Rightarrow> Some (1, [])
      | (Some arg, argv) \<Rightarrow>
          (case mdio_parse_dev U arg True of
             Inl e \<Rightarrow> Some (1, [])
           | Inr dev_id \<Rightarrow>
               with_text
                 (mdio_common_exec link (pphy_mdio_device bus_id (mscc_device dev_id)) argv)))"

section \<open>What an access does\<close>

text \<open>Selecting a page gives the page that was selected before.\<close>

definition page_select :: "'w bus_api \<Rightarrow> pphy_device \<Rightarrow> u16 \<Rightarrow> ('w, u16) bm" where
  "page_select B pdev page =
     bbind (brd B (pp_id pdev) (ucast (pp_page_reg pdev))) (\<lambda>cur.
       if cur = page then bret cur
       else bmap (\<lambda>_. cur) (bwr B (pp_id pdev) (ucast (pp_page_reg pdev)) page))"

definition page_restore :: "'w bus_api \<Rightarrow> pphy_device \<Rightarrow> u16 \<Rightarrow> u16 \<Rightarrow> ('w, unit) bm" where
  "page_restore B pdev page cur =
     (if cur = page then bret () else bwr B (pp_id pdev) (ucast (pp_page_reg pdev)) cur)"

text \<open>An access in a page.\<close>

definition in_page ::
  "'w bus_api \<Rightarrow> pphy_device \<Rightarrow> u16 \<Rightarrow> ('w, 'a) bm \<Rightarrow> ('w, 'a) bm" where
  "in_page B pdev page m =
     bbind (page_select B pdev page) (\<lambda>cur.
     bbind m (\<lambda>v. bmap (\<lambda>_. v) (page_restore B pdev page cur)))"

definition enter_code :: "pphy_device \<Rightarrow> u8 \<Rightarrow> mdio_prog" where
  "enter_code pdev page =
     [INSN OP_READ (IMM (pp_id pdev)) (IMM (ucast (pp_page_reg pdev))) (REG 1),
      INSN OP_JEQ (REG 1) (IMM (ucast page)) (IMM 1),
      INSN OP_WRITE (IMM (pp_id pdev)) (IMM (ucast (pp_page_reg pdev))) (IMM (ucast page))]"

definition leave_code :: "pphy_device \<Rightarrow> u8 \<Rightarrow> mdio_prog" where
  "leave_code pdev page =
     [INSN OP_JEQ (REG 1) (IMM (ucast page)) (IMM 1),
      INSN OP_WRITE (IMM (pp_id pdev)) (IMM (ucast (pp_page_reg pdev))) (REG 1)]"

lemma pphy_enter_code: "pphy_enter pdev page p = p @ enter_code pdev page"
  by (simp add: pphy_enter_def enter_code_def mdio_prog_push_def Let_def)

lemma pphy_leave_code: "pphy_leave pdev page p = p @ leave_code pdev page"
  by (simp add: pphy_leave_def leave_code_def mdio_prog_push_def Let_def)

text \<open>The relation between the two: register 1 holds the old page.\<close>

definition with_r1 :: "('x \<Rightarrow> regfile \<Rightarrow> bool) \<Rightarrow> 'x \<times> u16 \<Rightarrow> regfile \<Rightarrow> bool" where
  "with_r1 P xc r \<longleftrightarrow> r 1 = snd xc \<and> P (fst xc) r"

lemma enter_performs:
  assumes P: "\<And>x r v. P x r \<Longrightarrow> P x (r(1 := v))"
  shows "performs B (enter_code pdev page) P
           (\<lambda>x. bmap (\<lambda>cur. (x, cur)) (page_select B pdev (ucast page))) (with_r1 P)"
proof -
  let ?d = "pp_id pdev" and ?pr = "ucast (pp_page_reg pdev) :: u16" and ?pg = "ucast page :: u16"
  have rd: "performs B [INSN OP_READ (IMM ?d) (IMM ?pr) (REG 1)] P
      (\<lambda>x. bmap (\<lambda>cur. (x, cur)) (brd B ?d ?pr)) (with_r1 P)"
    by (rule performs_read [of _ "Imm ?d" "Imm ?pr" 1])
       (use P in \<open>auto simp: insn_simps with_r1_def\<close>)
  have wr: "performs B [INSN OP_WRITE (IMM ?d) (IMM ?pr) (IMM ?pg)] (with_r1 P)
      (\<lambda>xc. bmap (\<lambda>_. xc) (bwr B ?d ?pr ?pg)) (with_r1 P)"
    by (rule performs_set)
  have "performs B (INSN OP_JEQ (REG 1) (IMM ?pg) (IMM 1) #
        [INSN OP_WRITE (IMM ?d) (IMM ?pr) (IMM ?pg)]) (with_r1 P)
      (\<lambda>xc. if snd xc = ?pg then bret xc else bmap (\<lambda>_. xc) (bwr B ?d ?pr ?pg)) (with_r1 P)"
    by (rule performs_skip [where v = "VJEQ (Reg 1) (Imm ?pg) 1" and a = "Reg 1" and b = "Imm ?pg"
          and j = 1 and t = True, OF wr])
       (auto simp: insn_simps with_r1_def)
  from performs_seq [OF rd this] show ?thesis
    by (simp add: enter_code_def page_select_def bbind_bmap bmap_bbind bmap_if cong: if_cong)
qed

lemma leave_performs:
  "performs B (leave_code pdev page) (with_r1 P)
     (\<lambda>xc. bmap (\<lambda>_. fst xc) (page_restore B pdev (ucast page) (snd xc))) P"
proof -
  let ?d = "pp_id pdev" and ?pr = "ucast (pp_page_reg pdev) :: u16" and ?pg = "ucast page :: u16"
  have wr: "performs B [INSN OP_WRITE (IMM ?d) (IMM ?pr) (REG 1)] (with_r1 P)
      (\<lambda>xc. bmap (\<lambda>_. fst xc) (bwr B ?d ?pr (snd xc))) P"
    by (rule performs_write [of _ "Imm ?d" "Imm ?pr" "Reg 1"])
       (auto simp: insn_simps with_r1_def)
  have "performs B (INSN OP_JEQ (REG 1) (IMM ?pg) (IMM 1) #
        [INSN OP_WRITE (IMM ?d) (IMM ?pr) (REG 1)]) (with_r1 P)
      (\<lambda>xc. if snd xc = ?pg then bret (fst xc) else bmap (\<lambda>_. fst xc) (bwr B ?d ?pr (snd xc))) P"
    by (rule performs_skip [where v = "VJEQ (Reg 1) (Imm ?pg) 1" and a = "Reg 1" and b = "Imm ?pg"
          and j = 1 and t = True, OF wr])
       (auto simp: insn_simps with_r1_def)
  then show ?thesis
    by (simp add: leave_code_def page_restore_def bmap_if cong: if_cong)
qed

text \<open>Any access that keeps register 1 can be done in a page.\<close>

lemma in_page_performs:
  assumes "\<And>x r v. P x r \<Longrightarrow> P x (r(1 := v))"
    and "performs B c (with_r1 P) (\<lambda>(x, cur). bmap (\<lambda>y. (y, cur)) (m x)) (with_r1 Q)"
  shows "performs B (enter_code pdev page @ c @ leave_code pdev page) P
           (\<lambda>x. in_page B pdev (ucast page) (m x)) Q"
  using performs_seq [OF enter_performs [where P = P and page = page and pdev = pdev, OF assms(1)]
      performs_seq [OF assms(2) leave_performs [where page = page and pdev = pdev]]]
  by (simp add: in_page_def bbind_bmap bmap_bbind case_prod_unfold)

section \<open>The contract\<close>

lemma with_r1_keep [simp]: "with_r1 (\<lambda>(u :: unit, g). keep g) xc r \<longleftrightarrow> r 1 = snd xc \<and> keep (snd (fst xc)) r"
  by (auto simp: with_r1_def case_prod_unfold)

definition pphy_rd :: "'w bus_api \<Rightarrow> pphy_device \<Rightarrow> u32 \<Rightarrow> ('w, u16) bm" where
  "pphy_rd B pdev reg =
     in_page B pdev (ucast (reg_page reg)) (brd B (pp_id pdev) (ucast (reg AND 0x1f)))"

definition pphy_wr :: "'w bus_api \<Rightarrow> pphy_device \<Rightarrow> u32 \<Rightarrow> u16 \<Rightarrow> ('w, unit) bm" where
  "pphy_wr B pdev reg v =
     in_page B pdev (ucast (reg_page reg)) (bwr B (pp_id pdev) (ucast (reg AND 0x1f)) v)"

lemma in_page_bmap: "in_page B pdev page (bmap h m) = bmap h (in_page B pdev page m)"
  by (simp add: in_page_def bbind_bmap bmap_bbind)

lemma pphy_read_code:
  "read_code B (enter_code pdev (reg_page reg) @
      [INSN OP_READ (IMM (pp_id pdev)) (IMM (ucast (reg AND 0x1f))) (REG 0)] @
      leave_code pdev (reg_page reg)) (pphy_rd B pdev reg)"
proof -
  let ?Q = "\<lambda>(v, g) r. r 0 = v \<and> keep g r"
  have "performs B [INSN OP_READ (IMM (pp_id pdev)) (IMM (ucast (reg AND 0x1f))) (REG 0)]
      (with_r1 (\<lambda>(u :: unit, g). keep g))
      (\<lambda>xc. bmap (\<lambda>v. ((v, snd (fst xc)), snd xc)) (brd B (pp_id pdev) (ucast (reg AND 0x1f))))
      (with_r1 ?Q)"
    by (rule performs_read [where h = "\<lambda>xc v. ((v, snd (fst xc)), snd xc)" and a = "Imm (pp_id pdev)"
          and b = "Imm (ucast (reg AND 0x1f))" and k = 0])
       (simp_all add: insn_simps, simp add: with_r1_def)
  then have "performs B (enter_code pdev (reg_page reg) @
      [INSN OP_READ (IMM (pp_id pdev)) (IMM (ucast (reg AND 0x1f))) (REG 0)] @
      leave_code pdev (reg_page reg)) (\<lambda>(u :: unit, g). keep g)
      (\<lambda>x. in_page B pdev (ucast (reg_page reg))
         (bmap (\<lambda>v. (v, snd x)) (brd B (pp_id pdev) (ucast (reg AND 0x1f))))) ?Q"
    by (intro in_page_performs) (auto simp: case_prod_unfold)
  then show ?thesis
    by (simp add: read_code_def case_prod_unfold in_page_bmap pphy_rd_def)
qed

lemma pphy_write_code:
  assumes "decode_ri a' = Some a" and a: "a \<noteq> Reg 1"
  shows "write_code B (enter_code pdev (reg_page reg) @
      [INSN OP_WRITE (IMM (pp_id pdev)) (IMM (ucast (reg AND 0x1f))) a'] @
      leave_code pdev (reg_page reg)) a (pphy_wr B pdev reg)"
proof -
  let ?P = "\<lambda>(v, g) r. opv a r = v \<and> keep g r"
  have "performs B [INSN OP_WRITE (IMM (pp_id pdev)) (IMM (ucast (reg AND 0x1f))) a'] (with_r1 ?P)
      (\<lambda>xc. bmap (\<lambda>_. (((), snd (fst xc)), snd xc))
         (bwr B (pp_id pdev) (ucast (reg AND 0x1f)) (fst (fst xc))))
      (with_r1 (\<lambda>(u :: unit, g). keep g))"
    by (rule performs_write [where a = "Imm (pp_id pdev)"
          and b = "Imm (ucast (reg AND 0x1f))" and c = a])
       (simp_all add: insn_simps assms(1), auto simp: with_r1_def)
  moreover have "?P x (r(1 := v))" if "?P x r" for x r v
    using that a by (cases a) auto
  ultimately have "performs B (enter_code pdev (reg_page reg) @
      [INSN OP_WRITE (IMM (pp_id pdev)) (IMM (ucast (reg AND 0x1f))) a'] @
      leave_code pdev (reg_page reg)) ?P
      (\<lambda>x. in_page B pdev (ucast (reg_page reg))
         (bmap (\<lambda>_. ((), snd x)) (bwr B (pp_id pdev) (ucast (reg AND 0x1f)) (fst x))))
      (\<lambda>(u :: unit, g). keep g)"
    by (intro in_page_performs) (auto simp: case_prod_unfold)
  then show ?thesis
    by (simp add: write_code_def case_prod_unfold in_page_bmap pphy_wr_def)
qed

interpretation pphy: mdio_reg_driver B "pphy_read pdev" "pphy_write pdev"
    "pphy_rd B pdev" "pphy_wr B pdev" for B pdev
proof unfold_locales
  fix reg
  show "reads_as B (pphy_read pdev reg) (pphy_rd B pdev reg)"
    unfolding reads_as_def
    by (rule exI, rule conjI [OF _ pphy_read_code])
       (simp add: appends_def pphy_read_def pphy_enter_code pphy_leave_code mdio_prog_push_def
          enter_code_def leave_code_def Let_def)
next
  have w: "writes_as B (pphy_write pdev reg (arg32 a')) a (pphy_wr B pdev reg)"
    if "decode_ri (of_arg32 (arg32 a')) = Some a" "a \<noteq> Reg 1" for a' a reg
    unfolding writes_as_def
    by (rule exI, rule conjI [OF _ pphy_write_code [OF that]])
       (simp add: appends_def pphy_write_def pphy_enter_code pphy_leave_code mdio_prog_push_def
          enter_code_def leave_code_def Let_def)
  show "writes_as B (pphy_write pdev reg (arg32 (IMM n))) (Imm n) (pphy_wr B pdev reg)" for reg n
    by (rule w) (rule decode_ri_arg, simp)
  show "writes_as B (pphy_write pdev reg (arg32 (REG (word_of_nat k)))) (Reg k) (pphy_wr B pdev reg)"
    if "k < 8" "k \<noteq> 1" for reg k
    by (rule w) (rule decode_ri_arg(2) [OF that(1)], use that(2) in simp)
qed

lemma pphy_device_simps [simp]:
  "drv_read (pphy_mdio_device b pdev) = pphy_read pdev"
  "drv_write (pphy_mdio_device b pdev) = pphy_write pdev"
  "drv_dump (pphy_mdio_device b pdev) = Some (pphy_dump pdev)"
  by (simp_all add: pphy_mdio_device_def)

section \<open>The dump\<close>

lemma pphy_dump_foldl:
  "foldl (\<lambda>prog reg.
       mdio_prog_push
         (mdio_prog_push prog (INSN OP_READ (IMM d) (IMM (ucast reg)) (REG 0)))
         (INSN OP_EMIT (REG 0) 0 0)) prog rs = prog @ status_code d (map ucast rs)"
  by (induction rs arbitrary: prog) (simp_all add: status_code_def mdio_prog_push_def)

lemma pphy_dump_performs:
  fixes B :: "'w bus_api"
  shows "performs B (enter_code pdev page @ status_code (pp_id pdev) rs @ leave_code pdev page) any_regs
     (\<lambda>_ :: unit. in_page B pdev (ucast page) (dump_spec (brd B (pp_id pdev)) rs)) any_regs"
proof -
  have "performs B (status_code (pp_id pdev) rs) (with_r1 (any_regs :: unit \<Rightarrow> _))
      (\<lambda>xc. bmap (\<lambda>_. xc) (dump_spec (brd B (pp_id pdev)) rs)) (with_r1 any_regs)"
    by (rule status_code_keeps) (simp add: with_r1_def)
  moreover have "(\<lambda>(x :: unit, cur :: u16). bmap (\<lambda>y. (y, cur)) m) = (\<lambda>xc. bmap (\<lambda>_. xc) m)"
    for m :: "('w, unit) bm"
    by (rule ext) auto
  ultimately have "performs B (status_code (pp_id pdev) rs) (with_r1 (any_regs :: unit \<Rightarrow> _))
      (\<lambda>(x, cur). bmap (\<lambda>y. (y, cur)) (dump_spec (brd B (pp_id pdev)) rs)) (with_r1 any_regs)"
    by (simp only:)
  then show ?thesis
    by (intro in_page_performs) simp_all
qed

section \<open>On a paged PHY\<close>

text \<open>
  What the data sheets say of such a PHY, as a hypothesis on the bus: the page register reads
  back what was written to it and has no other effect, the other registers belong to the page
  selected. \<open>page\<close> and \<open>bank\<close> observe the state of the device, \<open>sel\<close> and \<open>upd\<close> change it.
\<close>

definition paged_hw ::
  "'w bus_api \<Rightarrow> pphy_device \<Rightarrow> ('w \<Rightarrow> u16) \<Rightarrow> (u16 \<Rightarrow> u16 \<Rightarrow> 'w \<Rightarrow> u16) \<Rightarrow> (u16 \<Rightarrow> 'w \<Rightarrow> 'w) \<Rightarrow>
   (u16 \<Rightarrow> u16 \<Rightarrow> u16 \<Rightarrow> 'w \<Rightarrow> 'w) \<Rightarrow> bool" where
  "paged_hw B pdev page bank sel upd \<longleftrightarrow>
     (\<forall>w. bus_read B (pp_id pdev) (ucast (pp_page_reg pdev)) w = (uint (page w), w)) \<and>
     (\<forall>v w. bus_write B (pp_id pdev) (ucast (pp_page_reg pdev)) v w = (0, sel v w)) \<and>
     (\<forall>r w. r \<noteq> ucast (pp_page_reg pdev) \<longrightarrow>
        bus_read B (pp_id pdev) r w = (uint (bank (page w) r w), w)) \<and>
     (\<forall>r v w. r \<noteq> ucast (pp_page_reg pdev) \<longrightarrow>
        bus_write B (pp_id pdev) r v w = (0, upd (page w) r v w)) \<and>
     (\<forall>v w. page (sel v w) = v) \<and> (\<forall>v w. sel (page w) (sel v w) = w) \<and>
     (\<forall>p r v w. bank p r (sel v w) = bank p r w) \<and>
     (\<forall>p r v q w. sel q (upd p r v w) = upd p r v (sel q w)) \<and>
     (\<forall>p r v w. page (upd p r v w) = page w) \<and>
     (\<forall>w. sel (page w) w = w)"

lemma paged_hwD:
  assumes "paged_hw B pdev page bank sel upd"
  shows "r \<noteq> ucast (pp_page_reg pdev) \<Longrightarrow> bus_read B (pp_id pdev) r w = (uint (bank (page w) r w), w)"
    and "r \<noteq> ucast (pp_page_reg pdev) \<Longrightarrow> bus_write B (pp_id pdev) r v w = (0, upd (page w) r v w)"
    and "page (sel v w) = v" "sel (page w) (sel v w) = w" "bank p r (sel v w) = bank p r w"
    and "sel q (upd p r v w) = upd p r v (sel q w)" "page (upd p r v w) = page w"
  using assms unfolding paged_hw_def by - (elim conjE, simp)+

lemma page_select_hw:
  assumes "paged_hw B pdev page bank sel upd"
  shows "page_select B pdev p (w, o') = Some (Inr (page w), sel p w, o')"
proof -
  have "brd B (pp_id pdev) (ucast (pp_page_reg pdev)) (w, o') = Some (Inr (page w), w, o')"
    using assms by (intro brd_ok) (simp add: paged_hw_def)
  moreover have "bwr B (pp_id pdev) (ucast (pp_page_reg pdev)) p (w, o') = Some (Inr (), sel p w, o')"
    using assms by (intro bwr_ok) (simp add: paged_hw_def)
  moreover have "sel p w = w" if "page w = p" using assms that unfolding paged_hw_def by metis
  ultimately show ?thesis
    by (auto simp: page_select_def bbind_ok bmap_ok bret_def)
qed

lemma page_restore_hw:
  assumes "paged_hw B pdev page bank sel upd" and "page w' = p"
  shows "page_restore B pdev p cur (w', o') = Some (Inr (), sel cur w', o')"
proof -
  have "bwr B (pp_id pdev) (ucast (pp_page_reg pdev)) cur (w', o') = Some (Inr (), sel cur w', o')"
    using assms by (intro bwr_ok) (simp add: paged_hw_def)
  moreover have "sel p w' = w'" using assms unfolding paged_hw_def by metis
  ultimately show ?thesis by (auto simp: page_restore_def bret_def)
qed

lemma in_page_hw:
  assumes hw: "paged_hw B pdev page bank sel upd"
    and m: "m (sel p w, o') = Some (Inr y, w', o'')" and "page w' = p"
  shows "in_page B pdev p m (w, o') = Some (Inr y, sel (page w) w', o'')"
  using page_select_hw [OF hw, of p w o'] page_restore_hw [OF hw assms(3), of "page w" o''] m
  by (simp add: in_page_def bbind_ok bmap_ok)

text \<open>A PHY with a page register at 0x16 and 2\<open>^\<close>16 pages, for the instances of the theorems.\<close>

type_synonym ex_phy = "u16 \<times> (u16 \<Rightarrow> u16 \<Rightarrow> u16)"

definition ex_upd :: "u16 \<Rightarrow> u16 \<Rightarrow> u16 \<Rightarrow> ex_phy \<Rightarrow> ex_phy" where
  "ex_upd p r v w = (fst w, (snd w)(p := (snd w p)(r := v)))"

definition ex_paged_bus :: "ex_phy bus_api" where
  "ex_paged_bus =
     \<lparr>mdio_phy_id_is_c45 = (\<lambda>_. False), mdio_phy_id_prtad = id, mdio_phy_id_devad = id,
      mdiobus_read = (\<lambda>d r w. (uint (if r = 0x16 then fst w else snd w (fst w) r), w)),
      mdiobus_write = (\<lambda>d r v w. (0, if r = 0x16 then (v, snd w) else ex_upd (fst w) r v w)),
      mdiobus_c45_read = (\<lambda>p d r w. (0, w)),
      mdiobus_c45_write = (\<lambda>p d r v w. (0, w))\<rparr>"

lemma ex_paged_hw:
  "paged_hw ex_paged_bus (mva_device 1) fst (\<lambda>p r w. snd w p r) (\<lambda>v w. (v, snd w)) ex_upd"
  unfolding paged_hw_def
  by (simp add: ex_paged_bus_def mva_device_def bus_read_def bus_write_def ex_upd_def)

definition ex_phy0 :: ex_phy where
  "ex_phy0 = (7, \<lambda>p r. 100 * p + r)"

text \<open>
  C12. Reading a register of a page returns that register of that page, and afterwards the device
  is exactly as before: the page that was selected is selected again.
\<close>

theorem pphy_raw_read_keeps_page:
  assumes "paged_hw B pdev page bank sel upd"
    and "ucast (reg AND 0x1f) \<noteq> (ucast (pp_page_reg pdev) :: u16)"
  shows "\<exists>p. raw_prog (pphy_mdio_device b pdev) reg None = Inr (p, mdio_common_raw_read_cb) \<and>
           runs_to B p w (Inr (), w, [ucast (bank (ucast (reg_page reg)) (ucast (reg AND 0x1f)) w)])"
proof -
  let ?pg = "ucast (reg_page reg) :: u16" and ?r = "ucast (reg AND 0x1f) :: u16"
  obtain p where p: "raw_prog (pphy_mdio_device b pdev) reg None = Inr (p, mdio_common_raw_read_cb)"
    "performs B p (any_regs :: unit \<Rightarrow> _) (\<lambda>_. raw_read_spec (pphy_rd B pdev reg)) any_regs"
    using pphy.raw_read [where dev = "pphy_mdio_device b pdev" and pdev = pdev and B = B and reg = reg]
    by auto
  have "brd B (pp_id pdev) ?r (sel ?pg w, []) = Some (Inr (bank ?pg ?r w), sel ?pg w, [])"
    using paged_hwD(1) [OF assms(1,2)] by (intro brd_ok) (simp add: paged_hwD [OF assms(1)])
  from in_page_hw [where m = "brd B (pp_id pdev) ?r" and p = ?pg, OF assms(1) this]
  have "pphy_rd B pdev reg (w, []) = Some (Inr (bank ?pg ?r w), w, [])"
    by (simp add: pphy_rd_def paged_hwD [OF assms(1)])
  then have "raw_read_spec (pphy_rd B pdev reg) (w, []) = Some (Inr (), w, [ucast (bank ?pg ?r w)])"
    by (simp add: raw_read_spec_def bbind_ok bemit_def)
  from p(1) performs_runs_to [OF p(2) this] show ?thesis by blast
qed

theorem pphy_raw_read_keeps_page_witness:
  "\<exists>p. raw_prog (pphy_mdio_device ''b'' (mva_device 1)) 0x10005 None =
         Inr (p, mdio_common_raw_read_cb) \<and>
       runs_to ex_paged_bus p ex_phy0 (Inr (), ex_phy0, [105])"
  using pphy_raw_read_keeps_page [OF ex_paged_hw, where reg = "0x10005" and b = "''b''" and w = ex_phy0]
  by (simp add: ex_phy0_def mva_device_def reg_page_def)

text \<open>
  C13. A masked write to a register of a page changes exactly the bits outside the mask to those
  of the value, in that page only, and the selected page stays selected.
\<close>

theorem pphy_masked_write_keeps_page:
  assumes "paged_hw B pdev page bank sel upd"
    and "ucast (reg AND 0x1f) \<noteq> (ucast (pp_page_reg pdev) :: u16)" and "msk \<noteq> 0"
  shows "\<exists>p. raw_prog (pphy_mdio_device b pdev) reg (Some (val, msk)) =
               Inr (p, mdio_common_raw_write_cb) \<and>
           runs_to B p w (Inr (),
             upd (ucast (reg_page reg)) (ucast (reg AND 0x1f))
               ((bank (ucast (reg_page reg)) (ucast (reg AND 0x1f)) w AND ucast msk) OR ucast val) w,
             [])"
proof -
  let ?pg = "ucast (reg_page reg) :: u16" and ?r = "ucast (reg AND 0x1f) :: u16"
  let ?v = "(bank ?pg ?r w AND ucast msk) OR ucast val"
  obtain p where p: "raw_prog (pphy_mdio_device b pdev) reg (Some (val, msk)) =
      Inr (p, mdio_common_raw_write_cb)"
    "performs B p (any_regs :: unit \<Rightarrow> _)
       (\<lambda>_. raw_mask_spec (pphy_rd B pdev reg) (pphy_wr B pdev reg) (ucast val) (ucast msk)) any_regs"
    using pphy.raw_mask [where dev = "pphy_mdio_device b pdev" and pdev = pdev and B = B
        and reg = reg and msk = msk and val = val] assms(3)
    by auto
  have "brd B (pp_id pdev) ?r (sel ?pg w, []) = Some (Inr (bank ?pg ?r w), sel ?pg w, [])"
    using paged_hwD(1) [OF assms(1,2)] by (intro brd_ok) (simp add: paged_hwD [OF assms(1)])
  from in_page_hw [where m = "brd B (pp_id pdev) ?r" and p = ?pg, OF assms(1) this]
  have rd: "pphy_rd B pdev reg (w, []) = Some (Inr (bank ?pg ?r w), w, [])"
    by (simp add: pphy_rd_def paged_hwD [OF assms(1)])
  have "bwr B (pp_id pdev) ?r ?v (sel ?pg w, []) = Some (Inr (), upd ?pg ?r ?v (sel ?pg w), [])"
    using paged_hwD(2) [OF assms(1,2)] by (intro bwr_ok) (simp add: paged_hwD [OF assms(1)])
  from in_page_hw [where m = "bwr B (pp_id pdev) ?r ?v" and p = ?pg, OF assms(1) this]
  have "pphy_wr B pdev reg ?v (w, []) = Some (Inr (), upd ?pg ?r ?v w, [])"
    by (simp add: pphy_wr_def paged_hwD [OF assms(1)])
  with rd have "raw_mask_spec (pphy_rd B pdev reg) (pphy_wr B pdev reg) (ucast val) (ucast msk) (w, []) =
      Some (Inr (), upd ?pg ?r ?v w, [])"
    by (simp add: raw_mask_spec_def bbind_ok)
  from p(1) performs_runs_to [OF p(2) this] show ?thesis by blast
qed

theorem pphy_masked_write_keeps_page_witness:
  "\<exists>p. raw_prog (pphy_mdio_device ''b'' (mva_device 1)) 0x10005 (Some (2, 0xfff0)) =
         Inr (p, mdio_common_raw_write_cb) \<and>
       runs_to ex_paged_bus p ex_phy0 (Inr (), ex_upd 1 5 98 ex_phy0, [])"
  using pphy_masked_write_keeps_page [OF ex_paged_hw, where reg = "0x10005" and msk = "0xfff0" and b = "''b''" and val = 2
      and w = ex_phy0]
  by (simp add: ex_phy0_def mva_device_def reg_page_def)

text \<open>
  C30. Dumping a range of registers of a page gives each of them once, in order, in that page (the
  page register itself reads as the page that is dumped), and the page that was selected before
  is selected afterwards. The loop that builds the program ends for every range below the top.
\<close>

theorem pphy_dump_lists_page:
  assumes "paged_hw B pdev page bank sel upd" and "snd rng < - 1"
  shows "\<exists>p. dump_prog (pphy_mdio_device b pdev) rng = Some (0, p, fst rng AND 0x1f, snd rng) \<and>
           runs_to B p w (Inr (), w,
             map (\<lambda>r. ucast (if word_of_nat r = (ucast (pp_page_reg pdev) :: u16)
                               then ucast (reg_page (fst rng))
                               else bank (ucast (reg_page (fst rng))) (word_of_nat r) w))
               [unat (fst rng AND 0x1f) ..< Suc (unat (snd rng))])"
proof -
  let ?pg = "ucast (reg_page (fst rng)) :: u16" and ?pr = "ucast (pp_page_reg pdev) :: u16"
  let ?is = "[unat (fst rng AND 0x1f) ..< Suc (unat (snd rng))]"
  let ?rs = "map word_of_nat ?is :: u16 list"
  let ?p = "enter_code pdev (reg_page (fst rng)) @ status_code (pp_id pdev) ?rs @
    leave_code pdev (reg_page (fst rng))"
  have cast: "(ucast (word_of_nat n :: u32) :: u16) = word_of_nat n" for n
    by (rule bit_word_eqI) (auto simp: bit_simps)
  have "dump_prog (pphy_mdio_device b pdev) rng = Some (0, ?p, fst rng AND 0x1f, snd rng)"
    using range_regs_upt [OF assms(2), of "fst rng AND 0x1f"]
    by (simp only: dump_prog_def pphy_device_simps option.case pphy_dump_def Let_def
        pphy_dump_foldl pphy_enter_code pphy_leave_code option.map MDIO_PROG_EMPTY_def)
       (simp add: o_def cast del: upt_Suc)
  moreover have "dump_spec (brd B (pp_id pdev)) ?rs (sel ?pg w, []) =
      Some (Inr (), sel ?pg w, map (\<lambda>r. ucast (if r = ?pr then ?pg else bank ?pg r w)) ?rs)"
  proof -
    have "brd B (pp_id pdev) r (sel ?pg w, o') =
        Some (Inr (if r = ?pr then ?pg else bank ?pg r w), sel ?pg w, o')" for r o'
      using paged_hwD(1) [OF assms(1), of r] assms(1)
      by (intro brd_ok) (auto simp: paged_hwD [OF assms(1)] paged_hw_def)
    then show ?thesis
      by (subst dump_spec_ok [where val = "\<lambda>r. if r = ?pr then ?pg else bank ?pg r w"]) auto
  qed
  from in_page_hw [where m = "dump_spec (brd B (pp_id pdev)) ?rs" and p = ?pg, OF assms(1) this]
  have "in_page B pdev ?pg (dump_spec (brd B (pp_id pdev)) ?rs) (w, []) =
      Some (Inr (), w, map (\<lambda>r. ucast (if r = ?pr then ?pg else bank ?pg r w)) ?rs)"
    by (simp add: paged_hwD [OF assms(1)])
  from performs_runs_to [OF pphy_dump_performs this]
  have "runs_to B ?p w (Inr (), w,
      map (\<lambda>r. ucast (if word_of_nat r = ?pr then ?pg else bank ?pg (word_of_nat r) w)) ?is)"
    by (simp add: o_def del: upt_Suc)
  ultimately show ?thesis by blast
qed

theorem pphy_dump_lists_page_witness:
  "\<exists>p. dump_prog (pphy_mdio_device ''b'' (mva_device 1)) (0x10014, 0x17) = Some (0, p, 0x14, 0x17) \<and>
       runs_to ex_paged_bus p ex_phy0 (Inr (), ex_phy0, [120, 121, 1, 123])"
  using pphy_dump_lists_page [OF ex_paged_hw, where rng = "(0x10014, 0x17)" and b = "''b''" and w = ex_phy0]
  by (simp add: ex_phy0_def mva_device_def reg_page_def upt_rec)

end
