(* ===== verification/Xrs.thy ===== *)
theory Xrs
  imports Phy
begin

text \<open>
  \<^verbatim>\<open>src/mdio/xrs.c\<close>: the driver for XRS switches, whose 32-bit address space is reached
  through three Clause 22 registers. It keeps the contract for reads and for values given as
  immediates; theorem \<open>xrs_masked_write_loses_value\<close> shows that it does not for values that are
  in a register.
\<close>

section \<open>The driver\<close>

definition XRS_IBA0 :: u16 where "XRS_IBA0 = 0x10"
definition XRS_IBA1 :: u16 where "XRS_IBA1 = 0x11"
definition XRS_IBD :: u16 where "XRS_IBD = 0x14"

definition xrs_read :: "u16 \<Rightarrow> u32 \<Rightarrow> mdio_prog \<Rightarrow> int \<times> mdio_prog" where
  "xrs_read dev_id reg prog =
     (let iba0 = ucast (reg AND 0xfffe);
          iba1 = ucast (drop_bit 16 reg);
          prog = mdio_prog_push prog (INSN OP_WRITE (IMM dev_id) (IMM XRS_IBA1) (IMM iba1));
          prog = mdio_prog_push prog (INSN OP_WRITE (IMM dev_id) (IMM XRS_IBA0) (IMM iba0)) in
      (0, mdio_prog_push prog (INSN OP_READ (IMM dev_id) (IMM XRS_IBD) (REG 0))))"

definition xrs_write :: "u16 \<Rightarrow> u32 \<Rightarrow> u32 \<Rightarrow> mdio_prog \<Rightarrow> int \<times> mdio_prog" where
  "xrs_write dev_id reg val prog =
     (let iba0 = ucast ((reg AND 0xfffe) OR 1);
          iba1 = ucast (drop_bit 16 reg);
          prog = mdio_prog_push prog (INSN OP_WRITE (IMM dev_id) (IMM XRS_IBD) (IMM (ucast val)));
          prog = mdio_prog_push prog (INSN OP_WRITE (IMM dev_id) (IMM XRS_IBA1) (IMM iba1)) in
      (0, mdio_prog_push prog (INSN OP_WRITE (IMM dev_id) (IMM XRS_IBA0) (IMM iba0))))"

definition xrs_device :: "string \<Rightarrow> u16 \<Rightarrow> mdio_device" where
  "xrs_device bus_id dev_id =
     \<lparr>dev_bus = bus_id, mem_max = - 1, mem_width = 16,
      drv_read = xrs_read dev_id, drv_write = xrs_write dev_id,
      drv_dump = None, drv_parse_reg = None, drv_parse_val = None\<rparr>"

definition xrs_exec ::
  "phy_uapi \<Rightarrow> kernel_link \<Rightarrow> string \<Rightarrow> string list \<Rightarrow> (int \<times> report list) option" where
  "xrs_exec U link bus_id argv =
     (case argv_pop argv of
        (None, _) \<Rightarrow> Some (1, [])
      | (Some arg, argv) \<Rightarrow>
          (case mdio_parse_dev U arg True of
             Inl e \<Rightarrow> Some (1, [])
           | Inr dev_id \<Rightarrow>
               if argv_peek argv = None then Some (1, [])
               else with_text (mdio_common_exec link (xrs_device bus_id dev_id) argv)))"

section \<open>The contract\<close>

definition xrs_rd :: "'w bus_api \<Rightarrow> u16 \<Rightarrow> u32 \<Rightarrow> ('w, u16) bm" where
  "xrs_rd B dev_id reg =
     bbind (bbind (bwr B dev_id XRS_IBA1 (ucast (drop_bit 16 reg)))
              (\<lambda>_. bwr B dev_id XRS_IBA0 (ucast (reg AND 0xfffe))))
       (\<lambda>_. brd B dev_id XRS_IBD)"

definition xrs_wr :: "'w bus_api \<Rightarrow> u16 \<Rightarrow> u32 \<Rightarrow> u16 \<Rightarrow> ('w, unit) bm" where
  "xrs_wr B dev_id reg v =
     bbind (bwr B dev_id XRS_IBD v)
       (\<lambda>_. bbind (bwr B dev_id XRS_IBA1 (ucast (drop_bit 16 reg)))
              (\<lambda>_. bwr B dev_id XRS_IBA0 (ucast ((reg AND 0xfffe) OR 1))))"

lemma performs_set2:
  "performs B [INSN OP_WRITE (IMM d) (IMM r) (IMM n), INSN OP_WRITE (IMM d) (IMM r') (IMM n')] P
     (\<lambda>x. bmap (\<lambda>_. x) (bbind (bwr B d r n) (\<lambda>_. bwr B d r' n'))) P"
  using performs_seq [OF performs_set [of B d r n P] performs_set [of B d r' n' P]]
  by (simp add: bbind_bmap bmap_bbind)

lemma write_code_before:
  assumes "write_code B c a n"
    and "\<And>P :: unit \<times> regfile \<Rightarrow> regfile \<Rightarrow> bool. performs B d P (\<lambda>x. bmap (\<lambda>_. x) m) P"
  shows "write_code B (c @ d) a (\<lambda>v. bbind (n v) (\<lambda>_ :: unit. m :: ('w, unit) bm))"
proof -
  have "bmap (\<lambda>_. ((), g)) m = bmap (\<lambda>u. (u, g)) m" for g :: regfile
    by simp
  then show ?thesis
    unfolding write_code_def
    using performs_seq [OF assms(1) [unfolded write_code_def] assms(2)]
    by (simp add: case_prod_unfold bbind_bmap bmap_bbind)
qed

lemma xrs_read_as: "reads_as B (xrs_read dev_id reg) (xrs_rd B dev_id reg)"
  unfolding reads_as_def xrs_rd_def
  by (rule exI, rule conjI [OF _ read_code_after [OF performs_set2 read_code_one]])
     (simp add: appends_def xrs_read_def mdio_prog_push_def Let_def)

text \<open>The third argument is always taken as a number, whatever its mode says.\<close>

lemma xrs_write_as:
  assumes "ucast v = n"
  shows "writes_as B (xrs_write dev_id reg v) (Imm n) (xrs_wr B dev_id reg)"
proof -
  have "write_code B [INSN OP_WRITE (IMM dev_id) (IMM XRS_IBD) (IMM n)] (Imm n) (bwr B dev_id XRS_IBD)"
    by (rule write_code_one) (simp add: insn_simps)
  from write_code_before [OF this performs_set2]
  show ?thesis
    unfolding writes_as_def xrs_wr_def
    by (intro exI conjI) (auto simp: appends_def xrs_write_def mdio_prog_push_def Let_def assms)
qed

lemma ucast_arg32: "(ucast (arg32 (IMM n)) :: u16) = n" "(ucast (arg32 (REG n)) :: u16) = n"
  by (rule bit_word_eqI; auto simp: arg32_def IMM_def REG_def bit_simps)+

interpretation xrs: mdio_driver B "xrs_read dev_id" "xrs_write dev_id"
    "xrs_rd B dev_id" "xrs_wr B dev_id" for B dev_id
  by unfold_locales (auto intro: xrs_read_as xrs_write_as simp: ucast_arg32)

text \<open>
  C31. A masked write on an XRS switch does not write the register with the masked bits changed: it
  reads the register and then writes the constant 0, because the driver encodes the operand
  "register 0" a second time, as a number.
\<close>

theorem xrs_masked_write_loses_value:
  assumes "msk \<noteq> 0"
  shows "\<exists>p. raw_prog (xrs_device b dev_id) reg (Some (val, msk)) = Inr (p, mdio_common_raw_write_cb) \<and>
           performs B p (any_regs :: unit \<Rightarrow> _)
             (\<lambda>_. bbind (xrs_rd B dev_id reg) (\<lambda>_. xrs_wr B dev_id reg 0)) any_regs"
proof -
  obtain c where c: "appends (xrs_read dev_id reg) c" "read_code B c (xrs_rd B dev_id reg)"
    using xrs_read_as unfolding reads_as_def by blast
  obtain d where d: "appends (xrs_write dev_id reg (arg32 (REG 0))) d"
      "write_code B d (Imm 0) (xrs_wr B dev_id reg)"
    using xrs_write_as [OF ucast_arg32(2) [of 0]] unfolding writes_as_def by blast
  have w: "performs B d in_r0 (\<lambda>_. xrs_wr B dev_id reg 0) any_regs"
    using write_codeD [OF d(2), of in_r0 "\<lambda>_. 0" any_regs "\<lambda>_. ()"] by simp
  from performs_seq [OF performs_seq [OF performs_seq [OF read_to_r0 [OF c(2), of any_regs]
          and_r0 [of _ "ucast msk"]] or_r0 [of _ "ucast val"]] w] c(1) d(1) assms
  show ?thesis
    by (simp add: raw_prog_def xrs_device_def appends_def mdio_prog_push_def MDIO_PROG_EMPTY_def
        Let_def bbind_assoc)
qed

theorem xrs_masked_write_loses_value_witness:
  "\<forall>B :: nat bus_api. \<exists>p. raw_prog (xrs_device ''b'' 1) 0x20000 (Some (0x42, 0xff00)) =
         Inr (p, mdio_common_raw_write_cb) \<and>
       performs B p (any_regs :: unit \<Rightarrow> _)
         (\<lambda>_. bbind (xrs_rd B 1 0x20000) (\<lambda>_. xrs_wr B 1 0x20000 0)) any_regs"
  by (intro allI, rule xrs_masked_write_loses_value) simp

section \<open>On an XRS switch\<close>

text \<open>
  The indirect access as the data sheet describes it: \<open>IBA1\<close> holds the upper half of the address,
  writing \<open>IBA0\<close> starts a read into \<open>IBD\<close> or, with bit 0 set, a write from \<open>IBD\<close>.
\<close>

definition xrs_hw ::
  "'w bus_api \<Rightarrow> u16 \<Rightarrow> ('w \<Rightarrow> u16) \<Rightarrow> ('w \<Rightarrow> u16) \<Rightarrow> ('w \<Rightarrow> u16 \<Rightarrow> u16 \<Rightarrow> u16) \<Rightarrow>
   (u16 \<Rightarrow> 'w \<Rightarrow> 'w) \<Rightarrow> (u16 \<Rightarrow> 'w \<Rightarrow> 'w) \<Rightarrow> (u16 \<Rightarrow> u16 \<Rightarrow> u16 \<Rightarrow> 'w \<Rightarrow> 'w) \<Rightarrow> bool" where
  "xrs_hw B d hi dat mem set_hi set_dat store \<longleftrightarrow>
     (\<forall>v w. bus_write B d XRS_IBA1 v w = (0, set_hi v w)) \<and>
     (\<forall>v w. bus_write B d XRS_IBD v w = (0, set_dat v w)) \<and>
     (\<forall>w. bus_read B d XRS_IBD w = (uint (dat w), w)) \<and>
     (\<forall>a w. \<not> bit a 0 \<longrightarrow> bus_write B d XRS_IBA0 a w = (0, set_dat (mem w (hi w) a) w)) \<and>
     (\<forall>a w. bit a 0 \<longrightarrow> bus_write B d XRS_IBA0 a w = (0, store (hi w) (a AND 0xfffe) (dat w) w)) \<and>
     (\<forall>v w. hi (set_hi v w) = v \<and> dat (set_hi v w) = dat w \<and> mem (set_hi v w) = mem w) \<and>
     (\<forall>v w. dat (set_dat v w) = v \<and> hi (set_dat v w) = hi w \<and> mem (set_dat v w) = mem w) \<and>
     (\<forall>h a v w. mem (store h a v w) = (mem w)(h := (mem w h)(a := v)))"

lemma xrs_hwD:
  assumes "xrs_hw B d hi dat mem set_hi set_dat store"
  shows "bus_write B d XRS_IBA1 v w = (0, set_hi v w)" "bus_write B d XRS_IBD v w = (0, set_dat v w)"
    and "bus_read B d XRS_IBD w = (uint (dat w), w)"
    and "\<not> bit a 0 \<Longrightarrow> bus_write B d XRS_IBA0 a w = (0, set_dat (mem w (hi w) a) w)"
    and "bit a 0 \<Longrightarrow> bus_write B d XRS_IBA0 a w = (0, store (hi w) (a AND 0xfffe) (dat w) w)"
    and "hi (set_hi v w) = v" "dat (set_hi v w) = dat w" "mem (set_hi v w) = mem w"
    and "dat (set_dat v w) = v" "hi (set_dat v w) = hi w" "mem (set_dat v w) = mem w"
    and "mem (store h b v w) = (mem w)(h := (mem w h)(b := v))"
  using assms unfolding xrs_hw_def by - (elim conjE, simp)+

text \<open>The two halves of an address.\<close>

definition xrs_hi :: "u32 \<Rightarrow> u16" where "xrs_hi reg = ucast (drop_bit 16 reg)"
definition xrs_lo :: "u32 \<Rightarrow> u16" where "xrs_lo reg = ucast (reg AND 0xfffe)"

lemma bit_fffe: "bit (0xfffe :: 'a::len word) n \<longleftrightarrow> 0 < n \<and> n < 16 \<and> n < LENGTH('a)"
proof -
  have "(0xfffe :: 'a word) = push_bit 1 (mask 15)" by (simp add: mask_eq_exp_minus_1)
  then show ?thesis by (auto simp only: bit_push_bit_iff bit_mask_iff possible_bit_word)
qed

lemma xrs_addr_bits:
  "\<not> bit (xrs_lo reg) 0" "bit (ucast ((reg AND 0xfffe) OR 1) :: u16) 0"
  "(ucast ((reg AND 0xfffe) OR 1) :: u16) AND 0xfffe = xrs_lo reg"
  by (auto simp: xrs_lo_def bit_simps bit_fffe bit_1_iff intro!: bit_word_eqI)

lemma xrs_rd_hw:
  assumes "xrs_hw B d hi dat mem set_hi set_dat store"
  shows "\<exists>w'. xrs_rd B d reg (w, o') = Some (Inr (mem w (xrs_hi reg) (xrs_lo reg)), w', o') \<and>
           mem w' = mem w"
  using xrs_addr_bits(1) [of reg]
  by (simp add: xrs_rd_def bbind_def bwr_def brd_def xrs_hwD [OF assms] xrs_hi_def
      flip: xrs_lo_def)

lemma xrs_wr_hw:
  assumes "xrs_hw B d hi dat mem set_hi set_dat store"
  shows "\<exists>w'. xrs_wr B d reg v (w, o') = Some (Inr (), w', o') \<and>
           mem w' = (mem w)(xrs_hi reg := (mem w (xrs_hi reg))(xrs_lo reg := v))"
  using xrs_addr_bits(2,3) [of reg]
  by (simp add: xrs_wr_def bbind_def bwr_def xrs_hwD [OF assms] xrs_hi_def)

text \<open>
  On an XRS switch, a raw write changes the addressed 16-bit register (the lowest address bit
  is ignored) and nothing else of its memory, and a raw read of the same address afterwards gives
  the value that was written.
\<close>

theorem xrs_write_read_back:
  assumes "xrs_hw B d hi dat mem set_hi set_dat store"
  shows "\<exists>p q w1 w2. raw_prog (xrs_device b d) reg (Some (val, 0)) = Inr (p, mdio_common_raw_write_cb) \<and>
           raw_prog (xrs_device b d) reg None = Inr (q, mdio_common_raw_read_cb) \<and>
           runs_to B p w (Inr (), w1, []) \<and>
           mem w1 = (mem w)(xrs_hi reg := (mem w (xrs_hi reg))(xrs_lo reg := ucast val)) \<and>
           runs_to B q w1 (Inr (), w2, [ucast (ucast val :: u16)]) \<and> mem w2 = mem w1"
proof -
  have dev: "drv_read (xrs_device b d) = xrs_read d" "drv_write (xrs_device b d) = xrs_write d"
    by (simp_all add: xrs_device_def)
  obtain p where p: "raw_prog (xrs_device b d) reg (Some (val, 0)) = Inr (p, mdio_common_raw_write_cb)"
      "performs B p (any_regs :: unit \<Rightarrow> _) (\<lambda>_. xrs_wr B d reg (ucast val)) any_regs"
    using xrs.raw_write [OF dev(2), of reg val B] by blast
  obtain q where q: "raw_prog (xrs_device b d) reg None = Inr (q, mdio_common_raw_read_cb)"
      "performs B q (any_regs :: unit \<Rightarrow> _) (\<lambda>_. raw_read_spec (xrs_rd B d reg)) any_regs"
    using xrs.raw_read [OF dev(1), of reg B] by blast
  obtain w1 where w1: "xrs_wr B d reg (ucast val) (w, []) = Some (Inr (), w1, [])"
      "mem w1 = (mem w)(xrs_hi reg := (mem w (xrs_hi reg))(xrs_lo reg := ucast val))"
    using xrs_wr_hw [OF assms] by blast
  obtain w2 where w2: "xrs_rd B d reg (w1, []) = Some (Inr (ucast val), w2, [])" "mem w2 = mem w1"
    using xrs_rd_hw [OF assms, of reg w1 "[]"] w1(2) by auto
  have "raw_read_spec (xrs_rd B d reg) (w1, []) = Some (Inr (), w2, [ucast (ucast val :: u16)])"
    using w2(1) by (simp add: raw_read_spec_def bbind_def bemit_def)
  from p(1) q(1) performs_runs_to [OF p(2) w1(1)] performs_runs_to [OF q(2) this] w1(2) w2(2)
  show ?thesis by blast
qed

text \<open>An XRS switch that is nothing but its memory, for the instance.\<close>

record ex_xrs =
  ex_hi :: u16
  ex_dat :: u16
  ex_mem :: "u16 \<Rightarrow> u16 \<Rightarrow> u16"

definition ex_store :: "u16 \<Rightarrow> u16 \<Rightarrow> u16 \<Rightarrow> ex_xrs \<Rightarrow> ex_xrs" where
  "ex_store h a v w = w\<lparr>ex_mem := (ex_mem w)(h := (ex_mem w h)(a := v))\<rparr>"

definition ex_xrs_bus :: "ex_xrs bus_api" where
  "ex_xrs_bus =
     \<lparr>mdio_phy_id_is_c45 = (\<lambda>_. False), mdio_phy_id_prtad = id, mdio_phy_id_devad = id,
      mdiobus_read = (\<lambda>d r w. (uint (ex_dat w), w)),
      mdiobus_write = (\<lambda>d r v w. (0,
         if r = XRS_IBA1 then w\<lparr>ex_hi := v\<rparr>
         else if r = XRS_IBD then w\<lparr>ex_dat := v\<rparr>
         else if bit v 0 then ex_store (ex_hi w) (v AND 0xfffe) (ex_dat w) w
         else w\<lparr>ex_dat := ex_mem w (ex_hi w) v\<rparr>)),
      mdiobus_c45_read = (\<lambda>p d r w. (0, w)),
      mdiobus_c45_write = (\<lambda>p d r v w. (0, w))\<rparr>"

lemma ex_xrs_hw:
  "xrs_hw ex_xrs_bus 1 ex_hi ex_dat ex_mem (\<lambda>v w. w\<lparr>ex_hi := v\<rparr>) (\<lambda>v w. w\<lparr>ex_dat := v\<rparr>) ex_store"
  unfolding xrs_hw_def
  by (simp add: ex_xrs_bus_def bus_read_def bus_write_def ex_store_def XRS_IBA0_def XRS_IBA1_def
      XRS_IBD_def)

theorem xrs_write_read_back_witness:
  "\<exists>q w1 w2. raw_prog (xrs_device ''b'' 1) 0x20005 None = Inr (q, mdio_common_raw_read_cb) \<and>
     runs_to ex_xrs_bus q w1 (Inr (), w2, [0x42]) \<and> ex_mem w1 2 4 = 0x42"
  using xrs_write_read_back [OF ex_xrs_hw, where b = "''b''" and reg = "0x20005" and val = "0x42"
      and w = "\<lparr>ex_hi = 0, ex_dat = 0, ex_mem = \<lambda>_ _. 0\<rparr>"]
  by (simp add: xrs_hi_def xrs_lo_def) (elim exE conjE, intro exI conjI, assumption+, simp)

end
