(* ===== verification/Bus_Cmd.thy ===== *)
theory Bus_Cmd
  imports Phy
begin

text \<open>
  \<^verbatim>\<open>src/mdio/bus.c\<close> and the bus lookup of \<^verbatim>\<open>src/mdio/mdio.c\<close>: the probe of all
  32 Clause 22 addresses of a bus, and the list of buses.
\<close>

section \<open>The probe\<close>

definition MDIO_DEV_MAX :: u16 where "MDIO_DEV_MAX = 32"

definition bus_status_prog :: mdio_prog where
  "bus_status_prog =
     [INSN OP_ADD (IMM 0) (IMM 0) (REG 1),
      INSN OP_READ (REG 1) (IMM 1) (REG 0),
      INSN OP_EMIT (REG 0) 0 0,
      INSN OP_READ (REG 1) (IMM 2) (REG 0),
      INSN OP_EMIT (REG 0) 0 0,
      INSN OP_READ (REG 1) (IMM 3) (REG 0),
      INSN OP_EMIT (REG 0) 0 0,
      INSN OP_ADD (REG 1) (IMM 1) (REG 1),
      INSN OP_JNE (REG 1) (IMM MDIO_DEV_MAX) (IMM (- 8))]"

definition bus_status_header :: string where
  "bus_status_header =
     CHR 0x1B # ''[7m DEV      PHY-ID  LINK'' @ CHR 0x1B # ''[0m'' @ [CHR 0x0A]"

definition bus_status_line :: "phy_uapi \<Rightarrow> u32 list \<Rightarrow> nat \<Rightarrow> string" where
  "bus_status_line U data dev =
     (let bmsr = data ! (3 * dev); id1 = data ! (3 * dev + 1); id2 = data ! (3 * dev + 2) in
      if id1 = 0xffff \<and> id2 = 0xffff then []
      else ''0x'' @ hex_pad 2 dev @ ''  0x'' @ hex_pad 8 (unat (push_bit 16 id1 OR id2)) @ ''  '' @
           (if bmsr AND ucast (BMSR_LSTATUS U) \<noteq> 0 then ''up'' else ''down'') @ [CHR 0x0A])"

definition bus_status_cb :: "phy_uapi \<Rightarrow> char xfer_cb" where
  "bus_status_cb U data err =
     (if length data \<noteq> unat MDIO_DEV_MAX * 3 then (1, [])
      else (err, bus_status_header @
                 concat (map (bus_status_line U data) [0 ..< unat MDIO_DEV_MAX])))"

definition bus_status :: "phy_uapi \<Rightarrow> kernel_link \<Rightarrow> string \<Rightarrow> int \<times> string" where
  "bus_status U link bus_id =
     (case mdio_xfer link bus_id bus_status_prog (bus_status_cb U) of (err, s) \<Rightarrow>
        (if err \<noteq> 0 then 1 else 0, s))"

section \<open>Buses\<close>

text \<open>
  \<^verbatim>\<open>glob\<close> is a parameter: the paths that match a pattern. The pattern is cut to the 127
  characters that its buffer holds. The callback ends the iteration with a nonzero result.
\<close>

definition SYS_MDIO_BUS :: string where "SYS_MDIO_BUS = ''/sys/class/mdio_bus/''"

fun for_each_path :: "(string \<Rightarrow> 'a \<Rightarrow> int \<times> 'a) \<Rightarrow> string list \<Rightarrow> 'a \<Rightarrow> int \<times> 'a" where
  "for_each_path cb [] a = (0, a)"
| "for_each_path cb (p # ps) a =
     (case cb (drop (length SYS_MDIO_BUS) p) a of (err, a) \<Rightarrow>
        if err \<noteq> 0 then (err, a) else for_each_path cb ps a)"

definition mdio_for_each ::
  "(string \<Rightarrow> string list) \<Rightarrow> string \<Rightarrow> (string \<Rightarrow> 'a \<Rightarrow> int \<times> 'a) \<Rightarrow> 'a \<Rightarrow> int \<times> 'a" where
  "mdio_for_each glob match cb a = for_each_path cb (glob (take 127 (SYS_MDIO_BUS @ match))) a"

definition mdio_parse_bus_cb :: "string \<Rightarrow> string option \<Rightarrow> int \<times> string option" where
  "mdio_parse_bus_cb b a = (1, Some b)"

definition mdio_parse_bus :: "(string \<Rightarrow> string list) \<Rightarrow> string \<Rightarrow> int + string" where
  "mdio_parse_bus glob str =
     (case mdio_for_each glob str mdio_parse_bus_cb None of
        (_, Some b) \<Rightarrow> Inr b | (_, None) \<Rightarrow> Inl ENODEV)"

definition bus_list :: "(string \<Rightarrow> string list) \<Rightarrow> int \<times> string" where
  "bus_list glob =
     (0, snd (mdio_for_each glob ''*'' (\<lambda>b s. (0, s @ b @ [CHR 0x0A])) []))"

section \<open>What the probe reads\<close>

definition probe_spec :: "'w bus_api \<Rightarrow> ('w, unit) bm" where
  "probe_spec B = bfor (\<lambda>dev. dump_spec (brd B dev) [1, 2, 3]) (map word_of_nat [0 ..< 32])"

lemma probe_one:
  "performs B [INSN OP_READ (REG 1) (IMM r) (REG 0), INSN OP_EMIT (REG 0) 0 0] in_r1
     (\<lambda>n. bmap (\<lambda>_. n) (bbind (brd B n r) bemit)) in_r1"
proof -
  let ?Q = "\<lambda>(v, n) r. r 0 = v \<and> in_r1 n r"
  have "performs B [INSN OP_READ (REG 1) (IMM r) (REG 0)] in_r1
      (\<lambda>n. bmap (\<lambda>v. (v, n)) (brd B n r)) ?Q"
    by (rule performs_read [of _ "Reg 1" "Imm r" 0]) (auto simp: insn_simps in_r1_def)
  moreover have "performs B [INSN OP_EMIT (REG 0) 0 0] ?Q (\<lambda>x. bmap (\<lambda>_. snd x) (bemit (fst x))) in_r1"
    by (rule performs_emit [of _ "Reg 0"]) (auto simp: insn_simps)
  ultimately show ?thesis
    by (drule_tac performs_seq) (auto simp: bbind_bmap bmap_bbind)
qed

lemma probe_body:
  "performs B
     [INSN OP_READ (REG 1) (IMM 1) (REG 0), INSN OP_EMIT (REG 0) 0 0,
      INSN OP_READ (REG 1) (IMM 2) (REG 0), INSN OP_EMIT (REG 0) 0 0,
      INSN OP_READ (REG 1) (IMM 3) (REG 0), INSN OP_EMIT (REG 0) 0 0] in_r1
     (\<lambda>n. bmap (\<lambda>_. n) (dump_spec (brd B n) [1, 2, 3])) in_r1"
  using performs_seq [OF performs_seq [OF probe_one [of B 1] probe_one [of B 2]] probe_one [of B 3]]
  by (simp add: bbind_bmap bmap_bbind bbind_assoc)

lemma bus_status_performs:
  "performs B bus_status_prog P (\<lambda>_. probe_spec B) (\<lambda>(_ :: unit) _. True)"
  using performs_count_loop [OF probe_body, where lim = 32 and P = P and h = "\<lambda>_. ()" and B = B]
  by (simp add: count_loop_def bus_status_prog_def MDIO_DEV_MAX_def probe_spec_def)

lemma bfor_ok:
  assumes "\<And>x o'. x \<in> set xs \<Longrightarrow> m x (w, o') = Some (Inr (), w, o' @ f x)"
  shows "bfor m xs (w, o') = Some (Inr (), w, o' @ concat (map f xs))"
  using assms by (induction xs arbitrary: o') (simp_all add: bbind_def bret_def)

text \<open>
  On a bus whose reads have no side effect, the probe reads the status and the two identifier
  registers of every one of the 32 addresses, in order, and the number of values it sends is the
  one the callback expects.
\<close>

theorem bus_probe_reads_all:
  fixes val :: "u16 \<Rightarrow> u16 \<Rightarrow> u16"
  assumes "\<And>d r. bus_read B d r w = (uint (val d r), w)"
  shows "let data = concat (map (\<lambda>d. [ucast (val d 1), ucast (val d 2), ucast (val d 3)])
                       (map word_of_nat [0 ..< 32])) in
         runs_to B bus_status_prog w (Inr (), w, data) \<and> length data = unat MDIO_DEV_MAX * 3"
proof -
  let ?f = "\<lambda>d. [ucast (val d 1), ucast (val d 2), ucast (val d 3)] :: u32 list"
  have "dump_spec (brd B d) [1, 2, 3] (w, o') = Some (Inr (), w, o' @ ?f d)" for d o'
    using assms by (subst dump_spec_ok [where val = "val d"]) (auto intro: brd_ok)
  then have "probe_spec B (w, []) = Some (Inr (), w, concat (map ?f (map word_of_nat [0 ..< 32])))"
    unfolding probe_spec_def by (subst bfor_ok [where f = ?f]) auto
  then have "runs_to B bus_status_prog w (Inr (), w, concat (map ?f (map word_of_nat [0 ..< 32])))"
    by (rule performs_runs_to [OF bus_status_performs])
  moreover have "length (concat (map ?f (map word_of_nat [0 ..< 32]))) = unat MDIO_DEV_MAX * 3"
    by (simp add: length_concat MDIO_DEV_MAX_def o_def sum_list_triv)
  ultimately show ?thesis
    unfolding Let_def by (rule conjI)
qed

theorem bus_probe_reads_all_witness:
  "\<exists>data. runs_to
     \<lparr>mdio_phy_id_is_c45 = (\<lambda>_. False), mdio_phy_id_prtad = id, mdio_phy_id_devad = id,
      mdiobus_read = (\<lambda>d r w. (uint (d + r), w)), mdiobus_write = (\<lambda>d r v w. (0, w)),
      mdiobus_c45_read = (\<lambda>p d r w. (0, w)), mdiobus_c45_write = (\<lambda>p d r v w. (0, w))\<rparr>
     bus_status_prog () (Inr (), (), data) \<and> length data = 96 \<and> data ! 7 = 4"
proof -
  let ?B = "\<lparr>mdio_phy_id_is_c45 = (\<lambda>_. False), mdio_phy_id_prtad = id, mdio_phy_id_devad = id,
      mdiobus_read = (\<lambda>d r w. (uint (d + r), w)), mdiobus_write = (\<lambda>d r v w. (0, w)),
      mdiobus_c45_read = (\<lambda>p d r w. (0, w)), mdiobus_c45_write = (\<lambda>p d r v w. (0, w))\<rparr> :: unit bus_api"
  have "bus_read ?B d r () = (uint (d + r), ())" for d r
    by (simp add: bus_read_def)
  from bus_probe_reads_all [of ?B "()" "\<lambda>d r. d + r", OF this]
  show ?thesis
    unfolding Let_def by (intro exI conjI) (auto simp: MDIO_DEV_MAX_def upt_rec)
qed

text \<open>
  Given the 96 values of a probe in one reply, the command succeeds and prints one line for
  exactly those addresses at which a device answers (identifiers that are not all ones).
\<close>

lemma bus_status_lines:
  assumes "link bus_id bus_status_prog 1000 = one_reply 0 data" and "length data = 96"
  shows "bus_status U link bus_id =
           (0, bus_status_header @
               concat (map (bus_status_line U data)
                 (filter (\<lambda>d. \<not> (data ! (3 * d + 1) = 0xffff \<and> data ! (3 * d + 2) = 0xffff)) [0 ..< 32])))"
proof -
  have skip: "concat (map (bus_status_line U data) (filter
        (\<lambda>d. \<not> (data ! (3 * d + 1) = 0xffff \<and> data ! (3 * d + 2) = 0xffff)) ds)) =
      concat (map (bus_status_line U data) ds)" for ds
    by (induction ds) (auto simp: bus_status_line_def)
  have "bus_status_cb U data 0 = (0, bus_status_header @ concat (map (bus_status_line U data) [0 ..< 32]))"
    using assms(2) by (simp add: bus_status_cb_def MDIO_DEV_MAX_def)
  with xfer_one_reply [of bus_status_prog link bus_id 1000 0 data "bus_status_cb U"] assms(1)
  show ?thesis
    unfolding skip
    by (simp add: bus_status_def mdio_xfer_def bus_status_prog_def XFER_BUF_LEN_def)
qed

lemma nth_triples:
  "d < n \<Longrightarrow> concat (map (\<lambda>d. [f d, g d, h d]) [0 ..< n]) ! (3 * d + 1) = g d \<and>
     concat (map (\<lambda>d. [f d, g d, h d]) [0 ..< n]) ! (3 * d + 2) = h d"
proof (induction n)
  case (Suc n)
  have "length (concat (map (\<lambda>d. [f d, g d, h d]) [0 ..< n])) = 3 * n"
    by (simp add: length_concat o_def sum_list_triv)
  with Suc show ?case by (cases "d = n") (auto simp: nth_append)
qed simp

end
