(* ===== verification/Mvls_Switch.thy ===== *)
theory Mvls_Switch
  imports Phy
begin

text \<open>
  \<^verbatim>\<open>src/mdio/mvls.c\<close>, the driver: LinkStreet switches in single-chip mode, which answer on
  all addresses, and in multi-chip mode, in which an access is a command that is started and
  then polled until the busy bit clears.
\<close>

section \<open>The driver\<close>

definition MVLS_CMD :: u16 where "MVLS_CMD = 0"
definition MVLS_DATA :: u16 where "MVLS_DATA = 1"
definition MVLS_CMD_BUSY :: u16 where "MVLS_CMD_BUSY = push_bit 15 1"
definition MVLS_CMD_C22 :: u16 where "MVLS_CMD_C22 = push_bit 12 1"
definition MVLS_G1 :: u32 where "MVLS_G1 = 0x1b"
definition MVLS_G2 :: u32 where "MVLS_G2 = 0x1c"

definition MVLS_REG :: "u32 \<Rightarrow> u32 \<Rightarrow> u32" where
  "MVLS_REG port reg = push_bit 16 port OR reg"

definition mvls_multi_cmd :: "u8 \<Rightarrow> u8 \<Rightarrow> bool \<Rightarrow> u16" where
  "mvls_multi_cmd port reg wr =
     MVLS_CMD_BUSY OR MVLS_CMD_C22 OR push_bit 10 (if wr then 1 else 2) OR
     push_bit 5 (ucast port) OR ucast reg"

definition mvls_wait_cmd :: "u8 \<Rightarrow> mdio_prog \<Rightarrow> mdio_prog" where
  "mvls_wait_cmd sw prog =
     (let retry = prog_len prog;
          prog = mdio_prog_push prog (INSN OP_READ (IMM (ucast sw)) (IMM MVLS_CMD) (REG 0));
          prog = mdio_prog_push prog (INSN OP_AND (REG 0) (IMM MVLS_CMD_BUSY) (REG 0)) in
      mdio_prog_push prog
        (INSN OP_JEQ (REG 0) (IMM MVLS_CMD_BUSY) (GOTO (prog_len prog) retry)))"

definition reg_port :: "u32 \<Rightarrow> u16" where
  "reg_port reg = ucast (drop_bit 16 reg)"

definition mvls_read_to :: "u16 \<Rightarrow> u32 \<Rightarrow> u8 \<Rightarrow> mdio_prog \<Rightarrow> mdio_prog" where
  "mvls_read_to dev_id reg to prog =
     (let port = reg_port reg;
          reg = reg AND 0xffff in
      if dev_id = 0 then
        mdio_prog_push prog (INSN OP_READ (IMM port) (IMM (ucast reg)) (REG (ucast to)))
      else
        let prog = mdio_prog_push prog
              (INSN OP_WRITE (IMM dev_id) (IMM MVLS_CMD)
                 (IMM (mvls_multi_cmd (ucast port) (ucast reg) False)));
            prog = mvls_wait_cmd (ucast dev_id) prog in
        mdio_prog_push prog (INSN OP_READ (IMM dev_id) (IMM MVLS_DATA) (REG (ucast to))))"

definition mvls_read :: "u16 \<Rightarrow> u32 \<Rightarrow> mdio_prog \<Rightarrow> int \<times> mdio_prog" where
  "mvls_read dev_id reg prog = (0, mvls_read_to dev_id reg 0 prog)"

definition mvls_write :: "u16 \<Rightarrow> u32 \<Rightarrow> u32 \<Rightarrow> mdio_prog \<Rightarrow> int \<times> mdio_prog" where
  "mvls_write dev_id reg val prog =
     (let port = reg_port reg;
          reg = reg AND 0xffff in
      if dev_id = 0 then
        (0, mdio_prog_push prog (INSN OP_WRITE (IMM port) (IMM (ucast reg)) (of_arg32 val)))
      else
        let prog = mdio_prog_push prog (INSN OP_WRITE (IMM dev_id) (IMM MVLS_DATA) (of_arg32 val));
            prog = mdio_prog_push prog
              (INSN OP_WRITE (IMM dev_id) (IMM MVLS_CMD)
                 (IMM (mvls_multi_cmd (ucast port) (ucast reg) True))) in
        (0, mvls_wait_cmd (ucast dev_id) prog))"

definition mvls_wait :: "u16 \<Rightarrow> u32 \<Rightarrow> mdio_prog \<Rightarrow> mdio_prog" where
  "mvls_wait dev_id reg prog =
     (let retry = prog_len prog;
          prog = mvls_read_to dev_id reg 0 prog;
          prog = mdio_prog_push prog (INSN OP_AND (REG 0) (IMM MVLS_CMD_BUSY) (REG 0)) in
      mdio_prog_push prog
        (INSN OP_JEQ (REG 0) (IMM MVLS_CMD_BUSY) (GOTO (prog_len prog) retry)))"

section \<open>Register arguments\<close>

definition mvls_parse_port :: "string \<Rightarrow> parse_err + u16" where
  "mvls_parse_port tok =
     (if tok = ''global1'' \<or> tok = ''g1'' then Inr (ucast MVLS_G1)
      else if tok = ''global2'' \<or> tok = ''g2'' then Inr (ucast MVLS_G2)
      else (case strtoull tok of (r, end0, _) \<Rightarrow>
             if end0 \<noteq> [] then Inl (Not_A_Port tok)
             else if 31 < r then Inl (Port_Out_Of_Range r)
             else Inr (ucast r)))"

definition mvls_parse_reg :: "string list \<Rightarrow> bool \<Rightarrow> parse_err + (string list \<times> u32 \<times> u32)" where
  "mvls_parse_reg argv rege =
     (if rege then Inl Ranges_Not_Implemented
      else (case argv_pop argv of
              (None, _) \<Rightarrow> Inl Expected_Port
            | (Some str, argv) \<Rightarrow>
                (case strtok CHR '':'' str of
                   None \<Rightarrow> Inl Expected_Port
                 | Some (tok, rest) \<Rightarrow>
                     (case mvls_parse_port tok of
                        Inl e \<Rightarrow> Inl e
                      | Inr port \<Rightarrow>
                          (case strtok CHR '':'' rest of
                             None \<Rightarrow> Inl Expected_Register
                           | Some (tok, _) \<Rightarrow>
                               (case strtoull tok of (r, end0, _) \<Rightarrow>
                                  if end0 \<noteq> [] then Inl (Not_A_Register tok)
                                  else if 31 < r then Inl (Short_Register_Out_Of_Range r)
                                  else
                                    let reg = push_bit 16 (ucast port) OR ucast r in
                                    Inr (argv, reg, reg)))))))"

definition mvls_device :: "string \<Rightarrow> u16 \<Rightarrow> mdio_device" where
  "mvls_device bus_id dev_id =
     \<lparr>dev_bus = bus_id, mem_max = 0, mem_width = 16,
      drv_read = mvls_read dev_id, drv_write = mvls_write dev_id,
      drv_dump = None, drv_parse_reg = Some mvls_parse_reg, drv_parse_val = None\<rparr>"

section \<open>What an access does\<close>

definition mvls_busy :: "'w bus_api \<Rightarrow> u16 \<Rightarrow> ('w, unit) bm" where
  "mvls_busy B dev_id = poll MVLS_CMD_BUSY (brd B (ucast (ucast dev_id :: u8)) MVLS_CMD)"

definition mvls_cmd :: "'w bus_api \<Rightarrow> u16 \<Rightarrow> u32 \<Rightarrow> bool \<Rightarrow> ('w, unit) bm" where
  "mvls_cmd B dev_id reg wr =
     bbind (bwr B dev_id MVLS_CMD
              (mvls_multi_cmd (ucast (reg_port reg)) (ucast (reg AND 0xffff)) wr))
       (\<lambda>_. mvls_busy B dev_id)"

definition mvls_rd :: "'w bus_api \<Rightarrow> u16 \<Rightarrow> u32 \<Rightarrow> ('w, u16) bm" where
  "mvls_rd B dev_id reg =
     (if dev_id = 0 then brd B (reg_port reg) (ucast (reg AND 0xffff))
      else bbind (mvls_cmd B dev_id reg False) (\<lambda>_. brd B dev_id MVLS_DATA))"

definition mvls_wr :: "'w bus_api \<Rightarrow> u16 \<Rightarrow> u32 \<Rightarrow> u16 \<Rightarrow> ('w, unit) bm" where
  "mvls_wr B dev_id reg v =
     (if dev_id = 0 then bwr B (reg_port reg) (ucast (reg AND 0xffff)) v
      else bbind (bwr B dev_id MVLS_DATA v) (\<lambda>_. mvls_cmd B dev_id reg True))"

text \<open>The code of each operation, which does not depend on what was pushed before.\<close>

definition cmd_code :: "u16 \<Rightarrow> u32 \<Rightarrow> bool \<Rightarrow> mdio_prog" where
  "cmd_code dev_id reg wr =
     INSN OP_WRITE (IMM dev_id) (IMM MVLS_CMD)
       (IMM (mvls_multi_cmd (ucast (reg_port reg)) (ucast (reg AND 0xffff)) wr)) #
     poll_code [INSN OP_READ (IMM (ucast (ucast dev_id :: u8))) (IMM MVLS_CMD) (REG 0)] MVLS_CMD_BUSY"

definition rd_code :: "u16 \<Rightarrow> u32 \<Rightarrow> mdio_prog" where
  "rd_code dev_id reg =
     (if dev_id = 0 then [INSN OP_READ (IMM (reg_port reg)) (IMM (ucast (reg AND 0xffff))) (REG 0)]
      else cmd_code dev_id reg False @ [INSN OP_READ (IMM dev_id) (IMM MVLS_DATA) (REG 0)])"

definition wr_code :: "u16 \<Rightarrow> u32 \<Rightarrow> u18 \<Rightarrow> mdio_prog" where
  "wr_code dev_id reg a =
     (if dev_id = 0 then [INSN OP_WRITE (IMM (reg_port reg)) (IMM (ucast (reg AND 0xffff))) a]
      else INSN OP_WRITE (IMM dev_id) (IMM MVLS_DATA) a # cmd_code dev_id reg True)"

lemma mvls_wait_cmd_code:
  "mvls_wait_cmd sw p =
     p @ poll_code [INSN OP_READ (IMM (ucast sw)) (IMM MVLS_CMD) (REG 0)] MVLS_CMD_BUSY"
  by (simp add: mvls_wait_cmd_def poll_code_def mdio_prog_push_def Let_def GOTO_IMM algebra_simps)

lemma mvls_read_to_code: "mvls_read_to dev_id reg 0 p = p @ rd_code dev_id reg"
  by (simp add: mvls_read_to_def rd_code_def cmd_code_def mvls_wait_cmd_code mdio_prog_push_def
      Let_def)

lemma mvls_write_code: "mvls_write dev_id reg (arg32 a) p = (0, p @ wr_code dev_id reg a)"
  by (simp add: mvls_write_def wr_code_def cmd_code_def mvls_wait_cmd_code mdio_prog_push_def
      Let_def)

lemma mvls_wait_code:
  "mvls_wait dev_id reg p = p @ poll_code (rd_code dev_id reg) MVLS_CMD_BUSY"
  by (simp add: mvls_wait_def mvls_read_to_code poll_code_def mdio_prog_push_def Let_def GOTO_IMM
      algebra_simps minus_diff_commute)

text \<open>\<open>indep_r0 P\<close>: \<open>P\<close> does not look at register 0, the only one the operations change.\<close>

definition indep_r0 :: "('x \<Rightarrow> regfile \<Rightarrow> bool) \<Rightarrow> bool" where
  "indep_r0 P \<longleftrightarrow> (\<forall>x r v. P x r \<longrightarrow> P x (r(0 := v)))"

lemma performs_read_r0:
  "indep_r0 P \<Longrightarrow>
   performs B [INSN OP_READ (IMM d) (IMM n) (REG 0)] P (\<lambda>x. bmap (\<lambda>v. (v, x)) (brd B d n)) (with_r0 P)"
  by (rule performs_read [of _ "Imm d" "Imm n" 0])
     (auto simp: insn_simps with_r0_def indep_r0_def)

lemma cmd_code_performs:
  assumes "indep_r0 P"
  shows "performs B (cmd_code dev_id reg wr) P (\<lambda>x. bmap (\<lambda>_. x) (mvls_cmd B dev_id reg wr)) P"
proof -
  have "performs B (poll_code [INSN OP_READ (IMM (ucast (ucast dev_id :: u8))) (IMM MVLS_CMD) (REG 0)]
      MVLS_CMD_BUSY) P (\<lambda>x. bmap (\<lambda>_. x) (mvls_busy B dev_id)) P"
    unfolding mvls_busy_def
    by (rule performs_poll) (use assms performs_read_r0 in \<open>auto simp: indep_r0_def\<close>)
  from performs_seq [OF performs_set this] show ?thesis
    by (simp add: cmd_code_def mvls_cmd_def bbind_bmap bmap_bbind)
qed

lemma rd_code_performs:
  assumes "indep_r0 P"
  shows "performs B (rd_code dev_id reg) P (\<lambda>x. bmap (\<lambda>v. (v, x)) (mvls_rd B dev_id reg)) (with_r0 P)"
proof (cases "dev_id = 0")
  case True
  then show ?thesis using performs_read_r0 [OF assms] by (simp add: rd_code_def mvls_rd_def)
next
  case False
  then show ?thesis
    using performs_seq [OF cmd_code_performs [OF assms] performs_read_r0 [OF assms]]
    by (simp add: rd_code_def mvls_rd_def bbind_bmap bmap_bbind)
qed

lemma wr_code_performs:
  assumes "indep_r0 Q" and "decode_ri a' = Some a"
    and "\<And>x r. P x r \<Longrightarrow> opv a r = vl x \<and> Q (h x) r"
  shows "performs B (wr_code dev_id reg a') P (\<lambda>x. bmap (\<lambda>_. h x) (mvls_wr B dev_id reg (vl x))) Q"
proof -
  have w: "performs B [INSN OP_WRITE (IMM d) (IMM n) a'] P (\<lambda>x. bmap (\<lambda>_. h x) (bwr B d n (vl x))) Q"
    for d n
    by (rule performs_write [of _ "Imm d" "Imm n" a])
       (use assms(2,3) in \<open>auto simp: insn_simps\<close>)
  show ?thesis
  proof (cases "dev_id = 0")
    case True
    then show ?thesis using w by (simp add: wr_code_def mvls_wr_def)
  next
    case False
    then show ?thesis
      using performs_seq [OF w cmd_code_performs [OF assms(1)]]
      by (simp add: wr_code_def mvls_wr_def bbind_bmap bmap_bbind)
  qed
qed

lemma wait_code_performs:
  assumes "indep_r0 P"
  shows "performs B (poll_code (rd_code dev_id reg) MVLS_CMD_BUSY) P
           (\<lambda>x. bmap (\<lambda>_. x) (poll MVLS_CMD_BUSY (mvls_rd B dev_id reg))) P"
  by (rule performs_poll [OF _ rd_code_performs [OF assms]])
     (use assms in \<open>auto simp: indep_r0_def rd_code_def cmd_code_def poll_code_def\<close>)

section \<open>The contract\<close>

lemma code_lengths:
  "length (rd_code dev_id reg) \<le> 5" "length (wr_code dev_id reg a) \<le> 5"
  by (simp_all add: rd_code_def wr_code_def cmd_code_def poll_code_def)

lemma indep_keep: "indep_r0 (\<lambda>(u :: unit, g). keep g)"
  by (auto simp: indep_r0_def)

lemma mvls_read_code: "read_code B (rd_code dev_id reg) (mvls_rd B dev_id reg)"
proof -
  have "performs B (rd_code dev_id reg) (\<lambda>(u :: unit, g). keep g)
      (\<lambda>x. bmap (\<lambda>v. (v, snd x)) (mvls_rd B dev_id reg)) (\<lambda>(v, g) r. r 0 = v \<and> keep g r)"
    by (rule performs_conseq [OF rd_code_performs [OF indep_keep]])
       (auto simp: with_r0_def intro!: exI [of _ "\<lambda>(v, u, g). (v, g)"])
  then show ?thesis by (simp add: read_code_def case_prod_unfold)
qed

lemma mvls_write_code_ok:
  assumes "decode_ri a' = Some a"
  shows "write_code B (wr_code dev_id reg a') a (mvls_wr B dev_id reg)"
proof -
  have "performs B (wr_code dev_id reg a') (\<lambda>(v, g) r. opv a r = v \<and> keep g r)
      (\<lambda>x. bmap (\<lambda>_. ((), snd x)) (mvls_wr B dev_id reg (fst x))) (\<lambda>(u :: unit, g). keep g)"
    by (rule wr_code_performs [OF indep_keep assms]) auto
  then show ?thesis by (simp add: write_code_def case_prod_unfold)
qed

interpretation mvls: mdio_reg_driver B "mvls_read dev_id" "mvls_write dev_id"
    "mvls_rd B dev_id" "mvls_wr B dev_id" for B dev_id
proof unfold_locales
  fix reg
  show "reads_as B (mvls_read dev_id reg) (mvls_rd B dev_id reg)"
    unfolding reads_as_def
    using mvls_read_code code_lengths(1) [of dev_id reg]
    by (intro exI [of _ "rd_code dev_id reg"])
       (simp add: appends_def mvls_read_def mvls_read_to_code)
next
  have w: "writes_as B (mvls_write dev_id reg (arg32 a')) a (mvls_wr B dev_id reg)"
    if "decode_ri a' = Some a" for a' a reg
    unfolding writes_as_def
    using mvls_write_code_ok [OF that] code_lengths(2) [of dev_id reg a']
    by (intro exI [of _ "wr_code dev_id reg a'"]) (simp add: appends_def mvls_write_code)
  show "writes_as B (mvls_write dev_id reg (arg32 (IMM n))) (Imm n) (mvls_wr B dev_id reg)" for reg n
    by (rule w) (simp add: insn_simps)
  show "writes_as B (mvls_write dev_id reg (arg32 (REG (word_of_nat k)))) (Reg k)
      (mvls_wr B dev_id reg)" if "k < 8" "k \<noteq> 1" for reg k
    using decode_ri_arg(2) [OF that(1)] by (intro w) simp
qed

end
