(* ===== verification/Mvls_Commands.thy ===== *)
theory Mvls_Commands
  imports Mvls_Switch
begin

text \<open>
  \<^verbatim>\<open>src/mdio/mvls.c\<close>, the commands: identification of the switch family, the link
  aggregation tables, the statistics counters and the address table, each as the program it
  builds, the callback on the reply and the exit status.
\<close>

section \<open>Identification\<close>

datatype mvls_family = FAM_UNKNOWN | FAM_SPINNAKER | FAM_OPAL | FAM_AGATE | FAM_PERIDOT | FAM_AMETHYST

definition push_emit :: "mdio_prog \<Rightarrow> mdio_prog" where
  "push_emit prog = mdio_prog_push prog (INSN OP_EMIT (REG 0) 0 0)"

definition mvls_id_cb :: "u32 xfer_cb" where
  "mvls_id_cb data err = (if length data \<noteq> 1 then (1, []) else (err, [hd data]))"

definition mvls_id_prog :: "u16 \<Rightarrow> mdio_prog" where
  "mvls_id_prog dev_id = push_emit (snd (mvls_read dev_id (MVLS_REG 0x10 0x03) MDIO_PROG_EMPTY))"

text \<open>
  The identifier; 0 when the transfer failed. The last reply counts; the variable is not
  initialised, so that it has no value when a transfer succeeds without a reply.
\<close>

definition mvls_id_exec :: "kernel_link \<Rightarrow> string \<Rightarrow> u16 \<Rightarrow> u32" where
  "mvls_id_exec link bus_id dev_id =
     (case mdio_xfer link bus_id (mvls_id_prog dev_id) mvls_id_cb of (err, ids) \<Rightarrow>
        if err \<noteq> 0 then 0 else last ids)"

definition mvls_get_family :: "kernel_link \<Rightarrow> string \<Rightarrow> u16 \<Rightarrow> mvls_family" where
  "mvls_get_family link bus_id dev_id =
     (let i = drop_bit 4 (mvls_id_exec link bus_id dev_id) in
      if i = 0x099 then FAM_OPAL
      else if i = 0x352 then FAM_AGATE
      else if i = 0x0a1 then FAM_PERIDOT
      else FAM_UNKNOWN)"

section \<open>Link aggregation\<close>

definition mvls_print_portvec :: "u16 \<Rightarrow> string" where
  "mvls_print_portvec portvec =
     concat (map (\<lambda>i. ''  '' @ (if bit portvec i then digits_in 16 i else ''.'')) [0 ..< 11])"

definition pad4 :: "nat \<Rightarrow> string" where
  "pad4 n = replicate (4 - length (dec n)) CHR '' '' @ dec n"

definition reverse_line :: "string \<Rightarrow> string" where
  "reverse_line s = CHR 0x1B # ''[7m'' @ s @ CHR 0x1B # ''[0m'' @ [CHR 0x0A]"

definition mvls_lag_cb :: "char xfer_cb" where
  "mvls_lag_cb data err =
     (if length data \<noteq> 16 + 8 then (1, [])
      else (err,
        reverse_line '' LAG  0  1  2  3  4  5  6  7  8  9  a'' @
        concat (map (\<lambda>lag.
          if data ! lag AND 0x7ff = 0 then []
          else pad4 lag @ mvls_print_portvec (ucast (data ! lag)) @ [CHR 0x0A]) [0 ..< 16]) @
        [CHR 0x0A] @
        reverse_line ''MASK  0  1  2  3  4  5  6  7  8  9  a'' @
        concat (map (\<lambda>m. pad4 m @ mvls_print_portvec (ucast (data ! (16 + m))) @ [CHR 0x0A]) [0 ..< 8])))"

definition lag_map_step :: "u16 \<Rightarrow> mdio_prog \<Rightarrow> nat \<Rightarrow> mdio_prog" where
  "lag_map_step dev_id prog i =
     (let prog = snd (mvls_write dev_id (MVLS_REG MVLS_G2 0x08)
                        (arg32 (IMM (push_bit 11 (word_of_nat i)))) prog);
          prog = snd (mvls_read dev_id (MVLS_REG MVLS_G2 0x08) prog) in
      push_emit prog)"

definition lag_mask_step :: "u16 \<Rightarrow> mdio_prog \<Rightarrow> nat \<Rightarrow> mdio_prog" where
  "lag_mask_step dev_id prog i =
     (let prog = snd (mvls_read dev_id (MVLS_REG MVLS_G2 0x07) prog);
          prog = mdio_prog_push prog (INSN OP_AND (REG 0) (IMM (push_bit 11 1)) (REG 0));
          prog = mdio_prog_push prog (INSN OP_OR (REG 0) (IMM (push_bit 12 (word_of_nat i))) (REG 0));
          prog = snd (mvls_write dev_id (MVLS_REG MVLS_G2 0x07) (arg32 (REG 0)) prog);
          prog = snd (mvls_read dev_id (MVLS_REG MVLS_G2 0x07) prog) in
      push_emit prog)"

definition mvls_lag_prog :: "u16 \<Rightarrow> mdio_prog" where
  "mvls_lag_prog dev_id =
     foldl (lag_mask_step dev_id) (foldl (lag_map_step dev_id) MDIO_PROG_EMPTY [0 ..< 16]) [0 ..< 8]"

text \<open>Arguments still hold the command's own token.\<close>

definition mvls_lag_exec :: "kernel_link \<Rightarrow> string \<Rightarrow> u16 \<Rightarrow> string list \<Rightarrow> int \<times> string" where
  "mvls_lag_exec link bus_id dev_id argv =
     (case argv_pop (snd (argv_pop argv)) of
        (Some arg, _) \<Rightarrow> (1, [])
      | (None, _) \<Rightarrow>
          (case mdio_xfer link bus_id (mvls_lag_prog dev_id) mvls_lag_cb of (err, s) \<Rightarrow>
             (if err \<noteq> 0 then 1 else 0, s)))"

section \<open>Counters\<close>

text \<open>
  The counters of the previous round, six for each of eleven ports. A row of the output is the
  port, the counters now, and the six differences in the order they are printed.
\<close>

type_synonym counter_ctx = "u32 list list"

record counter_row =
  row_port :: nat
  row_now :: "u32 list"
  row_diff :: "u32 list"

definition counter_now :: "u32 list \<Rightarrow> nat \<Rightarrow> u32 list" where
  "counter_now data i =
     map (\<lambda>n. push_bit 16 (data ! (12 * i + 2 * n)) OR data ! (12 * i + 2 * n + 1)) [0 ..< 6]"

definition counter_row_of :: "counter_ctx \<Rightarrow> u32 list \<Rightarrow> nat \<Rightarrow> counter_row list" where
  "counter_row_of prev data i =
     (let now = counter_now data i; old = prev ! i in
      if old = now then []
      else [\<lparr>row_port = i, row_now = now,
             row_diff = map (\<lambda>n. now ! n - old ! n) [1, 4, 0, 3, 2, 5]\<rparr>])"

definition mvls_counter_cb :: "counter_ctx \<Rightarrow> counter_row xfer_cb" where
  "mvls_counter_cb prev data err =
     (if length data \<noteq> 11 * 6 * 2 then (1, [])
      else (err, concat (map (counter_row_of prev data) [0 ..< 11])))"

definition counter_update :: "counter_ctx \<Rightarrow> counter_row list \<Rightarrow> counter_ctx" where
  "counter_update = foldl (\<lambda>prev r. prev[row_port r := row_now r])"

definition G1_STATS_OP :: u32 where "G1_STATS_OP = MVLS_REG MVLS_G1 0x1d"

definition mvls_counter_read_one :: "u16 \<Rightarrow> mdio_prog \<Rightarrow> u16 \<Rightarrow> mdio_prog" where
  "mvls_counter_read_one dev_id prog counter =
     (let prog = snd (mvls_write dev_id G1_STATS_OP
                        (arg32 (IMM (push_bit 15 1 OR push_bit 12 4 OR counter))) prog);
          prog = mvls_wait dev_id G1_STATS_OP prog;
          prog = push_emit (snd (mvls_read dev_id (MVLS_REG MVLS_G1 0x1e) prog)) in
      push_emit (snd (mvls_read dev_id (MVLS_REG MVLS_G1 0x1f) prog)))"

definition counter_base_shift :: "mvls_family \<Rightarrow> u16 \<times> u16" where
  "counter_base_shift fam =
     (case fam of
        FAM_AGATE \<Rightarrow> (push_bit 5 1, push_bit 5 1)
      | FAM_PERIDOT \<Rightarrow> (push_bit 5 1, push_bit 5 1)
      | FAM_AMETHYST \<Rightarrow> (push_bit 5 1, push_bit 5 1)
      | _ \<Rightarrow> (0, 1))"

definition mvls_counter_prog :: "u16 \<Rightarrow> mvls_family \<Rightarrow> mdio_prog" where
  "mvls_counter_prog dev_id fam =
     (case counter_base_shift fam of (base, shift) \<Rightarrow>
        let prog = mvls_wait dev_id G1_STATS_OP MDIO_PROG_EMPTY;
            capture = push_bit 15 1 OR push_bit 12 5;
            prog = mdio_prog_push prog
                     (INSN OP_ADD (IMM (capture OR base)) (IMM 0) (REG 1));
            loop = prog_len prog;
            prog = snd (mvls_write dev_id G1_STATS_OP (arg32 (REG 1)) prog);
            prog = mvls_wait dev_id G1_STATS_OP prog;
            prog = foldl (mvls_counter_read_one dev_id) prog [0x04, 0x06, 0x07, 0x10, 0x13, 0x12];
            prog = mdio_prog_push prog (INSN OP_ADD (REG 1) (IMM shift) (REG 1)) in
        mdio_prog_push prog
          (INSN OP_JNE (REG 1) (IMM (capture OR (base + shift * 11)))
             (GOTO (prog_len prog) loop)))"

text \<open>
  The rounds of \<^verbatim>\<open>counter\<close> and \<^verbatim>\<open>counter repeat\<close>: each link is what the kernel
  answers in that round. \<open>None\<close> when the command is still running after the last of them.
\<close>

fun counter_rounds ::
  "bool \<Rightarrow> kernel_link list \<Rightarrow> string \<Rightarrow> mdio_prog \<Rightarrow> counter_ctx \<Rightarrow> (int \<times> counter_row list) option" where
  "counter_rounds again [] bus_id prog prev = None"
| "counter_rounds again (link # links) bus_id prog prev =
     (case mdio_xfer link bus_id prog (mvls_counter_cb prev) of (err, rows) \<Rightarrow>
        if err \<noteq> 0 then Some (1, rows)
        else if again then
          map_option (\<lambda>(err, rows'). (err, rows @ rows'))
            (counter_rounds again links bus_id prog (counter_update prev rows))
        else Some (0, rows))"

definition mvls_counter_exec ::
  "kernel_link \<Rightarrow> kernel_link list \<Rightarrow> string \<Rightarrow> u16 \<Rightarrow> string list \<Rightarrow> (int \<times> counter_row list) option" where
  "mvls_counter_exec link links bus_id dev_id argv =
     (case argv_pop (snd (argv_pop argv)) of
        (Some arg, _) \<Rightarrow>
          if arg = ''repeat'' then
            counter_rounds True links bus_id
              (mvls_counter_prog dev_id (mvls_get_family link bus_id dev_id)) (replicate 11 (replicate 6 0))
          else Some (1, [])
      | (None, _) \<Rightarrow>
          counter_rounds False links bus_id
            (mvls_counter_prog dev_id (mvls_get_family link bus_id dev_id)) (replicate 11 (replicate 6 0)))"

section \<open>Address table\<close>

definition mvls_atu_cb :: "char xfer_cb" where
  "mvls_atu_cb data err = (if length data \<noteq> 0 then (1, []) else (err, []))"

definition atu_select_fid :: "u16 \<Rightarrow> int \<Rightarrow> mdio_prog \<Rightarrow> mdio_prog" where
  "atu_select_fid dev_id fid prog =
     (let prog = mvls_read_to dev_id (MVLS_REG MVLS_G1 0x01) 0 prog;
          prog = mdio_prog_push prog (INSN OP_AND (REG 0) (IMM (ucast (0xf0000 :: u32))) (REG 0));
          prog = mdio_prog_push prog (INSN OP_OR (REG 0) (IMM (word_of_int (fid AND 0xfff))) (REG 0)) in
      snd (mvls_write dev_id (MVLS_REG MVLS_G1 0x01) (arg32 (REG 0)) prog))"

definition atu_exec_op :: "u16 \<Rightarrow> u8 \<Rightarrow> mdio_prog \<Rightarrow> mdio_prog" where
  "atu_exec_op dev_id oper prog =
     (let prog = mvls_wait dev_id (MVLS_REG MVLS_G1 0x0b) prog;
          prog = mvls_read_to dev_id (MVLS_REG MVLS_G1 0x0b) 0 prog;
          prog = mdio_prog_push prog (INSN OP_AND (REG 0) (IMM 0xfff) (REG 0));
          prog = mdio_prog_push prog
                   (INSN OP_OR (REG 0) (IMM (push_bit 15 1 OR push_bit 12 (ucast oper))) (REG 0));
          prog = snd (mvls_write dev_id (MVLS_REG MVLS_G1 0x0b) (arg32 (REG 0)) prog) in
      mvls_wait dev_id (MVLS_REG MVLS_G1 0x0b) prog)"

text \<open>\<^verbatim>\<open>read_stat\<close>: a wrong option is reported but adds nothing to the operation.\<close>

definition atu_read_stat :: "string list \<Rightarrow> u8 \<Rightarrow> u8" where
  "atu_read_stat argv oper =
     (case argv_pop argv of
        (None, _) \<Rightarrow> oper + 2
      | (Some arg, _) \<Rightarrow> if arg = ''static'' then oper + 1 else oper)"

text \<open>The program of the \<^verbatim>\<open>atu\<close> command, or \<open>None\<close> where it refuses its arguments.\<close>

definition mvls_atu_prog :: "u16 \<Rightarrow> string list \<Rightarrow> mdio_prog option" where
  "mvls_atu_prog dev_id argv =
     (case argv_pop (snd (argv_pop argv)) of
        (None, _) \<Rightarrow> None
      | (Some cmd, argv) \<Rightarrow>
          if cmd \<noteq> ''flush'' then None
          else (case argv_pop argv of
                  (None, _) \<Rightarrow> Some (atu_exec_op dev_id 2 MDIO_PROG_EMPTY)
                | (Some arg, argv) \<Rightarrow>
                    if arg = ''all'' then
                      Some (atu_exec_op dev_id (atu_read_stat argv 0) MDIO_PROG_EMPTY)
                    else (case strtol arg of (fid, _, _) \<Rightarrow>
                           if fid < 0 then None
                           else Some (atu_exec_op dev_id (atu_read_stat argv 4)
                                        (atu_select_fid dev_id fid MDIO_PROG_EMPTY)))))"

definition mvls_atu_exec :: "kernel_link \<Rightarrow> string \<Rightarrow> u16 \<Rightarrow> string list \<Rightarrow> int \<times> string" where
  "mvls_atu_exec link bus_id dev_id argv =
     (case mvls_atu_prog dev_id argv of
        None \<Rightarrow> (1, [])
      | Some prog \<Rightarrow>
          (case mdio_xfer link bus_id prog mvls_atu_cb of (err, s) \<Rightarrow> (if err \<noteq> 0 then 1 else 0, s)))"

section \<open>The command\<close>

datatype mvls_output = Chars string | Rows "counter_row list"

definition mvls_exec ::
  "phy_uapi \<Rightarrow> kernel_link \<Rightarrow> kernel_link list \<Rightarrow> string \<Rightarrow> string list \<Rightarrow> (int \<times> mvls_output) option" where
  "mvls_exec U link links bus_id argv =
     (case argv_pop argv of
        (None, _) \<Rightarrow> Some (1, Chars [])
      | (Some arg, argv) \<Rightarrow>
          (case mdio_parse_dev U arg True of
             Inl e \<Rightarrow> Some (1, Chars [])
           | Inr dev_id \<Rightarrow>
               (case argv_peek argv of
                  None \<Rightarrow> Some (1, Chars [])
                | Some cmd \<Rightarrow>
                    if cmd = ''atu'' then
                      Some (apsnd Chars (mvls_atu_exec link bus_id dev_id argv))
                    else if cmd = ''counter'' then
                      map_option (apsnd Rows) (mvls_counter_exec link links bus_id dev_id argv)
                    else if cmd = ''lag'' then
                      Some (apsnd Chars (mvls_lag_exec link bus_id dev_id argv))
                    else map_option (apsnd Chars)
                           (mdio_common_exec link (mvls_device bus_id dev_id) argv))))"

end
