(* ===== verification/Mdio_Main.thy ===== *)
theory Mdio_Main
  imports Phy Paged_Phy Xrs Bus_Cmd Mvls_Commands
begin

text \<open>
  \<^verbatim>\<open>src/mdio/main.c\<close>: options, initialisation, and the choice of the command from the
  arguments, with the shortcuts for \<^verbatim>\<open>phy\<close> and \<^verbatim>\<open>mmd\<close>.
\<close>

section \<open>Commands\<close>

text \<open>
  What \<^verbatim>\<open>main\<close> takes from its surroundings: the constants of the Linux headers, the bus paths that
  \<^verbatim>\<open>glob\<close> finds, the kernel at the first transfer and at the later ones of a repeated
  command, and the results of the two initialisations and of \<^verbatim>\<open>modprobe\<close>.
\<close>

record main_env =
  me_uapi :: phy_uapi
  me_glob :: "string \<Rightarrow> string list"
  me_link :: kernel_link
  me_links :: "kernel_link list"
  me_init :: int
  me_modprobe :: int
  me_reinit :: int

datatype main_opt = Opt_h | Opt_v | Opt_unknown

datatype main_out = Usage | Version | Nothing | Printed string | Reports "report list" | Switch mvls_output

type_synonym cmd_exec = "main_env \<Rightarrow> string \<Rightarrow> string list \<Rightarrow> (int \<times> main_out) option"

definition reports_cmd ::
  "(phy_uapi \<Rightarrow> kernel_link \<Rightarrow> string \<Rightarrow> string list \<Rightarrow> (int \<times> report list) option) \<Rightarrow> cmd_exec" where
  "reports_cmd f E b argv = map_option (apsnd Reports) (f (me_uapi E) (me_link E) b argv)"

definition mvls_cmd_exec :: cmd_exec where
  "mvls_cmd_exec E b argv =
     map_option (apsnd Switch) (mvls_exec (me_uapi E) (me_link E) (me_links E) b argv)"

text \<open>The commands between \<^verbatim>\<open>cmds_start\<close> and \<^verbatim>\<open>cmds_end\<close>, which the linker collects.\<close>

definition cmds :: "(string \<times> cmd_exec) list" where
  "cmds =
     [(''phy'', reports_cmd phy_exec),
      (''mmd'', reports_cmd mmd_exec),
      (''mmd-c22'', reports_cmd mmd_c22_exec),
      (''mva'', reports_cmd mva_exec),
      (''mscc'', reports_cmd mscc_exec),
      (''mvls'', mvls_cmd_exec),
      (''xrs'', reports_cmd xrs_exec)]"

text \<open>The exit status is 1 for every nonzero result.\<close>

definition as_status :: "int \<times> main_out \<Rightarrow> int \<times> main_out" where
  "as_status = apfst (\<lambda>err. if err \<noteq> 0 then 1 else 0)"

definition main_bus :: "main_env \<Rightarrow> string \<Rightarrow> string list \<Rightarrow> (int \<times> main_out) option" where
  "main_bus E b argv =
     (case argv_peek argv of
        None \<Rightarrow> Some (as_status (apsnd Printed (bus_status (me_uapi E) (me_link E) b)))
      | Some arg \<Rightarrow>
          (case map_of cmds arg of
             Some cmd \<Rightarrow> map_option as_status (cmd E b (snd (argv_pop argv)))
           | None \<Rightarrow>
               if CHR '':'' \<in> set arg then map_option as_status (reports_cmd mmd_exec E b argv)
               else map_option as_status (reports_cmd phy_exec E b argv)))"

definition main_ready :: "main_env \<Rightarrow> bool" where
  "main_ready E \<longleftrightarrow> me_init E = 0 \<or> me_modprobe E = 0 \<and> me_reinit E = 0"

definition mdio_main :: "main_env \<Rightarrow> main_opt list \<Rightarrow> string list \<Rightarrow> (int \<times> main_out) option" where
  "mdio_main E opts argv =
     (case opts of
        Opt_h # _ \<Rightarrow> Some (0, Usage)
      | Opt_v # _ \<Rightarrow> Some (0, Version)
      | Opt_unknown # _ \<Rightarrow> Some (1, Usage)
      | [] \<Rightarrow>
          if \<not> main_ready E then Some (1, Nothing)
          else (case argv_pop argv of
                  (None, _) \<Rightarrow> Some (as_status (apsnd Printed (bus_list (me_glob E))))
                | (Some arg, argv) \<Rightarrow>
                    (case mdio_parse_bus (me_glob E) arg of
                       Inl e \<Rightarrow> Some (1, Nothing)
                     | Inr b \<Rightarrow> main_bus E b argv)))"

section \<open>Properties\<close>

text \<open>
  Whatever the arguments, the tool ends with status 0 or 1 when it ends.
\<close>

theorem main_status_0_or_1:
  assumes "mdio_main E opts argv = Some (status, res)"
  shows "status = 0 \<or> status = 1"
  using assms
  by (auto simp: mdio_main_def main_bus_def as_status_def
      split: list.splits main_opt.splits if_splits option.splits prod.splits sum.splits)

theorem main_status_0_or_1_witness:
  "mdio_main \<lparr>me_uapi = linux_uapi, me_glob = \<lambda>_. [], me_link = \<lambda>_ _ _. No_Socket, me_links = [],
      me_init = 0, me_modprobe = 0, me_reinit = 0\<rparr> [] [''x''] = Some (1, Nothing) \<and>
   (1 = (0 :: int) \<or> 1 = (1 :: int))"
proof -
  have run: "mdio_main \<lparr>me_uapi = linux_uapi, me_glob = \<lambda>_. [], me_link = \<lambda>_ _ _. No_Socket, me_links = [],
      me_init = 0, me_modprobe = 0, me_reinit = 0\<rparr> [] [''x''] = Some (1, Nothing)"
    by (simp add: mdio_main_def main_ready_def mdio_parse_bus_def mdio_for_each_def)
  show ?thesis using run main_status_0_or_1 [OF run] by simp
qed



text \<open>
  The command may be left out: an argument that is not the name of a command is taken as the
  address of an MMD if it has a colon, and of a PHY if not, with the rest of the line unchanged.
\<close>

theorem main_shortcuts:
  assumes "arg \<notin> fst ` set cmds"
  shows "mdio_main E opts (pat # arg # argv) =
           mdio_main E opts (pat # (if CHR '':'' \<in> set arg then ''mmd'' else ''phy'') # arg # argv)"
proof -
  have none: "map_of cmds arg = None"
    using assms by (simp add: map_of_eq_None_iff)
  have "map_of cmds ''mmd'' = Some (reports_cmd mmd_exec)" "map_of cmds ''phy'' = Some (reports_cmd phy_exec)"
    by (simp_all add: cmds_def)
  then have "main_bus E b (arg # argv) =
      main_bus E b ((if CHR '':'' \<in> set arg then ''mmd'' else ''phy'') # arg # argv)" for b
    by (simp add: main_bus_def none)
  then show ?thesis by (cases opts) (auto simp: mdio_main_def split: sum.split)
qed

theorem main_shortcuts_witness:
  "\<forall>E opts. mdio_main E opts [''b'', ''9:4'', ''0x1000''] =
     mdio_main E opts [''b'', ''mmd'', ''9:4'', ''0x1000'']"
  using main_shortcuts [of "''9:4''" _ _ "''b''" "[''0x1000'']"] by (simp add: cmds_def)

end
