(* ===== verification/Mvls_Tables.thy ===== *)
theory Mvls_Tables
  imports Cstr
begin

text \<open>
  The tables of a LinkStreet switch as \<^verbatim>\<open>src/mvls\<close> reads them: the register macros, entries and
  chip families of \<^verbatim>\<open>mvls.h\<close>, the entries of the kernel in \<^verbatim>\<open>devlink.h\<close> and their decoding
  in \<^verbatim>\<open>mvls.c\<close>. A memory region is the list of its bytes, the empty list being the region that
  is not loaded (null data, size 0); \<open>None\<close> in the result of an access is an access outside the
  region. The host is little-endian, as the registers lie in the region in host order.
\<close>

section \<open>Registers\<close>

definition reg_bits :: "u16 \<Rightarrow> nat \<Rightarrow> nat \<Rightarrow> u16" where
  "reg_bits reg b n = drop_bit b reg AND mask n"

definition reg_bit :: "u16 \<Rightarrow> nat \<Rightarrow> bool" where
  "reg_bit reg b \<longleftrightarrow> reg_bits reg b 1 \<noteq> 0"

type_synonym devlink_region = "u8 list"

definition devlink_region_loaded :: "devlink_region \<Rightarrow> bool" where
  "devlink_region_loaded region \<longleftrightarrow> region \<noteq> []"

definition le16 :: "u8 \<Rightarrow> u8 \<Rightarrow> u16" where
  "le16 lo hi = ucast lo OR push_bit 8 (ucast hi)"

definition reg16 :: "devlink_region \<Rightarrow> int \<Rightarrow> u16 option" where
  "reg16 region reg =
     (if 0 \<le> reg \<and> 2 * nat reg + 1 < length region
      then Some (le16 (region ! (2 * nat reg)) (region ! (2 * nat reg + 1))) else None)"

fun u16s :: "u8 list \<Rightarrow> u16 list" where
  "u16s (lo # hi # bs) = le16 lo hi # u16s bs"
| "u16s _ = []"

section \<open>Entries as the kernel delivers them\<close>

record atu_kentry =
  ka_fid :: u16
  ka_op :: u16
  ka_data :: u16
  ka_01 :: u16
  ka_23 :: u16
  ka_45 :: u16

record vtu_kentry =
  kv_fid :: u16
  kv_sid :: u16
  kv_op :: u16
  kv_vid :: u16
  kv_data :: "u16 list"
  kv_resvd :: u16

record stu_kentry =
  ks_sid :: u16
  ks_vid :: u16
  ks_data :: "u16 list"
  ks_resvd :: u16

text \<open>The entries that lie in a region one after the other.\<close>

fun atu_kentries :: "u16 list \<Rightarrow> atu_kentry list" where
  "atu_kentries (a # b # c # d # e # f # ws) =
     \<lparr>ka_fid = a, ka_op = b, ka_data = c, ka_01 = d, ka_23 = e, ka_45 = f\<rparr> # atu_kentries ws"
| "atu_kentries _ = []"

fun vtu_kentries :: "u16 list \<Rightarrow> vtu_kentry list" where
  "vtu_kentries (a # b # c # d # e # f # g # h # ws) =
     \<lparr>kv_fid = a, kv_sid = b, kv_op = c, kv_vid = d, kv_data = [e, f, g], kv_resvd = h\<rparr> #
     vtu_kentries ws"
| "vtu_kentries _ = []"

fun stu_kentries :: "u16 list \<Rightarrow> stu_kentry list" where
  "stu_kentries (a # b # c # d # e # f # ws) =
     \<lparr>ks_sid = a, ks_vid = b, ks_data = [c, d, e], ks_resvd = f\<rparr> # stu_kentries ws"
| "stu_kentries _ = []"

section \<open>Decoded entries\<close>

definition MAX_PORTS :: nat where "MAX_PORTS = 11"

record prio_override =
  po_set :: bool
  po_pri :: u8

datatype vtu_member = VTU_UNMODIFIED | VTU_UNTAGGED | VTU_TAGGED | VTU_NOT_MEMBER

primrec vtu_member_code :: "vtu_member \<Rightarrow> u16" where
  "vtu_member_code VTU_UNMODIFIED = 0"
| "vtu_member_code VTU_UNTAGGED = 1"
| "vtu_member_code VTU_TAGGED = 2"
| "vtu_member_code VTU_NOT_MEMBER = 3"

definition vtu_member_of :: "u16 \<Rightarrow> vtu_member" where
  "vtu_member_of n =
     (if n = 0 then VTU_UNMODIFIED else if n = 1 then VTU_UNTAGGED
      else if n = 2 then VTU_TAGGED else VTU_NOT_MEMBER)"

record vtu_entry =
  v_vid :: u16
  v_fid :: u16
  v_sid :: u8
  v_member :: "vtu_member list"
  v_policy :: bool
  v_qpri :: prio_override
  v_fpri :: prio_override

datatype stu_state = STU_DISABLED | STU_BLOCKING | STU_LEARNING | STU_FORWARDING

primrec stu_state_code :: "stu_state \<Rightarrow> u16" where
  "stu_state_code STU_DISABLED = 0"
| "stu_state_code STU_BLOCKING = 1"
| "stu_state_code STU_LEARNING = 2"
| "stu_state_code STU_FORWARDING = 3"

definition stu_state_of :: "u16 \<Rightarrow> stu_state" where
  "stu_state_of n =
     (if n = 0 then STU_DISABLED else if n = 1 then STU_BLOCKING
      else if n = 2 then STU_LEARNING else STU_FORWARDING)"

record stu_entry =
  s_sid :: u8
  s_state :: "stu_state list"

text \<open>The state of an address is a number: the union of the unicast and multicast states.\<close>

definition ATU_UC_S_PCY_PO :: u16 where "ATU_UC_S_PCY_PO = 0x9"
definition ATU_UC_S_NRL_PO :: u16 where "ATU_UC_S_NRL_PO = 0xb"
definition ATU_UC_S_MGMT_PO :: u16 where "ATU_UC_S_MGMT_PO = 0xd"
definition ATU_UC_S_PO :: u16 where "ATU_UC_S_PO = 0xf"
definition ATU_MC_PCY_PO :: u16 where "ATU_MC_PCY_PO = 0xc"
definition ATU_MC_NRL_PO :: u16 where "ATU_MC_NRL_PO = 0xd"
definition ATU_MC_MGMT_PO :: u16 where "ATU_MC_MGMT_PO = 0xe"
definition ATU_MC_PO :: u16 where "ATU_MC_PO = 0xf"

record atu_entry =
  a_fid :: u16
  a_addr :: "u8 list"
  a_qpri :: prio_override
  a_fpri :: prio_override
  a_lag :: bool
  a_portvec :: u16
  a_state :: u16

section \<open>Decoding\<close>

text \<open>
  \<open>None\<close> is \<^verbatim>\<open>ENODATA\<close>: the entry is not valid and ends the table. The priority of an override
  that is not set is never read; the model has 0 there.
\<close>

definition dev_vtu_parse :: "nat \<Rightarrow> vtu_kentry \<Rightarrow> vtu_entry option" where
  "dev_vtu_parse mbits k =
     (if \<not> reg_bit (kv_vid k) 12 then None
      else Some
        \<lparr>v_vid = reg_bits (kv_vid k) 0 12,
         v_fid = reg_bits (kv_fid k) 0 12,
         v_sid = ucast (reg_bits (kv_sid k) 0 6),
         v_member =
           map (\<lambda>i. vtu_member_of
                  (reg_bits (kv_data k ! (i div (16 div mbits))) (i * mbits mod 16) 2)) [0 ..< 11],
         v_policy = reg_bit (kv_fid k) 12,
         v_qpri = \<lparr>po_set = False, po_pri = 0\<rparr>,
         v_fpri = \<lparr>po_set = False, po_pri = 0\<rparr>\<rparr>)"

definition peridot_dev_vtu_parse :: "vtu_kentry \<Rightarrow> vtu_entry option" where
  "peridot_dev_vtu_parse = dev_vtu_parse 2"

definition opal_dev_vtu_parse :: "vtu_kentry \<Rightarrow> vtu_entry option" where
  "opal_dev_vtu_parse = dev_vtu_parse 4"

definition dev_stu_parse :: "nat \<Rightarrow> stu_kentry \<Rightarrow> stu_entry option" where
  "dev_stu_parse mbits k =
     (let offs = (if mbits = 4 then 2 else 0) in
      if \<not> reg_bit (ks_vid k) 12 then None
      else Some
        \<lparr>s_sid = ucast (reg_bits (ks_sid k) 0 6),
         s_state =
           map (\<lambda>i. stu_state_of
                  (reg_bits (ks_data k ! (i div (16 div mbits))) ((i * mbits + offs) mod 16) 2))
             [0 ..< 11]\<rparr>)"

definition peridot_dev_stu_parse :: "stu_kentry \<Rightarrow> stu_entry option" where
  "peridot_dev_stu_parse = dev_stu_parse 2"

definition opal_dev_stu_parse :: "stu_kentry \<Rightarrow> stu_entry option" where
  "opal_dev_stu_parse = dev_stu_parse 4"

definition prio_override_state :: "bool \<Rightarrow> u16 \<Rightarrow> bool" where
  "prio_override_state mc state \<longleftrightarrow>
     (if mc \<and> (state = ATU_MC_PCY_PO \<or> state = ATU_MC_NRL_PO \<or> state = ATU_MC_MGMT_PO \<or>
               state = ATU_MC_PO) then True
      else if state = ATU_UC_S_PCY_PO \<or> state = ATU_UC_S_NRL_PO \<or> state = ATU_UC_S_MGMT_PO \<or>
              state = ATU_UC_S_PO then True
      else False)"

definition dev_atu_parse :: "bool \<Rightarrow> atu_kentry \<Rightarrow> atu_entry option" where
  "dev_atu_parse have_fpri k =
     (if reg_bits (ka_data k) 0 4 = 0 then None
      else
        let addr =
              [ucast (reg_bits (ka_01 k) 8 8), ucast (reg_bits (ka_01 k) 0 8),
               ucast (reg_bits (ka_23 k) 8 8), ucast (reg_bits (ka_23 k) 0 8),
               ucast (reg_bits (ka_45 k) 8 8), ucast (reg_bits (ka_45 k) 0 8)];
            state = reg_bits (ka_data k) 0 4;
            set_prio = prio_override_state (addr ! 0 AND 1 \<noteq> 0) state in
        Some
          \<lparr>a_fid = ka_fid k, a_addr = addr,
           a_qpri = \<lparr>po_set = set_prio,
                     po_pri = if set_prio then ucast (reg_bits (ka_op k) 8 3) else 0\<rparr>,
           a_fpri = \<lparr>po_set = have_fpri \<and> set_prio,
                     po_pri = if have_fpri \<and> set_prio then ucast (reg_bits (ka_op k) 0 3) else 0\<rparr>,
           a_lag = reg_bit (ka_data k) 15,
           a_portvec = reg_bits (ka_data k) 4 11,
           a_state = state\<rparr>)"

definition opal_dev_atu_parse :: "atu_kentry \<Rightarrow> atu_entry option" where
  "opal_dev_atu_parse = dev_atu_parse False"

definition peridot_dev_atu_parse :: "atu_kentry \<Rightarrow> atu_entry option" where
  "peridot_dev_atu_parse = dev_atu_parse True"

section \<open>Ports\<close>

text \<open>The trunk of a port, -1 when it has none, and its default forwarding database.\<close>

definition opal_port_lag :: "devlink_region \<Rightarrow> int option" where
  "opal_port_lag rg = do {
     ctrl1 \<leftarrow> reg16 rg 5;
     Some (if \<not> reg_bit ctrl1 14 then - 1 else uint (reg_bits ctrl1 8 4))
   }"

definition opal_port_fid :: "devlink_region \<Rightarrow> u16 option" where
  "opal_port_fid rg = do {
     r6 \<leftarrow> reg16 rg 6;
     r5 \<leftarrow> reg16 rg 5;
     Some (reg_bits r6 12 4 OR push_bit 4 (reg_bits r5 0 8))
   }"

section \<open>Families and chips\<close>

record family =
  port_lag :: "devlink_region \<Rightarrow> int option"
  port_fid :: "devlink_region \<Rightarrow> u16 option"
  atu_parse :: "atu_kentry \<Rightarrow> atu_entry option"
  vtu_parse :: "vtu_kentry \<Rightarrow> vtu_entry option"
  stu_parse :: "stu_kentry \<Rightarrow> stu_entry option"

definition opal_family :: family where
  "opal_family =
     \<lparr>port_lag = opal_port_lag, port_fid = opal_port_fid, atu_parse = opal_dev_atu_parse,
      vtu_parse = opal_dev_vtu_parse, stu_parse = opal_dev_stu_parse\<rparr>"

definition peridot_family :: family where
  "peridot_family =
     \<lparr>port_lag = opal_port_lag, port_fid = opal_port_fid, atu_parse = peridot_dev_atu_parse,
      vtu_parse = peridot_dev_vtu_parse, stu_parse = peridot_dev_stu_parse\<rparr>"

definition amethyst_family :: family where
  "amethyst_family =
     \<lparr>port_lag = opal_port_lag, port_fid = opal_port_fid, atu_parse = peridot_dev_atu_parse,
      vtu_parse = peridot_dev_vtu_parse, stu_parse = peridot_dev_stu_parse\<rparr>"

record chip =
  chip_id :: string
  chip_family :: family
  n_ports :: nat

definition chips :: "chip list" where
  "chips =
     [\<lparr>chip_id = ''Marvell 88E6097/88E6097F'', chip_family = opal_family, n_ports = 11\<rparr>,
      \<lparr>chip_id = ''Marvell 88E6352'', chip_family = opal_family, n_ports = 7\<rparr>,
      \<lparr>chip_id = ''Marvell 88E6320'', chip_family = opal_family, n_ports = 7\<rparr>,
      \<lparr>chip_id = ''Marvell 88E6321'', chip_family = opal_family, n_ports = 7\<rparr>,
      \<lparr>chip_id = ''Marvell 88E6190'', chip_family = peridot_family, n_ports = 11\<rparr>,
      \<lparr>chip_id = ''Marvell 88E6190X'', chip_family = peridot_family, n_ports = 11\<rparr>,
      \<lparr>chip_id = ''Marvell 88E6191'', chip_family = peridot_family, n_ports = 11\<rparr>,
      \<lparr>chip_id = ''Marvell 88E6191X'', chip_family = amethyst_family, n_ports = 11\<rparr>,
      \<lparr>chip_id = ''Marvell 88E6193X'', chip_family = amethyst_family, n_ports = 11\<rparr>,
      \<lparr>chip_id = ''Marvell 88E6290'', chip_family = peridot_family, n_ports = 11\<rparr>,
      \<lparr>chip_id = ''Marvell 88E6390'', chip_family = peridot_family, n_ports = 11\<rparr>,
      \<lparr>chip_id = ''Marvell 88E6390X'', chip_family = peridot_family, n_ports = 11\<rparr>,
      \<lparr>chip_id = ''Marvell 88E6393X'', chip_family = amethyst_family, n_ports = 11\<rparr>]"

section \<open>What decoding recovers\<close>

text \<open>A register that holds two-bit fields, each given by its value and position.\<close>

primrec pack :: "(u16 \<times> nat) list \<Rightarrow> u16" where
  "pack [] = 0"
| "pack (f # fs) = push_bit (snd f) (fst f) OR pack fs"

lemma bit_pack:
  "bit (pack fs) n \<longleftrightarrow> n < 16 \<and> (\<exists>(v, k) \<in> set fs. k \<le> n \<and> bit v (n - k))"
  by (induction fs) (auto simp: bit_simps)

lemma reg_bits_pack:
  assumes "(v, k) \<in> set fs" and "k + 2 \<le> 16"
    and "\<And>u j. (u, j) \<in> set fs \<Longrightarrow> u = v \<and> j = k \<or> j + 2 \<le> k \<or> k + 2 \<le> j"
    and "\<And>u j n. (u, j) \<in> set fs \<Longrightarrow> bit u n \<Longrightarrow> n < 2"
  shows "reg_bits (pack fs) k 2 = v"
proof (rule bit_word_eqI)
  fix n assume "n < LENGTH(16)"
  have "bit (reg_bits (pack fs) k 2) n \<longleftrightarrow> n < 2 \<and> bit (pack fs) (n + k)"
    by (auto simp: reg_bits_def bit_simps ac_simps)
  also have "\<dots> \<longleftrightarrow> n < 2 \<and> bit v n"
  proof (cases "n < 2")
    case True
    have "bit u (n + k - j) \<longleftrightarrow> u = v \<and> j = k \<and> bit v n" if "(u, j) \<in> set fs" "j \<le> n + k" for u j
    proof
      assume b: "bit u (n + k - j)"
      then have "n + k - j < 2" by (rule assms(4) [OF that(1)])
      with assms(3) [OF that(1)] that(2) True have "u = v \<and> j = k" by linarith
      with b show "u = v \<and> j = k \<and> bit v n" by simp
    qed simp
    then have "(\<exists>(u, j) \<in> set fs. j \<le> n + k \<and> bit u (n + k - j)) \<longleftrightarrow> bit v n"
      using bexI [of _ "(v, k)" "set fs", OF _ assms(1)] by auto
    then show ?thesis
      using True assms(2) by (simp add: bit_pack)
  qed simp
  also have "\<dots> \<longleftrightarrow> bit v n"
    using assms(4) [OF assms(1)] by blast
  finally show "bit (reg_bits (pack fs) k 2) n \<longleftrightarrow> bit v n" .
qed

lemma vtu_member_of_code [simp]: "vtu_member_of (vtu_member_code m) = m"
  by (cases m) (simp_all add: vtu_member_of_def)

lemma stu_state_of_code [simp]: "stu_state_of (stu_state_code s) = s"
  by (cases s) (simp_all add: stu_state_of_def)

lemma two_bit_codes:
  "bit (vtu_member_code m) n \<Longrightarrow> n < 2" "bit (stu_state_code s) n \<Longrightarrow> n < 2"
proof -
  have *: "bit w n \<Longrightarrow> n < 2" if "w \<in> {0, 1, 2, 3 :: u16}" for w
  proof -
    assume "bit w n"
    moreover have "take_bit 2 w = w" using that by auto
    ultimately show "n < 2" by (metis bit_take_bit_iff)
  qed
  have "vtu_member_code m \<in> {0, 1, 2, 3}" "stu_state_code s \<in> {0, 1, 2, 3}"
    by (cases m, simp_all) (cases s, simp_all)
  then show "bit (vtu_member_code m) n \<Longrightarrow> n < 2" "bit (stu_state_code s) n \<Longrightarrow> n < 2"
    using * by blast+
qed

text \<open>
  The three data registers of an entry, as the two generations of chips lay them out. Opal has four
  bits for each port, the membership in the lower and the spanning tree state in the upper
  two, and one image serves both tables; Peridot has two bits for each port.
\<close>

definition opal_image :: "vtu_member list \<Rightarrow> stu_state list \<Rightarrow> u16 list" where
  "opal_image ms ss =
     map (\<lambda>r. pack (concat (map (\<lambda>i. [(vtu_member_code (ms ! i), 4 * i mod 16),
                                     (stu_state_code (ss ! i), 4 * i mod 16 + 2)])
                        (filter (\<lambda>i. i < 11) [4 * r ..< 4 * r + 4])))) [0, 1, 2]"

definition peridot_image :: "u16 list \<Rightarrow> u16 list" where
  "peridot_image vs =
     map (\<lambda>r. pack (map (\<lambda>i. (vs ! i, 2 * i mod 16)) (filter (\<lambda>i. i < 11) [8 * r ..< 8 * r + 8])))
       [0, 1, 2]"

lemma set_block:
  assumes "0 < (c :: nat)"
  shows "set (filter P [c * q ..< c * q + c]) = {j. j div c = q \<and> P j}"
proof -
  have "c * q \<le> j \<and> j < c * q + c \<longleftrightarrow> j div c = q" for j
    using dividend_less_times_div [OF assms, of j] times_div_less_eq_dividend [of c j]
    by (auto intro: div_nat_eqI simp: ac_simps)
  then show ?thesis by auto
qed

lemma slots:
  fixes i j :: nat
  shows "4 * i mod 16 = 4 * (i mod 4)" and "2 * i mod 16 = 2 * (i mod 8)"
    and "(4 * i + 2) mod 16 = 4 * (i mod 4) + 2"
    and "i mod 4 < 4" and "i mod 8 < 8"
    and "j div 4 = i div 4 \<Longrightarrow> j = i \<or> j mod 4 < i mod 4 \<or> i mod 4 < j mod 4"
    and "j div 8 = i div 8 \<Longrightarrow> j = i \<or> j mod 8 < i mod 8 \<or> i mod 8 < j mod 8"
proof -
  show 4: "4 * i mod 16 = 4 * (i mod 4)" using mod_mult_mult1 [of 4 i 4] by simp
  show "2 * i mod 16 = 2 * (i mod 8)" using mod_mult_mult1 [of 2 i 8] by simp
  have "(4 * i + 2) mod 16 = (4 * (i mod 4) + 2) mod 16" 
    unfolding 4 [symmetric] by (rule mod_add_left_eq [symmetric])
  moreover have "4 * (i mod 4) + 2 < 16" by (simp add: less_le_trans [of "4 * (i mod 4) + 2" "4 * 3 + 4"])
  ultimately show "(4 * i + 2) mod 16 = 4 * (i mod 4) + 2" by simp
  show "i mod 4 < 4" "i mod 8 < 8" by simp_all
  show "j div 4 = i div 4 \<Longrightarrow> j = i \<or> j mod 4 < i mod 4 \<or> i mod 4 < j mod 4"
    by (metis div_mult_mod_eq nat_neq_iff)
  show "j div 8 = i div 8 \<Longrightarrow> j = i \<or> j mod 8 < i mod 8 \<or> i mod 8 < j mod 8"
    by (metis div_mult_mod_eq nat_neq_iff)
qed

lemma opal_image_fields:
  assumes "i < 11"
  shows "reg_bits (opal_image ms ss ! (i div 4)) (4 * i mod 16) 2 = vtu_member_code (ms ! i)"
    and "reg_bits (opal_image ms ss ! (i div 4)) ((4 * i + 2) mod 16) 2 = stu_state_code (ss ! i)"
proof -
  have "i div 4 < 3" using assms by simp
  then have img: "opal_image ms ss ! (i div 4) =
      pack (concat (map (\<lambda>i. [(vtu_member_code (ms ! i), 4 * i mod 16),
                            (stu_state_code (ss ! i), 4 * i mod 16 + 2)])
              (filter (\<lambda>i. i < 11) [4 * (i div 4) ..< 4 * (i div 4) + 4])))" (is "_ = pack ?fs")
    by (auto simp: opal_image_def less_Suc_eq numeral_3_eq_3)
  have mem: "x \<in> set ?fs \<longleftrightarrow>
      (\<exists>j. j div 4 = i div 4 \<and> j < 11 \<and> (x = (vtu_member_code (ms ! j), 4 * j mod 16) \<or>
           x = (stu_state_code (ss ! j), 4 * j mod 16 + 2)))" for x
    by (simp only: set_concat set_map set_block [OF zero_less_numeral]) auto
  have 1: "(vtu_member_code (ms ! i), 4 * i mod 16) \<in> set ?fs"
    and 2: "(stu_state_code (ss ! i), 4 * i mod 16 + 2) \<in> set ?fs"
    unfolding mem using assms by auto
  have two: "(u, j) \<in> set ?fs \<Longrightarrow> bit u n \<Longrightarrow> n < 2" for u j n
    unfolding mem by (auto dest: two_bit_codes)
  have eq: "j = i \<or> 4 * j mod 16 + 4 \<le> 4 * i mod 16 \<or> 4 * i mod 16 + 4 \<le> 4 * j mod 16"
    if "j div 4 = i div 4" for j :: nat
    unfolding slots(1) using slots(6) [OF that] by linarith
  show "reg_bits (opal_image ms ss ! (i div 4)) (4 * i mod 16) 2 = vtu_member_code (ms ! i)"
    unfolding img
  proof (rule reg_bits_pack [OF 1 _ _ two])
    show "4 * i mod 16 + 2 \<le> 16" unfolding slots(1) using slots(4) [of i] by linarith
    fix u j assume "(u, j) \<in> set ?fs"
    then show "u = vtu_member_code (ms ! i) \<and> j = 4 * i mod 16 \<or> j + 2 \<le> 4 * i mod 16 \<or>
        4 * i mod 16 + 2 \<le> j"
      unfolding mem by (auto dest!: eq)
  qed
  have off: "(4 * i + 2) mod 16 = 4 * i mod 16 + 2" by (simp only: slots)
  show "reg_bits (opal_image ms ss ! (i div 4)) ((4 * i + 2) mod 16) 2 = stu_state_code (ss ! i)"
    unfolding img off
  proof (rule reg_bits_pack [OF 2 _ _ two])
    show "4 * i mod 16 + 2 + 2 \<le> 16" unfolding slots(1) using slots(4) [of i] by linarith
    fix u j assume "(u, j) \<in> set ?fs"
    then show "u = stu_state_code (ss ! i) \<and> j = 4 * i mod 16 + 2 \<or> j + 2 \<le> 4 * i mod 16 + 2 \<or>
        4 * i mod 16 + 2 + 2 \<le> j"
      unfolding mem by (auto dest!: eq)
  qed
qed

lemma peridot_image_fields:
  assumes "i < 11" and "\<And>i n. i < 11 \<Longrightarrow> bit (vs ! i) n \<Longrightarrow> n < 2"
  shows "reg_bits (peridot_image vs ! (i div 8)) (2 * i mod 16) 2 = vs ! i"
proof -
  have "i div 8 < 3" using assms by simp
  then have img: "peridot_image vs ! (i div 8) =
      pack (map (\<lambda>i. (vs ! i, 2 * i mod 16))
              (filter (\<lambda>i. i < 11) [8 * (i div 8) ..< 8 * (i div 8) + 8]))" (is "_ = pack ?fs")
    by (auto simp: peridot_image_def less_Suc_eq numeral_3_eq_3)
  have mem: "x \<in> set ?fs \<longleftrightarrow> (\<exists>j. j div 8 = i div 8 \<and> j < 11 \<and> x = (vs ! j, 2 * j mod 16))" for x
    by (simp only: set_map set_block [OF zero_less_numeral]) auto
  have eq: "j = i \<or> 2 * j mod 16 + 2 \<le> 2 * i mod 16 \<or> 2 * i mod 16 + 2 \<le> 2 * j mod 16"
    if "j div 8 = i div 8" for j :: nat
    unfolding slots(2) using slots(7) [OF that] by linarith
  show ?thesis
    unfolding img
  proof (rule reg_bits_pack)
    show "(vs ! i, 2 * i mod 16) \<in> set ?fs" unfolding mem using assms by auto
    show "2 * i mod 16 + 2 \<le> 16" unfolding slots(2) using slots(5) [of i] by linarith
    show "(u, j) \<in> set ?fs \<Longrightarrow> bit u n \<Longrightarrow> n < 2" for u j n
      unfolding mem using assms(2) by auto
    fix u j assume "(u, j) \<in> set ?fs"
    then show "u = vs ! i \<and> j = 2 * i mod 16 \<or> j + 2 \<le> 2 * i mod 16 \<or> 2 * i mod 16 + 2 \<le> j"
      unfolding mem by (auto dest!: eq)
  qed
qed

lemma peridot_fields:
  "i < 11 \<Longrightarrow> length ms = 11 \<Longrightarrow>
   reg_bits (peridot_image (map vtu_member_code ms) ! (i div 8)) (2 * i mod 16) 2 = vtu_member_code (ms ! i)"
  "i < 11 \<Longrightarrow> length ss = 11 \<Longrightarrow>
   reg_bits (peridot_image (map stu_state_code ss) ! (i div 8)) (2 * i mod 16) 2 = stu_state_code (ss ! i)"
  by (subst peridot_image_fields; auto dest: two_bit_codes)+

lemma reg_bit_eq: "reg_bit r b \<longleftrightarrow> bit r b"
proof -
  have "reg_bits r b 1 = (if bit r b then 1 else 0)"
    unfolding reg_bits_def by (rule bit_word_eqI) (auto simp: bit_simps intro!: Nat.gr0I)
  then show ?thesis by (simp add: reg_bit_def)
qed

lemma reg_bits_0: "reg_bits r 0 n = take_bit n r"
  by (simp add: reg_bits_def take_bit_eq_mask)

lemma map_upt_11:
  assumes "length xs = 11" and "\<And>i. i < 11 \<Longrightarrow> f i = xs ! i"
  shows "map f [0 ..< 11] = xs"
  by (rule nth_equalityI) (use assms in \<open>simp_all del: upt_rec_numeral\<close>)

text \<open>
  C20. The decoding of the VLAN and spanning tree tables recovers what the registers encode, for
  both generations of chips: the membership and the state of each of the eleven ports, the
  VLAN and database numbers and the policy bit; an entry is refused exactly when its valid
  bit is clear. On Opal the same three registers carry both tables.
\<close>

theorem vtu_stu_roundtrip:
  assumes "length ms = 11" and "length ss = 11"
  shows "let vtu_ok = \<lambda>parse k.
               map_option (\<lambda>e. (v_vid e, v_fid e, v_policy e, v_member e)) (parse k) =
               (if bit (kv_vid k) 12
                then Some (take_bit 12 (kv_vid k), take_bit 12 (kv_fid k), bit (kv_fid k) 12, ms)
                else None);
             stu_ok = \<lambda>parse k.
               map_option s_state (parse k) = (if bit (ks_vid k) 12 then Some ss else None) in
         vtu_ok opal_dev_vtu_parse (kv\<lparr>kv_data := opal_image ms ss\<rparr>) \<and>
         stu_ok opal_dev_stu_parse (ks\<lparr>ks_data := opal_image ms ss\<rparr>) \<and>
         vtu_ok peridot_dev_vtu_parse (kv\<lparr>kv_data := peridot_image (map vtu_member_code ms)\<rparr>) \<and>
         stu_ok peridot_dev_stu_parse (ks\<lparr>ks_data := peridot_image (map stu_state_code ss)\<rparr>)"
proof -
  have 1: "map (\<lambda>i. vtu_member_of (reg_bits (opal_image ms ss ! (i div 4)) (4 * i mod 16) 2)) [0 ..< 11] = ms"
    by (rule map_upt_11 [OF assms(1)]) (simp add: opal_image_fields)
  have 2: "map (\<lambda>i. stu_state_of (reg_bits (opal_image ms ss ! (i div 4)) ((4 * i + 2) mod 16) 2)) [0 ..< 11] = ss"
    by (rule map_upt_11 [OF assms(2)]) (simp only: opal_image_fields stu_state_of_code)
  have 3: "map (\<lambda>i. vtu_member_of (reg_bits (peridot_image (map vtu_member_code ms) ! (i div 8)) (2 * i mod 16) 2)) [0 ..< 11] = ms"
    by (rule map_upt_11 [OF assms(1)]) (simp add: peridot_fields assms)
  have 4: "map (\<lambda>i. stu_state_of (reg_bits (peridot_image (map stu_state_code ss) ! (i div 8)) (2 * i mod 16) 2)) [0 ..< 11] = ss"
    by (rule map_upt_11 [OF assms(2)]) (simp add: peridot_fields assms)
  show ?thesis
    unfolding Let_def
      opal_dev_vtu_parse_def opal_dev_stu_parse_def peridot_dev_vtu_parse_def
      peridot_dev_stu_parse_def dev_vtu_parse_def dev_stu_parse_def
    using 1 2 3 4 by (simp add: reg_bit_eq reg_bits_0 mult.commute del: upt_rec_numeral)
qed

definition ex_members :: "vtu_member list" where
  "ex_members =
     [VTU_TAGGED, VTU_UNTAGGED, VTU_UNMODIFIED, VTU_NOT_MEMBER, VTU_TAGGED, VTU_UNTAGGED,
      VTU_UNMODIFIED, VTU_NOT_MEMBER, VTU_TAGGED, VTU_UNTAGGED, VTU_UNMODIFIED]"

definition ex_states :: "stu_state list" where
  "ex_states =
     [STU_FORWARDING, STU_FORWARDING, STU_LEARNING, STU_DISABLED, STU_BLOCKING, STU_FORWARDING,
      STU_FORWARDING, STU_LEARNING, STU_DISABLED, STU_BLOCKING, STU_FORWARDING]"

theorem vtu_stu_roundtrip_witness:
  "map_option s_state
     (opal_dev_stu_parse \<lparr>ks_sid = 1, ks_vid = 0x1005, ks_data = opal_image ex_members ex_states,
                          ks_resvd = 0\<rparr>) = Some ex_states"
  using vtu_stu_roundtrip
    [of ex_members ex_states "\<lparr>kv_fid = 1, kv_sid = 1, kv_op = 0, kv_vid = 0x1005, kv_data = [], kv_resvd = 0\<rparr>"
       "\<lparr>ks_sid = 1, ks_vid = 0x1005, ks_data = [], ks_resvd = 0\<rparr>"]
  by (simp add: Let_def ex_members_def ex_states_def)

lemma byte_of_bits:
  "(ucast (reg_bits r 0 8) :: u8) = ucast r" "(ucast (reg_bits r 8 8) :: u8) = ucast (drop_bit 8 r)"
  by (rule bit_word_eqI; auto simp: reg_bits_def bit_simps)+

lemma bytes_rejoin: "push_bit 8 (ucast (ucast (drop_bit 8 r) :: u8)) OR ucast (ucast r :: u8) = (r :: u16)"
  by (rule bit_word_eqI) (auto simp: bit_simps)

lemma prio_override_state_iff:
  "prio_override_state mc s \<longleftrightarrow>
   (if mc then s \<in> {0xc, 0xd, 0xe, 0xf} \<union> {0x9, 0xb} else s \<in> {0x9, 0xb, 0xd, 0xf})"
  by (auto simp: prio_override_state_def ATU_UC_S_PCY_PO_def ATU_UC_S_NRL_PO_def
      ATU_UC_S_MGMT_PO_def ATU_UC_S_PO_def ATU_MC_PCY_PO_def ATU_MC_NRL_PO_def ATU_MC_MGMT_PO_def
      ATU_MC_PO_def)


definition ex_atu :: atu_kentry where
  "ex_atu =
     \<lparr>ka_fid = 1, ka_op = 0x600, ka_data = 0x39, ka_01 = 0x100, ka_23 = 0x5e00, ka_45 = 0xfb\<rparr>"


end
