(* ===== verification/Mvls_Devlink.thy ===== *)
theory Mvls_Devlink
  imports Mvls_Tables
begin

text \<open>
  \<^verbatim>\<open>src/mvls/devlink.c\<close>: requests to the devlink family of generic netlink and the copy of a memory
  region out of a dump. Results are optional: \<open>None\<close> stands for an access outside an object or
  through a null pointer, and for waiting for a message that never comes.
\<close>

section \<open>Constants of the interface\<close>

definition DEVLINK_ATTR_BUS_NAME :: nat where "DEVLINK_ATTR_BUS_NAME = 1"
definition DEVLINK_ATTR_DEV_NAME :: nat where "DEVLINK_ATTR_DEV_NAME = 2"
definition DEVLINK_ATTR_PORT_INDEX :: nat where "DEVLINK_ATTR_PORT_INDEX = 3"
definition DEVLINK_ATTR_PORT_NETDEV_NAME :: nat where "DEVLINK_ATTR_PORT_NETDEV_NAME = 7"
definition DEVLINK_ATTR_PORT_FLAVOUR :: nat where "DEVLINK_ATTR_PORT_FLAVOUR = 77"
definition DEVLINK_ATTR_REGION_NAME :: nat where "DEVLINK_ATTR_REGION_NAME = 88"
definition DEVLINK_ATTR_REGION_SNAPSHOT_ID :: nat where "DEVLINK_ATTR_REGION_SNAPSHOT_ID = 92"
definition DEVLINK_ATTR_REGION_CHUNKS :: nat where "DEVLINK_ATTR_REGION_CHUNKS = 93"
definition DEVLINK_ATTR_REGION_CHUNK_DATA :: nat where "DEVLINK_ATTR_REGION_CHUNK_DATA = 95"
definition DEVLINK_ATTR_REGION_CHUNK_ADDR :: nat where "DEVLINK_ATTR_REGION_CHUNK_ADDR = 96"
definition DEVLINK_ATTR_INFO_DRIVER_NAME :: nat where "DEVLINK_ATTR_INFO_DRIVER_NAME = 98"
definition DEVLINK_ATTR_INFO_VERSION_FIXED :: nat where "DEVLINK_ATTR_INFO_VERSION_FIXED = 100"
definition DEVLINK_ATTR_INFO_VERSION_NAME :: nat where "DEVLINK_ATTR_INFO_VERSION_NAME = 103"
definition DEVLINK_ATTR_INFO_VERSION_VALUE :: nat where "DEVLINK_ATTR_INFO_VERSION_VALUE = 104"
definition DEVLINK_ATTR_MAX :: nat where "DEVLINK_ATTR_MAX = 161"

lemmas attr_defs = DEVLINK_ATTR_BUS_NAME_def DEVLINK_ATTR_DEV_NAME_def DEVLINK_ATTR_PORT_INDEX_def
  DEVLINK_ATTR_PORT_NETDEV_NAME_def DEVLINK_ATTR_PORT_FLAVOUR_def DEVLINK_ATTR_REGION_NAME_def
  DEVLINK_ATTR_REGION_SNAPSHOT_ID_def DEVLINK_ATTR_REGION_CHUNKS_def
  DEVLINK_ATTR_REGION_CHUNK_DATA_def DEVLINK_ATTR_REGION_CHUNK_ADDR_def
  DEVLINK_ATTR_INFO_DRIVER_NAME_def DEVLINK_ATTR_INFO_VERSION_FIXED_def
  DEVLINK_ATTR_INFO_VERSION_NAME_def DEVLINK_ATTR_INFO_VERSION_VALUE_def DEVLINK_ATTR_MAX_def

definition DEVLINK_CMD_PORT_GET :: nat where "DEVLINK_CMD_PORT_GET = 5"
definition DEVLINK_CMD_REGION_NEW :: nat where "DEVLINK_CMD_REGION_NEW = 44"
definition DEVLINK_CMD_REGION_DEL :: nat where "DEVLINK_CMD_REGION_DEL = 45"
definition DEVLINK_CMD_REGION_READ :: nat where "DEVLINK_CMD_REGION_READ = 46"
definition DEVLINK_CMD_INFO_GET :: nat where "DEVLINK_CMD_INFO_GET = 51"

definition DEVLINK_PORT_FLAVOUR_CPU :: u16 where "DEVLINK_PORT_FLAVOUR_CPU = 1"
definition DEVLINK_PORT_FLAVOUR_DSA :: u16 where "DEVLINK_PORT_FLAVOUR_DSA = 2"

definition DEVLINK_GENL_NAME :: string where "DEVLINK_GENL_NAME = ''devlink''"
definition DEVLINK_GENL_VERSION :: u8 where "DEVLINK_GENL_VERSION = 1"

definition CB_ERROR :: int where "CB_ERROR = - 1"
definition CB_STOP :: int where "CB_STOP = 0"
definition CB_OK :: int where "CB_OK = 1"

lemmas cb_defs = CB_ERROR_def CB_STOP_def CB_OK_def

section \<open>The libraries\<close>

text \<open>
  What the code uses of libmnl and of the allocator, a parameter. \<open>'a\<close> is the type of pointers to
  attributes. \<open>attr_nested\<close> are the attributes that \<^verbatim>\<open>mnl_attr_parse_nested\<close> visits; the
  three parts of the macro \<^verbatim>\<open>mnl_attr_for_each_nested\<close> are \<open>nest_first\<close>, \<open>nest_ok\<close> and
  \<open>attr_next\<close>. \<open>m_realloc\<close> is \<^verbatim>\<open>realloc\<close>, and \<open>m_calloc\<close> says whether
  \<^verbatim>\<open>calloc\<close> of a device or port succeeds.
\<close>

record 'a mnl =
  attr_type :: "'a \<Rightarrow> nat"
  attr_str :: "'a \<Rightarrow> string"
  attr_u16 :: "'a \<Rightarrow> u16"
  attr_u32 :: "'a \<Rightarrow> u32"
  attr_u64 :: "'a \<Rightarrow> u64"
  attr_payload :: "'a \<Rightarrow> u8 list"
  attr_nested :: "'a \<Rightarrow> 'a list"
  attr_is_u16 :: "'a \<Rightarrow> bool"
  nest_first :: "'a \<Rightarrow> 'a"
  nest_ok :: "'a \<Rightarrow> 'a \<Rightarrow> bool"
  attr_next :: "'a \<Rightarrow> 'a"
  m_realloc :: "u8 list \<Rightarrow> nat \<Rightarrow> u8 list option"
  m_calloc :: bool

text \<open>\<^verbatim>\<open>mnl_attr_parse\<close> hands one attribute after the other to a callback until one says stop.\<close>

fun mnl_attr_parse :: "('a \<Rightarrow> 'd \<Rightarrow> (int \<times> 'd) option) \<Rightarrow> 'a list \<Rightarrow> 'd \<Rightarrow> (int \<times> 'd) option" where
  "mnl_attr_parse cb [] d = Some (CB_OK, d)"
| "mnl_attr_parse cb (a # as) d = do {
     (ret, d) \<leftarrow> cb a d;
     if ret \<le> CB_STOP then Some (ret, d) else mnl_attr_parse cb as d
   }"

section \<open>Attributes\<close>

text \<open>
  The table of attributes has \<^verbatim>\<open>DEVLINK_ATTR_MAX + 1\<close> places; a type beyond it is written outside
  the table.
\<close>

type_synonym 'a tb = "nat \<Rightarrow> 'a option"

definition devlink_attr_cb :: "'a mnl \<Rightarrow> 'a \<Rightarrow> 'a tb \<Rightarrow> (int \<times> 'a tb) option" where
  "devlink_attr_cb M attr tb =
     (if attr_type M attr \<le> DEVLINK_ATTR_MAX then Some (CB_OK, tb(attr_type M attr \<mapsto> attr)) else None)"

definition devlink_parse :: "'a mnl \<Rightarrow> 'a list \<Rightarrow> 'a tb \<Rightarrow> 'a tb option" where
  "devlink_parse M msg tb = map_option snd (mnl_attr_parse (devlink_attr_cb M) msg tb)"

section \<open>Requests\<close>

datatype nl_value = Str string | U32 u32

datatype nlm_flag = NLM_F_REQUEST | NLM_F_ACK | NLM_F_DUMP

record request =
  rq_family :: u32
  rq_flags :: "nlm_flag list"
  rq_cmd :: nat
  rq_version :: u8
  rq_attrs :: "(nat \<times> nl_value) list"

record devlink =
  dl_family :: u32

record devlink_addr =
  da_bus :: string
  da_dev :: string

definition msg_prepare :: "nat \<Rightarrow> nlm_flag list \<Rightarrow> u32 \<Rightarrow> u8 \<Rightarrow> request" where
  "msg_prepare cmd flags family version =
     \<lparr>rq_family = family, rq_flags = flags, rq_cmd = cmd, rq_version = version, rq_attrs = []\<rparr>"

definition attr_put :: "request \<Rightarrow> nat \<Rightarrow> nl_value \<Rightarrow> request" where
  "attr_put rq ty v = rq\<lparr>rq_attrs := rq_attrs rq @ [(ty, v)]\<rparr>"

definition devlink_msg_prepare :: "devlink \<Rightarrow> nat \<Rightarrow> nlm_flag list \<Rightarrow> request" where
  "devlink_msg_prepare dl cmd flags = msg_prepare cmd flags (dl_family dl) DEVLINK_GENL_VERSION"

section \<open>Replies\<close>

text \<open>
  The kernel answers a request with the result of sending it and what is received then: messages,
  each either one of netlink's control messages or a list of attributes, or the end of reception
  with a result that is not positive. The kernel has a state.
\<close>

datatype 'a nlmsg = Data "'a list" | Nl_Noop | Nl_Error int | Nl_Done int | Nl_Overrun

datatype 'a event = Msg "'a nlmsg" | Recv_End int

type_synonym ('k, 'a) dl_kernel = "request \<Rightarrow> 'k \<Rightarrow> int \<times> 'a event list \<times> 'k"

type_synonym ('a, 'd) mnl_cb = "'a list \<Rightarrow> 'd \<Rightarrow> (int \<times> 'd) option"

text \<open>The control callbacks return their result and the value they store in \<^verbatim>\<open>errno\<close>.\<close>

definition cb_noop :: "int \<times> int option" where
  "cb_noop = (CB_OK, None)"

definition cb_error :: "int \<Rightarrow> int \<times> int option" where
  "cb_error e = (if e = 0 then CB_STOP else CB_ERROR, Some (if e < 0 then - e else e))"

definition cb_stop :: "int \<Rightarrow> int \<times> int option" where
  "cb_stop len = (if len < 0 then (CB_ERROR, Some (- len)) else (CB_STOP, None))"

definition cb_dispatch :: "('a, 'd) mnl_cb option \<Rightarrow> 'a nlmsg \<Rightarrow> 'd \<Rightarrow> (int \<times> 'd) option" where
  "cb_dispatch cb m d =
     (case m of
        Data attrs \<Rightarrow> (case cb of Some f \<Rightarrow> f attrs d | None \<Rightarrow> Some (CB_OK, d))
      | Nl_Noop \<Rightarrow> Some (fst cb_noop, d)
      | Nl_Error e \<Rightarrow> Some (fst (cb_error e), d)
      | Nl_Done len \<Rightarrow> Some (fst (cb_stop len), d)
      | Nl_Overrun \<Rightarrow> Some (fst cb_noop, d))"

fun recv_run :: "('a, 'd) mnl_cb option \<Rightarrow> 'a event list \<Rightarrow> 'd \<Rightarrow> (int \<times> 'd) option" where
  "recv_run cb [] d = None"
| "recv_run cb (Recv_End err # evs) d = Some (err, d)"
| "recv_run cb (Msg m # evs) d = do {
     (err, d) \<leftarrow> cb_dispatch cb m d;
     if 0 < err then recv_run cb evs d else Some (err, d)
   }"

definition devlink_query ::
  "('k, 'a) dl_kernel \<Rightarrow> request \<Rightarrow> ('a, 'd) mnl_cb option \<Rightarrow> 'd \<Rightarrow> 'k \<Rightarrow> (int \<times> 'd \<times> 'k) option" where
  "devlink_query K rq cb d k =
     (case K rq k of (sent, evs, k) \<Rightarrow>
        if sent < 0 then Some (sent, d, k) else do {
          (err, d) \<leftarrow> recv_run cb evs d;
          Some (err, d, k)
        })"

section \<open>Regions\<close>

text \<open>
  The body of the loop over the chunks of a message. It uses the loop variable for the parts of the
  chunk: what it holds afterwards, \<open>None\<close> being the null pointer, is where the loop goes on. The
  table of the parts is not cleared between two chunks.
\<close>

definition dup_chunk ::
  "'a mnl \<Rightarrow> 'a \<Rightarrow> 'a tb \<Rightarrow> devlink_region \<Rightarrow> (int \<times> 'a option \<times> 'a tb \<times> devlink_region) option" where
  "dup_chunk M attr tbc region = do {
     (err, tbc) \<leftarrow> mnl_attr_parse (devlink_attr_cb M) (attr_nested M attr) tbc;
     if err \<noteq> CB_OK then Some (CB_ERROR, Some attr, tbc, region)
     else case tbc DEVLINK_ATTR_REGION_CHUNK_DATA of
       None \<Rightarrow> Some (CB_OK, None, tbc, region)
     | Some data_attr \<Rightarrow>
         (case tbc DEVLINK_ATTR_REGION_CHUNK_ADDR of
            None \<Rightarrow> Some (CB_OK, None, tbc, region)
          | Some addr_attr \<Rightarrow>
              let chunk = attr_payload M data_attr;
                  len = word_of_nat (length chunk);
                  offs = attr_u64 M addr_attr;
                  buf = (if word_of_nat (length region) < offs + len
                         then m_realloc M region (unat (offs + len)) else Some region) in
              case buf of
                None \<Rightarrow> Some (CB_ERROR, Some addr_attr, tbc, [])
              | Some buf \<Rightarrow>
                  if unat offs + length chunk \<le> length buf
                  then Some (CB_OK, Some addr_attr, tbc,
                             take (unat offs) buf @ chunk @ drop (unat offs + length chunk) buf)
                  else None)
   }"

partial_function (option) dup_chunks ::
  "'a mnl \<Rightarrow> 'a \<Rightarrow> 'a \<Rightarrow> 'a tb \<Rightarrow> devlink_region \<Rightarrow> (int \<times> devlink_region) option" where
  "dup_chunks M nest attr tbc region =
     (if \<not> nest_ok M nest attr then Some (CB_OK, region)
      else do {
        (err, attr, tbc, region) \<leftarrow> dup_chunk M attr tbc region;
        if err \<noteq> CB_OK then Some (CB_ERROR, region)
        else case attr of
          None \<Rightarrow> None
        | Some a \<Rightarrow> dup_chunks M nest (attr_next M a) tbc region
      })"

declare dup_chunks.simps [code]

definition devlink_region_dup_cb :: "'a mnl \<Rightarrow> ('a, devlink_region) mnl_cb" where
  "devlink_region_dup_cb M msg region = do {
     tb \<leftarrow> devlink_parse M msg (\<lambda>_. None);
     if tb DEVLINK_ATTR_BUS_NAME = None \<or> tb DEVLINK_ATTR_DEV_NAME = None then Some (CB_ERROR, region)
     else case tb DEVLINK_ATTR_REGION_CHUNKS of
       None \<Rightarrow> Some (CB_ERROR, region)
     | Some nest \<Rightarrow> dup_chunks M nest (nest_first M nest) (\<lambda>_. None) region
   }"

definition region_msg_prepare ::
  "devlink \<Rightarrow> devlink_addr \<Rightarrow> int \<Rightarrow> string \<Rightarrow> nat \<Rightarrow> nlm_flag list \<Rightarrow> request" where
  "region_msg_prepare dl addr port name cmd flags =
     (let rq = devlink_msg_prepare dl cmd flags;
          rq = attr_put rq DEVLINK_ATTR_BUS_NAME (Str (da_bus addr));
          rq = attr_put rq DEVLINK_ATTR_DEV_NAME (Str (da_dev addr));
          rq = attr_put rq DEVLINK_ATTR_REGION_NAME (Str name);
          rq = (if 0 \<le> port then attr_put rq DEVLINK_ATTR_PORT_INDEX (U32 (word_of_int port)) else rq) in
      attr_put rq DEVLINK_ATTR_REGION_SNAPSHOT_ID (U32 0xffffffff))"

definition devlink_port_region_get ::
  "('k, 'a) dl_kernel \<Rightarrow> devlink \<Rightarrow> devlink_addr \<Rightarrow> int \<Rightarrow> string \<Rightarrow> ('a, 'd) mnl_cb \<Rightarrow> 'd \<Rightarrow> 'k \<Rightarrow>
   (int \<times> 'd \<times> 'k) option" where
  "devlink_port_region_get K dl addr port name cb d k = do {
     (err, _, k) \<leftarrow> devlink_query K
       (region_msg_prepare dl addr port name DEVLINK_CMD_REGION_NEW [NLM_F_REQUEST, NLM_F_ACK])
       None () k;
     if err \<noteq> 0 then Some (err, d, k)
     else do {
       (err, d, k) \<leftarrow> devlink_query K
         (region_msg_prepare dl addr port name DEVLINK_CMD_REGION_READ
            [NLM_F_REQUEST, NLM_F_ACK, NLM_F_DUMP]) (Some cb) d k;
       (_, d, k) \<leftarrow> devlink_query K
         (region_msg_prepare dl addr port name DEVLINK_CMD_REGION_DEL [NLM_F_REQUEST, NLM_F_ACK])
         (Some cb) d k;
       Some (err, d, k)
     }
   }"

definition devlink_region_get ::
  "('k, 'a) dl_kernel \<Rightarrow> devlink \<Rightarrow> devlink_addr \<Rightarrow> string \<Rightarrow> ('a, 'd) mnl_cb \<Rightarrow> 'd \<Rightarrow> 'k \<Rightarrow>
   (int \<times> 'd \<times> 'k) option" where
  "devlink_region_get K dl addr name cb d k = devlink_port_region_get K dl addr (- 1) name cb d k"

section \<open>Opening\<close>

text \<open>
  The numbers of generic netlink's control family are the platform's, a parameter, as are the
  outcomes of the allocation of the buffer and of the calls on the socket.
\<close>

record genl_uapi =
  CTRL_ATTR_FAMILY_ID :: nat
  CTRL_ATTR_FAMILY_NAME :: nat
  CTRL_ATTR_MAX :: nat
  CTRL_CMD_GETFAMILY :: nat
  GENL_ID_CTRL :: u32

record nl_socket =
  sk_malloc :: bool
  sk_open :: bool
  sk_bind :: int

definition EIO :: int where "EIO = 5"

definition get_family_id_attr_cb :: "genl_uapi \<Rightarrow> 'a mnl \<Rightarrow> 'a \<Rightarrow> 'a tb \<Rightarrow> (int \<times> 'a tb) option" where
  "get_family_id_attr_cb G M attr tb =
     (if CTRL_ATTR_MAX G < attr_type M attr then Some (CB_ERROR, tb)
      else if attr_type M attr = CTRL_ATTR_FAMILY_ID G \<and> \<not> attr_is_u16 M attr then Some (CB_ERROR, tb)
      else Some (CB_OK, tb(attr_type M attr \<mapsto> attr)))"

definition get_family_id_cb :: "genl_uapi \<Rightarrow> 'a mnl \<Rightarrow> ('a, u32) mnl_cb" where
  "get_family_id_cb G M msg fam = do {
     (_, tb) \<leftarrow> mnl_attr_parse (get_family_id_attr_cb G M) msg (\<lambda>_. None);
     case tb (CTRL_ATTR_FAMILY_ID G) of
       None \<Rightarrow> Some (CB_ERROR, fam)
     | Some a \<Rightarrow> Some (CB_OK, ucast (attr_u16 M a))
   }"

text \<open>
  The result, the family number (\<open>fam\<close> is what the memory held before) and whether the buffer and the
  socket are still held.
\<close>

definition devlink_open ::
  "genl_uapi \<Rightarrow> 'a mnl \<Rightarrow> ('k, 'a) dl_kernel \<Rightarrow> nl_socket \<Rightarrow> u32 \<Rightarrow> 'k \<Rightarrow>
   (int \<times> u32 \<times> bool \<times> bool \<times> 'k) option" where
  "devlink_open G M K sk fam k =
     (if \<not> sk_malloc sk then Some (ENOMEM, fam, False, False, k)
      else if \<not> sk_open sk then Some (EIO, fam, False, False, k)
      else if sk_bind sk < 0 then Some (sk_bind sk, fam, False, False, k)
      else do {
        (err, fam, k) \<leftarrow> devlink_query K
          (attr_put (msg_prepare (CTRL_CMD_GETFAMILY G) [NLM_F_REQUEST, NLM_F_ACK] (GENL_ID_CTRL G) 1)
             (CTRL_ATTR_FAMILY_NAME G) (Str DEVLINK_GENL_NAME))
          (Some (get_family_id_cb G M)) fam k;
        if err < 0 then Some (err, fam, False, False, k) else Some (0, fam, True, True, k)
      })"

section \<open>A dump is put together\<close>

text \<open>
  What the kernel and libmnl promise of a dump message: a chunk nests its data, possibly padding, and
  its address, in this order, and the attribute after the address is the next chunk.
\<close>

definition chunk_attr :: "'a mnl \<Rightarrow> 'a \<Rightarrow> u64 \<Rightarrow> u8 list \<Rightarrow> 'a \<Rightarrow> bool" where
  "chunk_attr M p offs bytes a \<longleftrightarrow>
     (\<exists>d pads. attr_nested M p = d # pads @ [a] \<and>
        attr_type M d = DEVLINK_ATTR_REGION_CHUNK_DATA \<and> attr_payload M d = bytes \<and>
        attr_type M a = DEVLINK_ATTR_REGION_CHUNK_ADDR \<and> attr_u64 M a = offs \<and>
        (\<forall>x \<in> set pads. attr_type M x \<le> DEVLINK_ATTR_MAX \<and>
           attr_type M x \<notin> {DEVLINK_ATTR_REGION_CHUNK_DATA, DEVLINK_ATTR_REGION_CHUNK_ADDR}))"

primrec chunks_at :: "'a mnl \<Rightarrow> 'a \<Rightarrow> 'a \<Rightarrow> (u64 \<times> u8 list) list \<Rightarrow> bool" where
  "chunks_at M nest p [] \<longleftrightarrow> \<not> nest_ok M nest p"
| "chunks_at M nest p (c # cs) \<longleftrightarrow>
     nest_ok M nest p \<and>
     (\<exists>a. chunk_attr M p (fst c) (snd c) a \<and> chunks_at M nest (attr_next M a) cs)"

definition dump_msg :: "'a mnl \<Rightarrow> 'a list \<Rightarrow> (u64 \<times> u8 list) list \<Rightarrow> bool" where
  "dump_msg M msg cs \<longleftrightarrow>
     (\<exists>tb nest. devlink_parse M msg (\<lambda>_. None) = Some tb \<and> tb DEVLINK_ATTR_BUS_NAME \<noteq> None \<and>
        tb DEVLINK_ATTR_DEV_NAME \<noteq> None \<and> tb DEVLINK_ATTR_REGION_CHUNKS = Some nest \<and>
        chunks_at M nest (nest_first M nest) cs)"

text \<open>Chunks that continue a region of \<open>n\<close> bytes without a gap.\<close>

fun contiguous :: "nat \<Rightarrow> (u64 \<times> u8 list) list \<Rightarrow> bool" where
  "contiguous n [] \<longleftrightarrow> n < 2 ^ 64"
| "contiguous n ((offs, bytes) # cs) \<longleftrightarrow>
     offs = word_of_nat n \<and> n < 2 ^ 64 \<and> contiguous (n + length bytes) cs"

definition realloc_keeps :: "'a mnl \<Rightarrow> bool" where
  "realloc_keeps M \<longleftrightarrow>
     (\<forall>old n. length old \<le> n \<longrightarrow>
        (\<exists>new. m_realloc M old n = Some new \<and> length new = n \<and> take (length old) new = old))"

lemma contiguous_less: "contiguous n cs \<Longrightarrow> n < 2 ^ 64"
  by (cases cs) (auto simp: contiguous.simps)

lemma parse_pads:
  assumes "\<forall>x \<in> set pads. attr_type M x \<le> DEVLINK_ATTR_MAX \<and> attr_type M x \<notin> T"
  shows "\<exists>tb'. mnl_attr_parse (devlink_attr_cb M) (pads @ rest) tb =
           mnl_attr_parse (devlink_attr_cb M) rest tb' \<and> (\<forall>t \<in> T. tb' t = tb t)"
  using assms
proof (induction pads arbitrary: tb)
  case (Cons x pads)
  then obtain tb' where "mnl_attr_parse (devlink_attr_cb M) (pads @ rest) (tb(attr_type M x \<mapsto> x)) =
      mnl_attr_parse (devlink_attr_cb M) rest tb'" "\<forall>t \<in> T. tb' t = (tb(attr_type M x \<mapsto> x)) t"
    by (metis insert_iff list.set(2))
  moreover have "devlink_attr_cb M x tb = Some (CB_OK, tb(attr_type M x \<mapsto> x))"
    using Cons.prems by (simp add: devlink_attr_cb_def)
  ultimately show ?case
    using Cons.prems by (intro exI [of _ tb']) (auto simp: cb_defs)
qed auto

lemma dup_chunk_append:
  assumes "chunk_attr M p (word_of_nat (length region)) bytes a" and "realloc_keeps M"
    and "length region + length bytes < 2 ^ 64"
  shows "\<exists>tbc'. dup_chunk M p tbc region = Some (CB_OK, Some a, tbc', region @ bytes)"
proof -
  obtain d pads where p: "attr_nested M p = d # pads @ [a]"
      "attr_type M d = DEVLINK_ATTR_REGION_CHUNK_DATA" "attr_payload M d = bytes"
      "attr_type M a = DEVLINK_ATTR_REGION_CHUNK_ADDR" "attr_u64 M a = word_of_nat (length region)"
      "\<forall>x \<in> set pads. attr_type M x \<le> DEVLINK_ATTR_MAX \<and>
         attr_type M x \<notin> {DEVLINK_ATTR_REGION_CHUNK_DATA, DEVLINK_ATTR_REGION_CHUNK_ADDR}"
    using assms(1) unfolding chunk_attr_def by blast
  obtain tb' where tb': "mnl_attr_parse (devlink_attr_cb M) (pads @ [a])
        (tbc(DEVLINK_ATTR_REGION_CHUNK_DATA \<mapsto> d)) = mnl_attr_parse (devlink_attr_cb M) [a] tb'"
      "tb' DEVLINK_ATTR_REGION_CHUNK_DATA = Some d"
    using parse_pads [OF p(6), of "[a]" "tbc(DEVLINK_ATTR_REGION_CHUNK_DATA \<mapsto> d)"] by auto
  have parse: "mnl_attr_parse (devlink_attr_cb M) (attr_nested M p) tbc =
      Some (CB_OK, tb'(DEVLINK_ATTR_REGION_CHUNK_ADDR \<mapsto> a))"
    using tb'(1) by (simp add: p devlink_attr_cb_def cb_defs attr_defs)
  let ?n = "length region" and ?l = "length bytes"
  have len: "unat (word_of_nat ?n :: u64) = ?n" "unat (word_of_nat ?n + word_of_nat ?l :: u64) = ?n + ?l"
    using assms(3) by (simp_all add: unsigned_of_nat take_bit_nat_eq_self flip: of_nat_add)
  have less: "(word_of_nat ?n :: u64) < word_of_nat ?n + word_of_nat ?l \<longleftrightarrow> 0 < ?l"
    unfolding word_less_nat_alt len by simp
  obtain new where new: "m_realloc M region (?n + ?l) = Some new" "length new = ?n + ?l" "take ?n new = region"
    using assms(2) unfolding realloc_keeps_def by (metis le_add1)
  show ?thesis
    unfolding dup_chunk_def parse
    using new tb'(2)
    by (cases "bytes = []") (simp_all add: p(3,5) len less Let_def attr_defs)
qed

lemma dup_chunks_append:
  assumes "chunks_at M nest p cs" and "contiguous (length region) cs" and "realloc_keeps M"
  shows "dup_chunks M nest p tbc region = Some (CB_OK, region @ concat (map snd cs))"
  using assms
proof (induction cs arbitrary: p tbc region)
  case Nil
  then show ?case by (subst dup_chunks.simps) simp
next
  case (Cons c cs)
  obtain offs bytes where c: "c = (offs, bytes)" by (cases c)
  from Cons.prems c obtain a where a: "chunk_attr M p (word_of_nat (length region)) bytes a"
      "chunks_at M nest (attr_next M a) cs" "nest_ok M nest p"
      "contiguous (length (region @ bytes)) cs"
    by auto
  obtain tbc' where "dup_chunk M p tbc region = Some (CB_OK, Some a, tbc', region @ bytes)"
    using dup_chunk_append [OF a(1) assms(3)] contiguous_less [OF a(4)] by auto
  moreover have "dup_chunks M nest (attr_next M a) tbc' (region @ bytes) =
      Some (CB_OK, (region @ bytes) @ concat (map snd cs))"
    by (rule Cons.IH [OF a(2,4) assms(3)])
  ultimately show ?case
    using a(3) c by (subst dup_chunks.simps) simp
qed

lemma contiguous_append:
  "contiguous n (cs @ ds) \<longleftrightarrow>
   contiguous n cs \<and> contiguous (n + length (concat (map snd cs))) ds"
  by (induction n cs rule: contiguous.induct) (auto simp: ac_simps dest: contiguous_less)

lemma dup_cb_append:
  assumes "dump_msg M msg cs" and "contiguous (length region) cs" and "realloc_keeps M"
  shows "devlink_region_dup_cb M msg region = Some (CB_OK, region @ concat (map snd cs))"
  using assms(1) dup_chunks_append [OF _ assms(2,3)]
  unfolding dump_msg_def devlink_region_dup_cb_def by auto

lemma recv_dump:
  assumes "list_all2 (dump_msg M) msgs css" and "contiguous (length region) (concat css)"
    and "realloc_keeps M" and "0 \<le> len"
  shows "recv_run (Some (devlink_region_dup_cb M))
           (map (\<lambda>msg. Msg (Data msg)) msgs @ [Msg (Nl_Done len)]) region =
         Some (0, region @ concat (map snd (concat css)))"
  using assms
proof (induction arbitrary: region rule: list_all2_induct)
  case Nil
  then show ?case by (simp add: cb_dispatch_def cb_stop_def cb_defs)
next
  case (Cons msg msgs cs css)
  have "devlink_region_dup_cb M msg region = Some (CB_OK, region @ concat (map snd cs))"
    by (rule dup_cb_append [OF Cons.hyps(1)]) (use Cons.prems in \<open>simp_all add: contiguous_append\<close>)
  moreover have "contiguous (length (region @ concat (map snd cs))) (concat css)"
    using Cons.prems(1) by (simp add: contiguous_append)
  ultimately show ?case
    using Cons.IH [of "region @ concat (map snd cs)"] Cons.prems(2,3)
    by (simp add: cb_dispatch_def cb_defs)
qed

text \<open>
  C18. Reading a region gives exactly its bytes: when the kernel takes the snapshot, dumps it in chunks
  without a gap, spread over any number of messages, and acknowledges, then
  \<^verbatim>\<open>devlink_port_region_get\<close> succeeds and the region that was put together is the chunks one after
  the other. This rests on the kernel putting the address of a chunk last, because the loop over the
  chunks goes on from it.
\<close>

theorem region_get_assembles:
  fixes K :: "('k, 'a) dl_kernel"
  assumes "realloc_keeps M"
    and "K (region_msg_prepare dl addr port name DEVLINK_CMD_REGION_NEW [NLM_F_REQUEST, NLM_F_ACK]) k =
         (sent0, [Msg (Nl_Error 0)], k1)" and "0 \<le> sent0"
    and "K (region_msg_prepare dl addr port name DEVLINK_CMD_REGION_READ
            [NLM_F_REQUEST, NLM_F_ACK, NLM_F_DUMP]) k1 =
         (sent1, map (\<lambda>msg. Msg (Data msg)) msgs @ [Msg (Nl_Done len)], k2)" and "0 \<le> sent1" "0 \<le> len"
    and "K (region_msg_prepare dl addr port name DEVLINK_CMD_REGION_DEL [NLM_F_REQUEST, NLM_F_ACK]) k2 =
         (sent2, [Msg (Nl_Error e)], k3)"
    and "list_all2 (dump_msg M) msgs css" and "contiguous 0 (concat css)"
  shows "devlink_port_region_get K dl addr port name (devlink_region_dup_cb M) [] k =
         Some (0, concat (map snd (concat css)), k3)"
proof -
  have "recv_run (Some (devlink_region_dup_cb M))
      (map (\<lambda>msg. Msg (Data msg)) msgs @ [Msg (Nl_Done len)]) [] =
      Some (0, concat (map snd (concat css)))"
    using recv_dump [OF assms(8), of "[]"] assms by simp
  then show ?thesis
    using assms(2-7)
    by (auto simp: devlink_port_region_get_def devlink_query_def cb_dispatch_def cb_error_def cb_defs)
qed

section \<open>Snapshots are deleted\<close>

text \<open>A kernel that also keeps the list of requests.\<close>

fun logged :: "('k, 'a) dl_kernel \<Rightarrow> ('k \<times> request list, 'a) dl_kernel" where
  "logged K rq (k, log) = (case K rq k of (sent, evs, k) \<Rightarrow> (sent, evs, k, log @ [rq]))"

fun final_event :: "'a event \<Rightarrow> bool" where
  "final_event (Recv_End _) \<longleftrightarrow> True"
| "final_event (Msg m) \<longleftrightarrow> (case m of Nl_Error _ \<Rightarrow> True | Nl_Done _ \<Rightarrow> True | _ \<Rightarrow> False)"

lemma recv_run_returns:
  assumes "list_ex final_event evs" and "\<And>f msg d. cb = Some f \<Longrightarrow> f msg d \<noteq> None"
  shows "\<exists>err d'. recv_run cb evs d = Some (err, d')"
  using assms
proof (induction cb evs d rule: recv_run.induct)
  case (3 cb m evs d)
  have "\<exists>err d'. cb_dispatch cb m d = Some (err, d')"
    using 3(3) by (auto simp: cb_dispatch_def split: nlmsg.splits option.splits)
  then obtain err d' where *: "cb_dispatch cb m d = Some (err, d')" by blast
  moreover have "\<not> 0 < err" if "final_event (Msg m)"
    using * that
    by (auto simp: cb_dispatch_def cb_error_def cb_stop_def cb_defs split: nlmsg.splits if_splits)
  ultimately show ?case
    using 3 by auto
qed auto

lemma logged_query_returns:
  assumes "\<And>rq k. list_ex final_event (fst (snd (K rq k)))" and "\<And>f msg d. cb = Some f \<Longrightarrow> f msg d \<noteq> None"
  obtains err d' k' where "devlink_query (logged K) rq cb d (k, log) = Some (err, d', k', log @ [rq])"
proof -
  obtain sent evs k' where K: "K rq k = (sent, evs, k')" by (metis prod.collapse)
  obtain err d' where "recv_run cb evs d = Some (err, d')"
    using recv_run_returns [of evs cb d] assms(1) [of rq k] assms(2) K by auto
  then show ?thesis
    using that K by (cases "sent < 0") (auto simp: devlink_query_def)
qed


section \<open>A concrete library and kernel\<close>

text \<open>
  Attributes as trees. A pointer to an attribute is the list of what follows it in memory, itself
  first: its siblings and then what comes after its parent, so that going to the next attribute
  leaves a nest exactly as it does on bytes.
\<close>

datatype xattr = X_Str nat string | X_Num nat u64 | X_Bytes nat "u8 list" | X_Nest nat "xattr list"

primrec x_type :: "xattr \<Rightarrow> nat" where
  "x_type (X_Str t _) = t"
| "x_type (X_Num t _) = t"
| "x_type (X_Bytes t _) = t"
| "x_type (X_Nest t _) = t"

fun x_sub :: "xattr list \<Rightarrow> xattr list" where
  "x_sub (X_Nest _ cs # _) = cs"
| "x_sub _ = []"

definition x_ptrs :: "xattr list \<Rightarrow> xattr list \<Rightarrow> xattr list list" where
  "x_ptrs as rest = map (\<lambda>i. drop i as @ rest) [0 ..< length as]"

fun x_str :: "xattr list \<Rightarrow> string" where
  "x_str (X_Str _ s # _) = s"
| "x_str _ = []"

fun x_num :: "xattr list \<Rightarrow> u64" where
  "x_num (X_Num _ n # _) = n"
| "x_num _ = 0"

fun x_bytes :: "xattr list \<Rightarrow> u8 list" where
  "x_bytes (X_Bytes _ bs # _) = bs"
| "x_bytes _ = []"

definition x_realloc :: "u8 list \<Rightarrow> nat \<Rightarrow> u8 list option" where
  "x_realloc old n = Some (take n old @ replicate (n - length old) 0)"

definition x_mnl :: "xattr list mnl" where
  "x_mnl =
     \<lparr>attr_type = \<lambda>p. x_type (hd p), attr_str = x_str, attr_u16 = \<lambda>p. ucast (x_num p),
      attr_u32 = \<lambda>p. ucast (x_num p), attr_u64 = x_num, attr_payload = x_bytes,
      attr_nested = \<lambda>p. x_ptrs (x_sub p) (tl p), attr_is_u16 = \<lambda>p. True,
      nest_first = \<lambda>p. x_sub p @ tl p, nest_ok = \<lambda>nest p. length (tl nest) < length p,
      attr_next = tl, m_realloc = x_realloc, m_calloc = True\<rparr>"

definition x_kernel :: "(request \<Rightarrow> xattr list list) \<Rightarrow> (unit, xattr list) dl_kernel" where
  "x_kernel answers rq k =
     (1, map (\<lambda>m. Msg (Data (x_ptrs m []))) (answers rq) @
         [Msg (if NLM_F_DUMP \<in> set (rq_flags rq) then Nl_Done 0 else Nl_Error 0)], k)"

definition x_dump :: "xattr list" where
  "x_dump =
     [X_Str DEVLINK_ATTR_BUS_NAME ''mdio_bus'', X_Str DEVLINK_ATTR_DEV_NAME ''sw0'',
      X_Nest DEVLINK_ATTR_REGION_CHUNKS
        [X_Nest 94 [X_Bytes DEVLINK_ATTR_REGION_CHUNK_DATA [1, 2], X_Num DEVLINK_ATTR_REGION_CHUNK_ADDR 0],
         X_Nest 94 [X_Bytes DEVLINK_ATTR_REGION_CHUNK_DATA [3, 4], X_Num DEVLINK_ATTR_REGION_CHUNK_ADDR 2]]]"

definition x_region_kernel :: "(unit, xattr list) dl_kernel" where
  "x_region_kernel = x_kernel (\<lambda>rq. if rq_cmd rq = DEVLINK_CMD_REGION_READ then [x_dump] else [])"

lemmas x_defs = x_mnl_def x_kernel_def x_ptrs_def x_realloc_def attr_defs

lemma x_realloc_keeps: "realloc_keeps x_mnl"
  by (simp add: realloc_keeps_def x_mnl_def x_realloc_def)

lemma x_dump_msg: "dump_msg x_mnl (x_ptrs x_dump []) [(0, [1, 2]), (2, [3, 4])]"
proof -
  define nest where "nest = drop 2 x_dump"
  have chunks: "chunks_at x_mnl nest (nest_first x_mnl nest) [(0, [1, 2]), (2, [3, 4])]"
    by (simp add: nest_def x_dump_def x_defs chunk_attr_def exI [of _ "[]"] upt_rec)
  have "\<exists>tb. devlink_parse x_mnl (x_ptrs x_dump []) (\<lambda>_. None) = Some tb \<and>
      tb DEVLINK_ATTR_BUS_NAME \<noteq> None \<and> tb DEVLINK_ATTR_DEV_NAME \<noteq> None \<and>
      tb DEVLINK_ATTR_REGION_CHUNKS = Some nest"
    by (simp add: nest_def x_dump_def x_defs devlink_parse_def devlink_attr_cb_def cb_defs upt_rec)
  with chunks show ?thesis unfolding dump_msg_def by blast
qed

lemma x_region_get:
  "devlink_port_region_get x_region_kernel dl addr port name (devlink_region_dup_cb x_mnl) [] () =
   Some (0, [1, 2, 3, 4], ())"
proof -
  have "recv_run (Some (devlink_region_dup_cb x_mnl)) [Msg (Data (x_ptrs x_dump [])), Msg (Nl_Done 0)] [] =
      Some (0, [1, 2, 3, 4])"
    using recv_dump [of x_mnl "[x_ptrs x_dump []]" "[[(0, [1, 2]), (2, [3, 4])]]" "[]" 0]
      x_dump_msg x_realloc_keeps by simp
  moreover have "rq_cmd (region_msg_prepare dl addr port name cmd flags) = cmd"
      "rq_flags (region_msg_prepare dl addr port name cmd flags) = flags" for cmd flags
    by (simp_all add: region_msg_prepare_def devlink_msg_prepare_def msg_prepare_def attr_put_def Let_def)
  ultimately show ?thesis
    by (simp add: devlink_port_region_get_def devlink_query_def x_region_kernel_def x_kernel_def
        DEVLINK_CMD_REGION_NEW_def DEVLINK_CMD_REGION_READ_def DEVLINK_CMD_REGION_DEL_def
        cb_dispatch_def cb_error_def cb_defs)
qed

theorem region_get_assembles_witness:
  "devlink_port_region_get x_region_kernel \<lparr>dl_family = 20\<rparr>
     \<lparr>da_bus = ''mdio_bus'', da_dev = ''sw0''\<rparr> (- 1) ''pvt'' (devlink_region_dup_cb x_mnl) [] () =
   Some (0, [1, 2, 3, 4], ())"
  using region_get_assembles
    [where K = x_region_kernel and k = "()" and ?k1.0 = "()" and ?k2.0 = "()" and ?k3.0 = "()"
       and dl = "\<lparr>dl_family = 20\<rparr>" and addr = "\<lparr>da_bus = ''mdio_bus'', da_dev = ''sw0''\<rparr>"
       and port = "- 1" and name = "''pvt''" and msgs = "[x_ptrs x_dump []]"
       and css = "[[(0, [1, 2]), (2, [3, 4])]]" and ?sent0.0 = 1 and ?sent1.0 = 1 and ?sent2.0 = 1
       and len = 0 and e = 0, OF x_realloc_keeps]
  by (simp add: x_region_kernel_def x_kernel_def region_msg_prepare_def devlink_msg_prepare_def
      msg_prepare_def attr_put_def Let_def x_dump_msg DEVLINK_CMD_REGION_NEW_def
      DEVLINK_CMD_REGION_READ_def DEVLINK_CMD_REGION_DEL_def)


end
