(* ===== verification/Mdio_Client.thy ===== *)
theory Mdio_Client
  imports Mdio_Main Mvls_Devlink
begin

text \<open>
  The netlink side of \<^verbatim>\<open>src/mdio/mdio.c\<close>: requests, the socket, the loop over the datagrams that
  arrive, the lookup of the family number and the loading of the module. That \<open>Mdio_Xfer\<close>, which
  sees replies only, tells the truth about it is \<open>xfer_over_socket\<close>. Results are optional: \<open>None\<close> is a
  write outside the table of attributes, and waiting for a datagram that never comes.
\<close>

section \<open>Requests\<close>

definition MDIO_GENL_XFER :: nat where "MDIO_GENL_XFER = 1"

definition MDIO_NLA_BUS_ID :: nat where "MDIO_NLA_BUS_ID = 1"
definition MDIO_NLA_TIMEOUT :: nat where "MDIO_NLA_TIMEOUT = 2"
definition MDIO_NLA_PROG :: nat where "MDIO_NLA_PROG = 3"
definition MDIO_NLA_DATA :: nat where "MDIO_NLA_DATA = 4"
definition MDIO_NLA_ERROR :: nat where "MDIO_NLA_ERROR = 5"
definition MDIO_NLA_MAX :: nat where "MDIO_NLA_MAX = 5"

lemmas nla_defs = MDIO_NLA_BUS_ID_def MDIO_NLA_TIMEOUT_def MDIO_NLA_PROG_def MDIO_NLA_DATA_def
  MDIO_NLA_ERROR_def MDIO_NLA_MAX_def

datatype client_value = Strz string | U16 u16 | Insns mdio_prog

record client_request =
  cq_type :: u16
  cq_flags :: "nlm_flag list"
  cq_cmd :: nat
  cq_version :: u8
  cq_attrs :: "(nat \<times> client_value) list"

definition client_put :: "nat \<Rightarrow> client_value \<Rightarrow> client_request \<Rightarrow> client_request" where
  "client_put ty v rq = rq\<lparr>cq_attrs := cq_attrs rq @ [(ty, v)]\<rparr>"

text \<open>The family number is a global variable, \<open>mdio_family\<close>.\<close>

definition msg_init :: "u16 \<Rightarrow> nat \<Rightarrow> nlm_flag list \<Rightarrow> client_request" where
  "msg_init mdio_family cmd flags =
     \<lparr>cq_type = mdio_family, cq_flags = flags, cq_cmd = cmd, cq_version = 1, cq_attrs = []\<rparr>"

section \<open>The socket\<close>

text \<open>
  What the calls on the socket return, and what arrives: datagrams, each with several messages,
  until \<^verbatim>\<open>mnl_socket_recvfrom\<close> returns a value that is not positive. The surroundings answer
  a request.
\<close>

datatype 'a datagram = Gram "'a nlmsg list" | Recv_Fail int

record 'a sock_calls =
  so_open :: bool
  so_bind :: int
  so_sendto :: int
  so_recv :: "'a datagram list"

type_synonym 'a nl_env = "client_request \<Rightarrow> 'a sock_calls"

text \<open>
  What the code uses of libmnl, a parameter: the parts of an attribute (\<open>na_words\<close> is the payload as
  32-bit words) and the result of the library's own handling of a control message.
\<close>

record 'a libmnl =
  na_type :: "'a \<Rightarrow> nat"
  na_u16 :: "'a \<Rightarrow> u16"
  na_u32 :: "'a \<Rightarrow> u32"
  na_words :: "'a \<Rightarrow> u32 list"
  ctl_cb :: "'a nlmsg \<Rightarrow> int"

definition msg_send :: "'a sock_calls \<Rightarrow> 'a datagram list option" where
  "msg_send s =
     (if \<not> so_open s then None
      else if so_bind s < 0 then None
      else if so_sendto s < 0 then None
      else Some (so_recv s))"

text \<open>
  The contract of \<^verbatim>\<open>mnl_cb_run\<close>: the messages of a datagram go to the callback one after the other
  until a result is not positive. Its checks of sequence number and port are in \<open>Nl_Socket\<close>.
\<close>

fun mnl_cb_run ::
  "'a libmnl \<Rightarrow> ('a, 'd) mnl_cb \<Rightarrow> 'a nlmsg list \<Rightarrow> 'd \<Rightarrow> (int \<times> 'd) option" where
  "mnl_cb_run L cb [] d = Some (CB_OK, d)"
| "mnl_cb_run L cb (m # ms) d = do {
     (ret, d) \<leftarrow> (case m of Data attrs \<Rightarrow> cb attrs d | _ \<Rightarrow> Some (ctl_cb L m, d));
     if ret \<le> 0 then Some (ret, d) else mnl_cb_run L cb ms d
   }"

fun recv_loop ::
  "'a libmnl \<Rightarrow> ('a, 'd) mnl_cb \<Rightarrow> 'a datagram list \<Rightarrow> 'd \<Rightarrow> (int \<times> 'd) option" where
  "recv_loop L cb [] d = None"
| "recv_loop L cb (Recv_Fail ret # gs) d = Some (ret, d)"
| "recv_loop L cb (Gram ms # gs) d = do {
     (ret, d) \<leftarrow> mnl_cb_run L cb ms d;
     if ret \<le> 0 then Some (ret, d) else recv_loop L cb gs d
   }"

definition msg_query ::
  "'a libmnl \<Rightarrow> 'a nl_env \<Rightarrow> client_request \<Rightarrow> ('a, 'd) mnl_cb \<Rightarrow> 'd \<Rightarrow> (int \<times> 'd) option" where
  "msg_query L env rq cb d =
     (case msg_send (env rq) of
        None \<Rightarrow> Some (- ENOTSUP, d)
      | Some gs \<Rightarrow> recv_loop L cb gs d)"

text \<open>A table of attributes with \<open>last_type + 1\<close> places; a type beyond it is written outside of it.\<close>

definition parse_attrs :: "'a libmnl \<Rightarrow> nat \<Rightarrow> 'a \<Rightarrow> 'a tb \<Rightarrow> (int \<times> 'a tb) option" where
  "parse_attrs L last_type attr tb =
     (if na_type L attr \<le> last_type then Some (CB_OK, tb(na_type L attr \<mapsto> attr)) else None)"

definition parse_msg :: "'a libmnl \<Rightarrow> nat \<Rightarrow> 'a list \<Rightarrow> 'a tb option" where
  "parse_msg L last_type msg = map_option snd (mnl_attr_parse (parse_attrs L last_type) msg (\<lambda>_. None))"

section \<open>Transfers\<close>

text \<open>The state of the callback is the error so far and what has been printed.\<close>

definition xfer_msg_cb :: "'a libmnl \<Rightarrow> 'o xfer_cb \<Rightarrow> ('a, int \<times> 'o list) mnl_cb" where
  "xfer_msg_cb L cb msg st = do {
     tb \<leftarrow> parse_msg L MDIO_NLA_MAX msg;
     let (xerr, printed) = st;
     let xerr = (case tb MDIO_NLA_ERROR of Some a \<Rightarrow> sint (na_u32 L a) | None \<Rightarrow> xerr);
     case tb MDIO_NLA_DATA of
       None \<Rightarrow> Some (MNL_CB_ERROR, xerr, printed)
     | Some a \<Rightarrow>
         (case cb (na_words L a) xerr of
            (err, s) \<Rightarrow> Some (if err \<noteq> 0 then MNL_CB_ERROR else MNL_CB_OK, xerr, printed @ s))
   }"

definition xfer_request :: "u16 \<Rightarrow> string \<Rightarrow> mdio_prog \<Rightarrow> u16 \<Rightarrow> client_request" where
  "xfer_request mdio_family bus_id prog timeout_ms =
     (let rq = msg_init mdio_family MDIO_GENL_XFER [NLM_F_REQUEST, NLM_F_ACK];
          rq = client_put MDIO_NLA_BUS_ID (Strz bus_id) rq;
          rq = client_put MDIO_NLA_PROG (Insns prog) rq in
      client_put MDIO_NLA_TIMEOUT (U16 timeout_ms) rq)"

definition socket_xfer_timeout ::
  "'a libmnl \<Rightarrow> 'a nl_env \<Rightarrow> u16 \<Rightarrow> string \<Rightarrow> mdio_prog \<Rightarrow> 'o xfer_cb \<Rightarrow> u16 \<Rightarrow> (int \<times> 'o list) option"
  where
  "socket_xfer_timeout L env mdio_family bus_id prog cb timeout_ms =
     (if XFER_BUF_LEN < length prog * 8 then Some (- ENOMEM, [])
      else do {
        (err, xerr, printed) \<leftarrow>
          msg_query L env (xfer_request mdio_family bus_id prog timeout_ms) (xfer_msg_cb L cb) (0, []);
        Some (if xerr \<noteq> 0 then xerr else err, printed)
      })"

section \<open>Initialisation\<close>

definition family_id_cb :: "genl_uapi \<Rightarrow> 'a libmnl \<Rightarrow> ('a, u16) mnl_cb" where
  "family_id_cb G L msg mdio_family = do {
     tb \<leftarrow> parse_msg L (CTRL_ATTR_MAX G) msg;
     case tb (CTRL_ATTR_FAMILY_ID G) of
       None \<Rightarrow> Some (CB_ERROR, mdio_family)
     | Some a \<Rightarrow> Some (CB_OK, na_u16 L a)
   }"

definition family_request :: "genl_uapi \<Rightarrow> client_request" where
  "family_request G =
     (let rq = \<lparr>cq_type = ucast (GENL_ID_CTRL G), cq_flags = [NLM_F_REQUEST, NLM_F_ACK],
                cq_cmd = CTRL_CMD_GETFAMILY G, cq_version = 1, cq_attrs = []\<rparr>;
          rq = client_put (CTRL_ATTR_FAMILY_ID G) (U16 (ucast (GENL_ID_CTRL G))) rq in
      client_put (CTRL_ATTR_FAMILY_NAME G) (Strz ''mdio'') rq)"

text \<open>The result and the new value of \<^verbatim>\<open>mdio_family\<close>.\<close>

definition mdio_init :: "genl_uapi \<Rightarrow> 'a libmnl \<Rightarrow> 'a nl_env \<Rightarrow> u16 \<Rightarrow> (int \<times> u16) option" where
  "mdio_init G L env mdio_family =
     msg_query L env (family_request G) (family_id_cb G L) mdio_family"

text \<open>The calls that \<^verbatim>\<open>mdio_modprobe\<close> makes in the parent process, and what they return.\<close>

record child =
  ch_fork :: int
  ch_errno :: int
  ch_waitpid :: int
  ch_exited :: bool
  ch_status :: int

definition ECHILD :: int where "ECHILD = 10"
definition EPERM :: int where "EPERM = 1"

definition mdio_modprobe :: "child \<Rightarrow> int" where
  "mdio_modprobe c =
     (if ch_fork c < 0 then - ch_errno c
      else if ch_waitpid c \<le> 0 then - ECHILD
      else if ch_exited c \<and> ch_status c = 0 then 0
      else - EPERM)"

text \<open>The beginning of \<^verbatim>\<open>main\<close>: whether it goes on to the command, and the family number.\<close>

definition mdio_start ::
  "genl_uapi \<Rightarrow> 'a libmnl \<Rightarrow> 'a nl_env \<Rightarrow> child \<Rightarrow> 'a nl_env \<Rightarrow> u16 \<Rightarrow> (bool \<times> u16) option" where
  "mdio_start G L env c env' mdio_family = do {
     (err, mdio_family) \<leftarrow> mdio_init G L env mdio_family;
     if err = 0 then Some (True, mdio_family)
     else if mdio_modprobe c \<noteq> 0 then Some (False, mdio_family)
     else do {
       (err, mdio_family) \<leftarrow> mdio_init G L env' mdio_family;
       Some (err = 0, mdio_family)
     }
   }"

text \<open>The three results that \<open>Mdio_Main\<close> takes from its surroundings are those of these calls.\<close>

lemma start_is_main_ready:
  assumes "mdio_init G L env fam = Some (me_init E, fam1)" and "me_modprobe E = mdio_modprobe c"
    and "mdio_init G L env' fam1 = Some (me_reinit E, fam2)"
  shows "map_option fst (mdio_start G L env c env' fam) = Some (main_ready E)"
  using assms by (auto simp: mdio_start_def main_ready_def)

section \<open>Replies in the datagrams\<close>

text \<open>The replies that arrive before the first result that is not positive, and this result.\<close>

definition reply_of :: "'a libmnl \<Rightarrow> 'a list \<Rightarrow> reply option" where
  "reply_of L msg = map_option
     (\<lambda>tb. \<lparr>reply_error = map_option (na_u32 L) (tb MDIO_NLA_ERROR),
            reply_data = map_option (na_words L) (tb MDIO_NLA_DATA)\<rparr>)
     (parse_msg L MDIO_NLA_MAX msg)"

fun gram_replies :: "'a libmnl \<Rightarrow> 'a nlmsg list \<Rightarrow> (reply list \<times> int option) option" where
  "gram_replies L [] = Some ([], None)"
| "gram_replies L (m # ms) =
     (case m of
        Data msg \<Rightarrow> do {
          r \<leftarrow> reply_of L msg;
          (rs, final) \<leftarrow> gram_replies L ms;
          Some (r # rs, final)
        }
      | _ \<Rightarrow> if ctl_cb L m \<le> 0 then Some ([], Some (ctl_cb L m)) else gram_replies L ms)"

fun replies :: "'a libmnl \<Rightarrow> 'a datagram list \<Rightarrow> (reply list \<times> int) option" where
  "replies L [] = None"
| "replies L (Recv_Fail ret # gs) = Some ([], ret)"
| "replies L (Gram ms # gs) = do {
     (rs, final) \<leftarrow> gram_replies L ms;
     (case final of
        Some ret \<Rightarrow> Some (rs, ret)
      | None \<Rightarrow> do {
          (rs', ret) \<leftarrow> replies L gs;
          Some (rs @ rs', ret)
        })
   }"

definition socket_answer :: "'a libmnl \<Rightarrow> 'a sock_calls \<Rightarrow> answer option" where
  "socket_answer L s =
     (case msg_send s of
        None \<Rightarrow> Some No_Socket
      | Some gs \<Rightarrow> map_option (\<lambda>(rs, ret). Answer rs ret) (replies L gs))"

lemma xfer_msg_cb_reply:
  assumes "reply_of L msg = Some r" and "mdio_xfer_cb cb r xerr = (ret, xerr', s)"
  shows "xfer_msg_cb L cb msg (xerr, printed) = Some (ret, xerr', printed @ s)"
  using assms
  by (auto simp: reply_of_def xfer_msg_cb_def mdio_xfer_cb_def Let_def
      split: option.splits prod.splits)

lemma mnl_cb_run_replies:
  assumes "gram_replies L ms = Some (rs, final)"
  shows "\<exists>ret. mnl_cb_run L (xfer_msg_cb L cb) ms (xerr, printed) =
             (case msg_recv cb rs ret xerr of (ret, xerr, s) \<Rightarrow> Some (ret, xerr, printed @ s)) \<and>
           ret = (case final of Some ret \<Rightarrow> ret | None \<Rightarrow> CB_OK) \<and>
           (\<forall>ret. final = Some ret \<longrightarrow> ret \<le> 0)"
  using assms
proof (induction ms arbitrary: rs xerr printed)
  case Nil
  then show ?case by simp
next
  case (Cons m ms)
  show ?case
  proof (cases "\<exists>msg. m = Data msg")
    case True
    then obtain msg where m: "m = Data msg" ..
    with Cons.prems obtain r rs' where r: "reply_of L msg = Some r"
        and rs': "gram_replies L ms = Some (rs', final)" and rs: "rs = r # rs'"
      by (auto split: bind_splits)
    obtain ret xerr' s where cb: "mdio_xfer_cb cb r xerr = (ret, xerr', s)" by (cases "mdio_xfer_cb cb r xerr")
    show ?thesis
      using Cons.IH [OF rs', of xerr' "printed @ s"]
      by (auto simp: m rs cb xfer_msg_cb_reply [OF r cb] split: prod.splits)
  next
    case False
    with Cons show ?thesis by (cases m) (auto split: if_splits)
  qed
qed

lemma msg_recv_append:
  "msg_recv cb (rs @ rs') final xerr =
     (case msg_recv cb rs 1 xerr of (ret, xerr, s) \<Rightarrow>
        if ret \<le> 0 then (ret, xerr, s)
        else (case msg_recv cb rs' final xerr of (ret, xerr, s') \<Rightarrow> (ret, xerr, s @ s')))"
  by (induction rs arbitrary: xerr) (auto split: prod.splits)

lemma msg_recv_final: "ret \<le> 0 \<Longrightarrow> msg_recv cb rs ret xerr = (res, xerr', s) \<Longrightarrow> res \<le> 0"
  by (induction rs arbitrary: xerr xerr' s) (auto split: prod.splits if_splits)

lemma recv_loop_replies:
  assumes "replies L gs = Some (rs, final)"
  shows "recv_loop L (xfer_msg_cb L cb) gs (xerr, printed) =
           (case msg_recv cb rs final xerr of (ret, xerr, s) \<Rightarrow> Some (ret, xerr, printed @ s))"
  using assms
proof (induction L gs arbitrary: rs xerr printed rule: replies.induct)
  case (3 L ms gs)
  then obtain rs1 fin where g: "gram_replies L ms = Some (rs1, fin)" by (auto split: bind_splits)
  note run = mnl_cb_run_replies [OF g, of cb xerr printed]
  show ?case
  proof (cases fin)
    case None
    with 3 g obtain rs2 where rs2: "replies L gs = Some (rs2, final)" "rs = rs1 @ rs2"
      by (auto split: bind_splits)
    show ?thesis
      using run 3(1) [OF g refl None rs2(1)]
      by (auto simp: None rs2(2) msg_recv_append CB_OK_def split: prod.splits)
  next
    case (Some ret)
    with 3 g have "rs = rs1" "final = ret" by auto
    then show ?thesis using run Some by (auto split: prod.splits dest: msg_recv_final)
  qed
qed auto

lemma xfer_replies_socket:
  assumes "socket_answer L (env (xfer_request mdio_family bus_id prog timeout_ms)) =
             Some (link bus_id prog timeout_ms)"
  shows "socket_xfer_timeout L env mdio_family bus_id prog cb timeout_ms =
           Some (mdio_xfer_timeout link bus_id prog cb timeout_ms)"
proof (cases "msg_send (env (xfer_request mdio_family bus_id prog timeout_ms))")
  case None
  then have "link bus_id prog timeout_ms = No_Socket"
    using assms by (simp add: socket_answer_def)
  then show ?thesis
    by (simp add: socket_xfer_timeout_def msg_query_def mdio_xfer_timeout_def None)
next
  case (Some gs)
  with assms obtain rs ret where "replies L gs = Some (rs, ret)"
      and link: "link bus_id prog timeout_ms = Answer rs ret"
    by (auto simp: socket_answer_def)
  then have "recv_loop L (xfer_msg_cb L cb) gs (0, []) =
      (case msg_recv cb rs ret 0 of (ret, xerr, s) \<Rightarrow> Some (ret, xerr, s))"
    by (simp add: recv_loop_replies)
  then show ?thesis
    by (auto simp: socket_xfer_timeout_def msg_query_def mdio_xfer_timeout_def Some link
        split: prod.splits)
qed

section \<open>Properties\<close>

text \<open>
  The model of a transfer that sees replies only is what the code does on the socket: if the
  datagrams that answer the request end the reception, \<^verbatim>\<open>mdio_xfer_timeout\<close> returns, with the
  status and the output that \<open>Mdio_Xfer\<close> gives for the replies found in them, wherever the datagrams
  are cut and wherever a callback stops.
\<close>

theorem xfer_over_socket:
  assumes "socket_answer L (env (xfer_request mdio_family bus_id prog timeout_ms)) =
             Some (link bus_id prog timeout_ms)"
  shows "socket_xfer_timeout L env mdio_family bus_id prog cb timeout_ms =
           Some (mdio_xfer_timeout link bus_id prog cb timeout_ms)"
  using assms by (rule xfer_replies_socket)

text \<open>
  A libmnl on attributes that are a type and its payload, whose control callbacks are those of the
  library: an error message with number 0 acknowledges the request.
\<close>

definition y_libmnl :: "(nat \<times> u32 list) libmnl" where
  "y_libmnl =
     \<lparr>na_type = fst, na_u16 = \<lambda>a. ucast (hd (snd a)), na_u32 = \<lambda>a. hd (snd a), na_words = snd,
      ctl_cb = \<lambda>m. case m of Nl_Error e \<Rightarrow> if e = 0 then 0 else - 1 | Nl_Done n \<Rightarrow> 0 | _ \<Rightarrow> 1\<rparr>"

definition y_answer :: "(nat \<times> u32 list) datagram list \<Rightarrow> (nat \<times> u32 list) sock_calls" where
  "y_answer gs = \<lparr>so_open = True, so_bind = 0, so_sendto = 24, so_recv = gs\<rparr>"

theorem xfer_over_socket_witness:
  "socket_xfer_timeout y_libmnl
     (\<lambda>_. y_answer [Gram [Data [(4, [7, 8])]], Gram [Data [(5, [0xffffffff]), (4, [9])], Nl_Error 0]]) 29
     ''b'' [] (\<lambda>data err. (0, data)) 1000 = Some (- 1, [7, 8, 9])"
proof -
  let ?gs = "[Gram [Data [(4, [7, 8])]], Gram [Data [(5, [0xffffffff]), (4, [9])], Nl_Error 0]]"
  let ?link = "\<lambda>_ _ _. Answer [\<lparr>reply_error = None, reply_data = Some [7, 8]\<rparr>,
    \<lparr>reply_error = Some 0xffffffff, reply_data = Some [9]\<rparr>] 0"
  have "socket_answer y_libmnl (y_answer ?gs) = Some (?link ''b'' [] 1000)" by code_simp
  moreover have "mdio_xfer_timeout ?link ''b'' [] (\<lambda>data err. (0, data)) 1000 = (- 1, [7, 8, 9])"
    by code_simp
  ultimately show ?thesis
    using xfer_over_socket [where L = y_libmnl and env = "\<lambda>_. y_answer ?gs" and link = ?link
        and cb = "\<lambda>data err. (0, data)"] by simp
qed

lemma mdio_init_found:
  assumes "msg_send (env (family_request G)) = Some (Gram [Data msg] # Gram [Nl_Error 0] # gs)"
    and "parse_msg L (CTRL_ATTR_MAX G) msg = Some tb" and "tb (CTRL_ATTR_FAMILY_ID G) = Some a"
    and "ctl_cb L (Nl_Error 0) = 0"
  shows "mdio_init G L env mdio_family = Some (0, na_u16 L a)"
  using assms by (simp add: mdio_init_def msg_query_def family_id_cb_def CB_OK_def)

lemma mdio_init_refused:
  assumes "msg_send (env (family_request G)) = Some (Gram (Nl_Error e # ms) # gs)"
    and "ctl_cb L (Nl_Error e) < 0"
  shows "mdio_init G L env mdio_family = Some (ctl_cb L (Nl_Error e), mdio_family)"
  using assms by (simp add: mdio_init_def msg_query_def)

text \<open>
  C32. Starting the tool when the module is not loaded: the first lookup fails, the module is loaded,
  and the second lookup returns the family number \<open>fam\<close> that the kernel reports, if it reports
  attributes that the headers know and acknowledges the request; then and only then the tool goes
  on to the command. Where the loading fails it stops.
\<close>

theorem start_loads_module:
  assumes "msg_send (env (family_request G)) = Some (Gram (Nl_Error e # ms) # gs)"
    and "ctl_cb L (Nl_Error e) < 0" and "ctl_cb L (Nl_Error 0) = 0"
    and "msg_send (env' (family_request G)) = Some (Gram [Data msg] # Gram [Nl_Error 0] # gs')"
    and "parse_msg L (CTRL_ATTR_MAX G) msg = Some tb" and "tb (CTRL_ATTR_FAMILY_ID G) = Some a"
    and "0 < ch_errno c"
  shows "mdio_start G L env c env' mdio_family =
           (if 0 \<le> ch_fork c \<and> 0 < ch_waitpid c \<and> ch_exited c \<and> ch_status c = 0
            then Some (True, na_u16 L a) else Some (False, mdio_family))"
  using assms
  by (simp add: mdio_start_def mdio_init_refused mdio_init_found mdio_modprobe_def ECHILD_def
      EPERM_def)

theorem start_loads_module_witness:
  "mdio_start \<lparr>CTRL_ATTR_FAMILY_ID = 1, CTRL_ATTR_FAMILY_NAME = 2, CTRL_ATTR_MAX = 10,
      CTRL_CMD_GETFAMILY = 3, GENL_ID_CTRL = 16\<rparr> y_libmnl
     (\<lambda>_. y_answer [Gram [Nl_Error (- 2)]])
     \<lparr>ch_fork = 42, ch_errno = 1, ch_waitpid = 42, ch_exited = True, ch_status = 0\<rparr>
     (\<lambda>_. y_answer [Gram [Data [(2, [0]), (1, [29])]], Gram [Nl_Error 0]]) 0 = Some (True, 29)"
  by (subst start_loads_module [where e = "- 2" and ms = "[]" and gs = "[]" and gs' = "[]"
        and msg = "[(2, [0]), (1, [29])]" and tb = "[2 \<mapsto> (2, [0]), 1 \<mapsto> (1, [29])]" and a = "(1, [29])"])
    (simp_all add: y_libmnl_def y_answer_def msg_send_def parse_msg_def parse_attrs_def CB_OK_def CB_STOP_def)

end
