(* ===== verification/Nl_Module.thy ===== *)
theory Nl_Module
  imports Mdio_Client Nl_Theorems
begin

text \<open>
  The registration of \<^verbatim>\<open>kernel/mdio-netlink.c\<close> with generic netlink: the policy of the attributes, the
  table of commands and the family. Generic netlink is a parameter; which requests of the tool it
  lets through to the handler is \<open>request_admitted\<close>.
\<close>

section \<open>The declarations of the module\<close>

text \<open>The kinds of policy that the module uses, with their bounds and the validation function.\<close>

datatype nla_policy =
  NLA_UNSPEC | NLA_STRING nat | NLA_U16_MAX nat |
  NLA_BINARY_FN "prog_attr \<Rightarrow> int \<times> string option" nat | NLA_NESTED | NLA_S32

definition MSEC_PER_SEC :: nat where "MSEC_PER_SEC = 1000"

text \<open>\<open>bus_id_size\<close> is \<^verbatim>\<open>MII_BUS_ID_SIZE\<close> of \<^verbatim>\<open>linux/phy.h\<close>.\<close>

definition mdio_nl_policy :: "nat \<Rightarrow> nat \<Rightarrow> nla_policy" where
  "mdio_nl_policy bus_id_size ty =
     (if ty = MDIO_NLA_BUS_ID then NLA_STRING bus_id_size
      else if ty = MDIO_NLA_TIMEOUT then NLA_U16_MAX (10 * MSEC_PER_SEC)
      else if ty = MDIO_NLA_PROG then NLA_BINARY_FN mdio_nl_validate_prog 0x1000
      else if ty = MDIO_NLA_DATA then NLA_NESTED
      else if ty = MDIO_NLA_ERROR then NLA_S32
      else NLA_UNSPEC)"

text \<open>The member \<^verbatim>\<open>doit\<close> of the only command is \<open>mdio_nl_cmd_xfer\<close>.\<close>

record genl_op =
  op_cmd :: nat
  op_admin :: bool

definition mdio_nl_ops :: "genl_op list" where
  "mdio_nl_ops = [\<lparr>op_cmd = MDIO_GENL_XFER, op_admin = True\<rparr>]"

record genl_family =
  fam_name :: string
  fam_version :: nat
  fam_maxattr :: nat
  fam_netnsok :: bool
  fam_ops :: "genl_op list"
  fam_policy :: "nat \<Rightarrow> nla_policy"

definition mdio_nl_family :: "nat \<Rightarrow> genl_family" where
  "mdio_nl_family bus_id_size =
     \<lparr>fam_name = ''mdio'', fam_version = 1, fam_maxattr = MDIO_NLA_MAX, fam_netnsok = False,
      fam_ops = mdio_nl_ops, fam_policy = mdio_nl_policy bus_id_size\<rparr>"

section \<open>Generic netlink\<close>

text \<open>
  What the module uses of generic netlink: the check of an attribute against its policy, whether
  the sender has \<^verbatim>\<open>CAP_NET_ADMIN\<close>, and the calls for a family.
\<close>

record 'g linux_genl =
  lx_valid :: "nla_policy \<Rightarrow> client_value \<Rightarrow> bool"
  lx_bus_id_size :: nat
  lx_admin :: bool
  genl_register_family :: "genl_family \<Rightarrow> 'g \<Rightarrow> int \<times> 'g"
  genl_unregister_family :: "genl_family \<Rightarrow> 'g \<Rightarrow> 'g"

definition mdio_nl_init :: "'g linux_genl \<Rightarrow> 'g \<Rightarrow> int \<times> 'g" where
  "mdio_nl_init X = genl_register_family X (mdio_nl_family (lx_bus_id_size X))"

definition mdio_nl_exit :: "'g linux_genl \<Rightarrow> 'g \<Rightarrow> 'g" where
  "mdio_nl_exit X = genl_unregister_family X (mdio_nl_family (lx_bus_id_size X))"

text \<open>
  The documented meaning of the policies: a string is at most as long, a number at most as large,
  and binary data at most as long as it says, and the validation function returns 0.
\<close>

definition policy_documented :: "'g linux_genl \<Rightarrow> bool" where
  "policy_documented X \<longleftrightarrow>
     (\<forall>n s. lx_valid X (NLA_STRING n) (Strz s) \<longleftrightarrow> length s \<le> n) \<and>
     (\<forall>n t. lx_valid X (NLA_U16_MAX n) (U16 t) \<longleftrightarrow> unat t \<le> n) \<and>
     (\<forall>f n p. lx_valid X (NLA_BINARY_FN f n) (Insns p) \<longleftrightarrow>
        8 * length p \<le> n \<and> fst (f \<lparr>nla_len = 8 * length p, nla_data = p\<rparr>) = 0)"

text \<open>
  Generic netlink lets a request through to the handler of a family when the command is in its
  table, the sender has the right that the command asks for, and every attribute that the family
  knows satisfies its policy.
\<close>

definition genl_admits :: "'g linux_genl \<Rightarrow> genl_family \<Rightarrow> client_request \<Rightarrow> bool" where
  "genl_admits X fam rq \<longleftrightarrow>
     (case List.find (\<lambda>op. op_cmd op = cq_cmd rq) (fam_ops fam) of
        None \<Rightarrow> False | Some op \<Rightarrow> op_admin op \<longrightarrow> lx_admin X) \<and>
     list_all (\<lambda>(ty, v). ty \<le> fam_maxattr fam \<longrightarrow> lx_valid X (fam_policy fam ty) v) (cq_attrs rq)"

text \<open>
  \<^verbatim>\<open>info->attrs\<close>. \<open>rd t\<close> are the 32 bits that \<^verbatim>\<open>nla_get_u32\<close> reads from the attribute into which the
  tool put the 16 bits \<open>t\<close>.
\<close>

definition request_info :: "(u16 \<Rightarrow> u32) \<Rightarrow> client_request \<Rightarrow> genl_info" where
  "request_info rd rq =
     (let tb = map_of (rev (cq_attrs rq)) in
      \<lparr>attr_bus_id = (case tb MDIO_NLA_BUS_ID of Some (Strz s) \<Rightarrow> Some s | _ \<Rightarrow> None),
       attr_timeout = (case tb MDIO_NLA_TIMEOUT of Some (U16 t) \<Rightarrow> Some (rd t) | _ \<Rightarrow> None),
       attr_prog = (case tb MDIO_NLA_PROG of
          Some (Insns p) \<Rightarrow> Some \<lparr>nla_len = 8 * length p, nla_data = p\<rparr> | _ \<Rightarrow> None),
       attr_data = (tb MDIO_NLA_DATA \<noteq> None), attr_error = (tb MDIO_NLA_ERROR \<noteq> None)\<rparr>)"

section \<open>Requests of the tool\<close>

lemmas request_defs = xfer_request_def msg_init_def client_put_def nla_defs

lemma request_info_xfer:
  "request_info rd (xfer_request fam bus_id p t) =
     \<lparr>attr_bus_id = Some bus_id, attr_timeout = Some (rd t),
      attr_prog = Some \<lparr>nla_len = 8 * length p, nla_data = p\<rparr>, attr_data = False, attr_error = False\<rparr>"
  by (simp add: request_info_def request_defs)

lemma request_admits:
  assumes "policy_documented X"
  shows "genl_admits X (mdio_nl_family (lx_bus_id_size X)) (xfer_request fam bus_id p t) \<longleftrightarrow>
           lx_admin X \<and> length bus_id \<le> lx_bus_id_size X \<and> unat t \<le> 10000 \<and> length p \<le> 512 \<and>
           decode_prog p \<noteq> None"
proof -
  have "fst (mdio_nl_validate_prog \<lparr>nla_len = 8 * length p, nla_data = p\<rparr>) = 0 \<longleftrightarrow> decode_prog p \<noteq> None"
    using validate_insns_decode [of p] by (simp add: mdio_nl_validate_prog_def)
  moreover have "8 * length p \<le> 0x1000 \<longleftrightarrow> length p \<le> 512" by arith
  ultimately show ?thesis
    using assms
    by (auto simp: genl_admits_def mdio_nl_family_def mdio_nl_ops_def mdio_nl_policy_def
        policy_documented_def request_defs MSEC_PER_SEC_def)
qed

text \<open>
  C6. Generic netlink lets a request of the tool through to the handler exactly when the sender is
  an administrator, the name of the bus is not too long, the timeout is at most ten seconds, the
  program has at most 512 instructions, and every instruction is one that the interface documents.
\<close>

theorem request_admitted:
  assumes "policy_documented X"
  shows "genl_admits X (mdio_nl_family (lx_bus_id_size X)) (xfer_request fam bus_id p t) \<longleftrightarrow>
           lx_admin X \<and> length bus_id \<le> lx_bus_id_size X \<and> unat t \<le> 10000 \<and> length p \<le> 512 \<and>
           decode_prog p \<noteq> None"
  by (rule request_admits [OF assms])

definition ex_linux :: "unit linux_genl" where
  "ex_linux =
     \<lparr>lx_valid = (\<lambda>pol v. case (pol, v) of
        (NLA_STRING n, Strz s) \<Rightarrow> length s \<le> n
      | (NLA_U16_MAX n, U16 t) \<Rightarrow> unat t \<le> n
      | (NLA_BINARY_FN f n, Insns p) \<Rightarrow>
          8 * length p \<le> n \<and> fst (f \<lparr>nla_len = 8 * length p, nla_data = p\<rparr>) = 0
      | _ \<Rightarrow> False),
      lx_bus_id_size = 61, lx_admin = True,
      genl_register_family = (\<lambda>_ g. (0, g)), genl_unregister_family = (\<lambda>_ g. g)\<rparr>"

lemma ex_linux_ok: "policy_documented ex_linux" "lx_admin ex_linux" "lx_bus_id_size ex_linux = 61"
  by (simp_all add: policy_documented_def ex_linux_def)

theorem request_admitted_witness:
  "genl_admits ex_linux (mdio_nl_family 61) (xfer_request 20 ''fixed-0'' ex_prog 10000) \<and>
   \<not> genl_admits ex_linux (mdio_nl_family 61) (xfer_request 20 ''fixed-0'' ex_prog 10001)"
  using request_admitted [OF ex_linux_ok(1), of 20 "''fixed-0''" ex_prog] ex_linux_ok ex_decode
  by simp

end
