(* ===== verification/Full_Stack.thy ===== *)
theory Full_Stack
  imports End_To_End Nl_Messages Nl_Module
begin

text \<open>
  The tool on the kernel module: the request that \<^verbatim>\<open>mdio_xfer\<close> sends is validated and handled by
  \<^verbatim>\<open>mdio_nl_cmd_xfer\<close>, and the messages that the handler sends are the replies that the callbacks
  of the tool get. A command that runs on the documented machine runs the same way on the module.
\<close>

section \<open>The module as the kernel side of a transfer\<close>

text \<open>
  A message as the client reads it. Until \<^verbatim>\<open>genlmsg_end\<close> sets its length, a message consists of its
  headers only, and no attribute is found in it.
\<close>

definition view_reply :: "msg_view \<Rightarrow> reply" where
  "view_reply v =
     (if v_ended v
      then \<lparr>reply_error = map_option word_of_int (v_error v), reply_data = Some (v_data v)\<rparr>
      else \<lparr>reply_error = None, reply_data = None\<rparr>)"

text \<open>
  The module in its surroundings: generic netlink, the rest of the kernel, the clock, the messages
  that the socket has delivered, the number of the family, and what \<^verbatim>\<open>nla_get_u32\<close> reads from the
  timeout, of which the tool sends 16 bits. \<open>ms_size\<close>, \<open>ms_room\<close> and \<open>ms_view\<close> describe messages.
\<close>

record ('g, 'm, 'n, 'w) module_setup =
  ms_genl :: "'g linux_genl"
  ms_kernel :: "('m, 'n, 'w) kernel"
  ms_clk :: "nat \<Rightarrow> u64"
  ms_recvd :: "'n \<Rightarrow> msg_view list"
  ms_family :: u16
  ms_timeout :: "u16 \<Rightarrow> u32"
  ms_size :: nat
  ms_room :: "'m \<Rightarrow> nat"
  ms_view :: "'m \<Rightarrow> msg_view"

text \<open>What the handler makes of a request: its result and the messages that it has sent.\<close>

definition module_serve ::
  "('g, 'm, 'n, 'w) module_setup \<Rightarrow> ('n, 'w) ksys \<Rightarrow> nat \<Rightarrow> client_request \<Rightarrow> (int \<times> msg_view list) option"
  where
  "module_serve M s fuel rq =
     (case mdio_nl_cmd_xfer (ms_kernel M) (ms_clk M) fuel (request_info (ms_timeout M) rq) s of
        Some (Inr (ret, s')) \<Rightarrow>
          Some (ret, drop (length (ms_recvd M (sys_sock s))) (ms_recvd M (sys_sock s')))
      | _ \<Rightarrow> None)"

definition module_admits :: "('g, 'm, 'n, 'w) module_setup \<Rightarrow> client_request \<Rightarrow> bool" where
  "module_admits M = genl_admits (ms_genl M) (mdio_nl_family (lx_bus_id_size (ms_genl M)))"

text \<open>
  Generic netlink checks the request and calls the handler; a refusal and an error of the handler
  reach the client as an error message, on which \<^verbatim>\<open>mnl_cb_run\<close> returns -1. A handler that faults or
  has not returned is given the same answer, and no statement below rests on it.
\<close>

definition module_link ::
  "('g, 'm, 'n, 'w) module_setup \<Rightarrow> ('n, 'w) ksys \<Rightarrow> nat \<Rightarrow> kernel_link" where
  "module_link M s fuel bus_id p t =
     (let rq = xfer_request (ms_family M) bus_id p t in
      if \<not> module_admits M rq then Answer [] (- 1)
      else (case module_serve M s fuel rq of
              Some (ret, vs) \<Rightarrow> Answer (map view_reply vs) (if ret = 0 then 0 else - 1)
            | None \<Rightarrow> Answer [] (- 1)))"

text \<open>
  The user may do it, the bus exists, netlink works as documented with messages of at least 48
  bytes, and the deadline does not pass.
\<close>

definition module_ready :: "('g, 'm, 'n, 'w) module_setup \<Rightarrow> string \<Rightarrow> bool" where
  "module_ready M bus_id \<longleftrightarrow>
     policy_documented (ms_genl M) \<and> lx_admin (ms_genl M) \<and>
     length bus_id \<le> lx_bus_id_size (ms_genl M) \<and>
     mdio_find_bus (ms_kernel M) bus_id \<and>
     netlink_bytes (k_nl (ms_kernel M)) (ms_size M) (ms_room M) (ms_view M) (ms_recvd M) \<and>
     48 \<le> ms_size M \<and>
     (\<forall>k t. \<not> time_after (ms_kernel M) (ms_clk M (Suc k))
        (ms_clk M 0 + msecs_to_jiffies (ms_kernel M) t))"

lemma module_admits_xfer:
  assumes "module_ready M bus_id"
  shows "module_admits M (xfer_request (ms_family M) bus_id p t) \<longleftrightarrow>
           unat t \<le> 10000 \<and> length p \<le> 512 \<and> decode_prog p \<noteq> None"
  using assms by (simp add: module_admits_def request_admits module_ready_def)

lemma module_serve_views:
  assumes ready: "module_ready M bus_id"
    and "decode_prog p = Some V"
    and "vm_run (k_bus (ms_kernel M)) V n 0 (init_mst (sys_bus s)) = Some res"
    and "n \<le> m" and "length p \<le> 512"
  shows "module_serve M s m (xfer_request (ms_family M) bus_id p t) =
           Some (0, reply_views (ms_size M) (out (outcome_state res)) (outcome_status res))"
proof -
  let ?a = "\<lparr>nla_len = 8 * length p, nla_data = p\<rparr>" and ?rq = "xfer_request (ms_family M) bus_id p t"
  have acc: "accepted ?a" by (rule accepted_program [OF assms(2,5)])
  obtain s' where
    "mdio_nl_cmd_xfer (ms_kernel M) (ms_clk M) m (request_info (ms_timeout M) ?rq) s = Some (Inr (0, s'))"
    "ms_recvd M (sys_sock s') = ms_recvd M (sys_sock s) @
       reply_views (ms_size M) (out (outcome_state res)) (outcome_status res)"
    using cmd_xfer_messages [OF acc, where info = "request_info (ms_timeout M) ?rq" and K = "ms_kernel M"
        and b = bus_id and clk = "ms_clk M" and n = m and s = s and L = "ms_size M"
        and room = "ms_room M" and view = "ms_view M" and recvd = "ms_recvd M" and Q = V and r = res]
      ready assms(2) vm_run_mono [OF assms(3,4)]
    by (auto simp: module_ready_def request_info_xfer)
  then show ?thesis by (simp add: module_serve_def)
qed

lemma module_link_replies:
  assumes "module_ready M bus_id" and "unat t \<le> 10000"
    and "decode_prog p = Some V"
    and "vm_run (k_bus (ms_kernel M)) V n 0 (init_mst (sys_bus s)) = Some res"
    and "n \<le> m" and "length p \<le> 512"
  shows "module_link M s m bus_id p t =
           Answer (map view_reply (reply_views (ms_size M) (out (outcome_state res)) (outcome_status res))) 0"
  using assms module_serve_views [OF assms(1,3-6)]
  by (simp add: module_link_def Let_def module_admits_xfer)

text \<open>What fits into one message with the error and the end mark is sent in one message.\<close>

lemma reply_views_one:
  assumes "4 * length vs + 48 \<le> L"
  shows "reply_views L vs err =
           [\<lparr>v_data = vs, v_error = (if err = 0 then None else Some err), v_ended = True, v_done = True\<rparr>]"
proof -
  have "length vs \<le> (L - 24) div 4" using assms by (simp add: less_eq_div_iff_mult_less_eq)
  then show ?thesis using assms by (auto simp: reply_views_def chunks_one closing_def)
qed

lemma module_machine:
  assumes "module_ready M bus_id"
  shows "machine_kernel (module_link M s) (k_bus (ms_kernel M)) (sys_bus s) bus_id ((ms_size M - 48) div 4)"
proof
  fix p V n res m and t :: u16
  assume p: "decode_prog p = Some V" "vm_run (k_bus (ms_kernel M)) V n 0 (init_mst (sys_bus s)) = Some res"
      "n \<le> m" "length p \<le> 512" and t: "unat t \<le> 10000"
    and "length (out (outcome_state res)) \<le> (ms_size M - 48) div 4"
  moreover have size: "48 \<le> ms_size M" using assms by (simp add: module_ready_def)
  ultimately have "4 * length (out (outcome_state res)) + 48 \<le> ms_size M"
    using size by (simp add: less_eq_div_iff_mult_less_eq)
  then show "module_link M s m bus_id p t = one_reply (outcome_status res) (out (outcome_state res))"
    using module_link_replies [OF assms t p]
    by (simp add: reply_views_one one_reply_def view_reply_def)
qed

text \<open>A concrete module that is ready.\<close>

definition byte_setup :: "nat \<Rightarrow> mem bus_api \<Rightarrow> (unit, byte_msg, msg_view list, mem) module_setup" where
  "byte_setup L B =
     \<lparr>ms_genl = ex_linux, ms_kernel = (byte_kernel L)\<lparr>k_bus := B\<rparr>, ms_clk = (\<lambda>_. 0), ms_recvd = id,
      ms_family = 20, ms_timeout = (\<lambda>t. ucast t), ms_size = L, ms_room = bm_room, ms_view = bm_view\<rparr>"

lemma byte_setup_simps [simp]:
  "ms_size (byte_setup L B) = L" "k_bus (ms_kernel (byte_setup L B)) = B"
  by (simp_all add: byte_setup_def)

lemma byte_ready: "48 \<le> L \<Longrightarrow> module_ready (byte_setup L B) ''fixed-0''"
  by (simp add: module_ready_def byte_setup_def byte_nl_ok ex_linux_ok)

definition mem_sys :: "mem \<Rightarrow> (msg_view list, mem) ksys" where
  "mem_sys w = byte_sys\<lparr>sys_bus := w\<rparr>"

lemma mem_sys_bus [simp]: "sys_bus (mem_sys w) = w"
  by (simp add: mem_sys_def)

section \<open>Commands of the tool on the module\<close>

text \<open>
  C4. \<^verbatim>\<open>mdio BUS phy ID raw REG\<close> with decimal numbers, from the arguments through the generated
  program, its validation and interpretation in the kernel and the reply message back to the
  callback: reads exactly this register of this PHY and prints its value in four hexadecimal
  digits, with exit status 0.
\<close>

theorem phy_raw_prints_register:
  assumes "module_ready M b" and "52 \<le> ms_size M" and "d \<le> 31" and "reg \<le> 31"
    and "bus_read (k_bus (ms_kernel M)) (of_nat d) (of_nat reg) (sys_bus s) = (uint (v :: u16), w')"
  shows "\<exists>n. \<forall>m \<ge> n. phy_exec U (module_link M s m) b [dec d, ''raw'', dec reg] =
           Some (0, [Text (''0x'' @ hex_pad 4 (unat v) @ [CHR 0x0A])])"
proof -
  have "1 \<le> (ms_size M - 48) div 4" using assms(2) by (simp add: less_eq_div_iff_mult_less_eq)
  from phy_raw_on [OF module_machine [OF assms(1)] this assms(3-5)] show ?thesis .
qed

theorem phy_raw_prints_register_witness:
  "\<exists>n. phy_exec linux_uapi (module_link (byte_setup 4000 ex_bus) (mem_sys (\<lambda>d r. d + r)) n) ''fixed-0''
       [dec 3, ''raw'', dec 18] = Some (0, [Text ''0x0015\<newline>''])"
proof -
  have "''0x'' @ hex_pad 4 (unat (21 :: u16)) @ [CHR 0x0A] = ''0x0015\<newline>''" by code_simp
  then show ?thesis
    using phy_raw_prints_register [OF byte_ready [of 4000 ex_bus], where d = 3 and reg = 18 and v = 21
        and s = "mem_sys (\<lambda>d r. d + r)" and U = linux_uapi]
    by (auto simp: ex_bus_def bus_read_def)
qed

text \<open>
  \<^verbatim>\<open>mdio BUS phy ID\<close> on the module, with a bus whose reads have no side effect, reports the control
  and status registers and the identifier of this PHY, the extended status exactly when the status
  register announces it, and no device when the identifier is all ones.
\<close>

theorem phy_status_reports:
  assumes "module_ready M b" and "68 \<le> ms_size M" and "d \<le> 31"
    and "\<And>r. bus_read (k_bus (ms_kernel M)) (of_nat d) r (sys_bus s) = (uint (val r), sys_bus s)"
  shows "\<exists>n. \<forall>m \<ge> n. phy_exec U (module_link M s m) b [dec d] =
           Some (if val 2 = 0xffff \<and> val 3 = 0xffff then (1, [No_Device_Found])
                 else (0, [Bmcr (val 0), Bmsr (val 1), Phy_Id (val 2) (val 3)] @
                          (if val 1 AND BMSR_ESTATEN U \<noteq> 0 then [Estatus (val 15)] else [])))"
proof -
  have "5 \<le> (ms_size M - 48) div 4" using assms(2) by (simp add: less_eq_div_iff_mult_less_eq)
  from phy_status_on [OF module_machine [OF assms(1)] this assms(3,4)] show ?thesis .
qed

theorem phy_status_reports_witness:
  "\<exists>n. phy_exec linux_uapi (module_link (byte_setup 4000 ex_bus) (mem_sys (\<lambda>d r. 0x100 + r)) n) ''fixed-0''
       [dec 3] = Some (0, [Bmcr 0x100, Bmsr 0x101, Phy_Id 0x102 0x103, Estatus 0x10f])"
  using phy_status_reports [OF byte_ready [of 4000 ex_bus], where d = 3 and val = "\<lambda>r. 0x100 + r"
      and s = "mem_sys (\<lambda>d r. 0x100 + r)" and U = linux_uapi]
  by (auto simp: ex_bus_def bus_read_def linux_uapi_def)

text \<open>
  C35. \<^verbatim>\<open>mdio BUS mmd PORT:DEV\<close> on the module, with a bus whose reads have no side effect, hands the
  first 16 registers of exactly this Clause 45 device, in order, to the report of its kind.
\<close>

theorem mmd_status_reports:
  fixes val :: "u16 \<Rightarrow> u16"
  assumes "module_ready M b" and "112 \<le> ms_size M"
    and "p \<le> 31" and "d \<le> 31" and "uapi_ok U"
    and "\<And>r. bus_read (k_bus (ms_kernel M)) (mdio_phy_id_c45 U (of_nat p) (of_nat d)) r (sys_bus s) =
           (uint (val r), sys_bus s)"
  shows "\<exists>n. \<forall>m \<ge> n. mmd_exec U (module_link M s m) b [dec p @ '':'' @ dec d] =
           (case mmd_status_cb (mmd_printer U (mdio_phy_id_c45 U (of_nat p) (of_nat d)))
                   (map (\<lambda>r. ucast (val (of_nat r))) [0 ..< 16]) 0 of
              (err, reps) \<Rightarrow> Some (if err \<noteq> 0 then 1 else 0, reps))"
proof -
  have "16 \<le> (ms_size M - 48) div 4" using assms(2) by (simp add: less_eq_div_iff_mult_less_eq)
  from mmd_status_on [OF module_machine [OF assms(1)] this assms(3-6)] show ?thesis .
qed

definition c45_bus :: "mem bus_api" where
  "c45_bus = ex_bus\<lparr>mdiobus_c45_read := (\<lambda>p d r w. (uint (w d r), w))\<rparr>"

theorem mmd_status_reports_witness:
  "\<exists>n. mmd_exec linux_uapi (module_link (byte_setup 4000 c45_bus) (mem_sys (\<lambda>d r. r)) n) ''fixed-0''
         [dec 3 @ '':'' @ dec 7] =
     Some (0, [Mmd_Ctrl1 0, Mmd_Stat1 1, Mmd_Devid 2 3, Mmd_Devs 6 5, Mmd_Pkgid 14 15])"
proof -
  have bus: "bus_read c45_bus (mdio_phy_id_c45 linux_uapi 3 7) r (\<lambda>d r. r) = (uint r, \<lambda>d r. r)" for r
    by (simp add: c45_bus_def ex_bus_def bus_read_def linux_uapi_def)
  have "mmd_status_cb (mmd_printer linux_uapi (mdio_phy_id_c45 linux_uapi 3 7))
      (map (\<lambda>r. ucast (word_of_nat r :: u16)) [0 ..< 16]) 0 =
      (0, [Mmd_Ctrl1 0, Mmd_Stat1 1, Mmd_Devid 2 3, Mmd_Devs 6 5, Mmd_Pkgid 14 15])"
    by code_simp
  with mmd_status_reports [OF byte_ready [of 4000 c45_bus], where p = 3 and d = 7 and U = linux_uapi
      and val = "\<lambda>r. r" and s = "mem_sys (\<lambda>d r. r)"] linux_uapi_ok bus
  show ?thesis by auto
qed


definition ids_bus :: "mem bus_api" where
  "ids_bus = ex_bus\<lparr>mdiobus_read := (\<lambda>d r w. (uint (w d r), w)), mdio_phy_id_is_c45 := \<lambda>_. False\<rparr>"

definition ids_mem :: mem where
  "ids_mem d r = (if d = 3 then r else 0xffff)"


text \<open>
  C33. When the values of a reply leave less than 16 bytes in the last message, the transfer fails
  although the program succeeded and the callback has got, and printed, all values: the end mark
  is sent behind a message without attributes.
\<close>

theorem full_reply_fails:
  assumes "module_ready M b"
    and "runs_to (k_bus (ms_kernel M)) p (sys_bus s) (Inr y, w', o')" and "length p \<le> 512"
    and "cb o' 0 = (0, str)"
    and "4 * length o' + 24 \<le> ms_size M" and "ms_size M < 4 * length o' + 40"
  shows "\<exists>n. \<forall>m \<ge> n. mdio_xfer (module_link M s m) b p cb = (MNL_CB_ERROR, str)"
proof -
  obtain V n res where V: "decode_prog p = Some V"
      "vm_run (k_bus (ms_kernel M)) V n 0 (init_mst (sys_bus s)) = Some res" "spec_result (Inr y, w', o') res"
    using assms(2) unfolding runs_to_def by blast
  have res: "outcome_status res = 0" "out (outcome_state res) = o'"
    using V(3) by (auto simp: spec_result_def)
  have "length o' \<le> (ms_size M - 24) div 4"
    using assms(1,5) by (simp add: less_eq_div_iff_mult_less_eq module_ready_def)
  then have views: "reply_views (ms_size M) o' 0 =
      [flushed o', \<lparr>v_data = [], v_error = None, v_ended = False, v_done = True\<rparr>]"
    using assms(6) by (simp add: reply_views_def chunks_one closing_def)
  have "mdio_xfer (module_link M s m) b p cb = (MNL_CB_ERROR, str)" if "n \<le> m" for m
    using module_link_replies [OF assms(1) _ V(1,2) that assms(3), of 1000] assms(3,4)
    by (simp add: res views mdio_xfer_def mdio_xfer_timeout_def XFER_BUF_LEN_def view_reply_def
        flushed_def mdio_xfer_cb_def MNL_CB_OK_def MNL_CB_ERROR_def)
  then show ?thesis by blast
qed

text \<open>Three values on a netlink whose messages have room for six values, but not for the end mark too.\<close>

definition three_values :: mdio_prog where
  "three_values = [INSN OP_EMIT (IMM 7) 0 0, INSN OP_EMIT (IMM 7) 0 0, INSN OP_EMIT (IMM 7) 0 0]"

lemma three_values_run: "runs_to ex_bus three_values w (Inr () :: int + unit, w, [7, 7, 7])"
proof -
  have "vm_run ex_bus [VEMIT (Imm 7), VEMIT (Imm 7), VEMIT (Imm 7)] 4 0 (init_mst w) =
      Some (Done \<lparr>regs = \<lambda>_. 0, bus = w, out = [7, 7, 7]\<rparr>)"
    by (simp add: init_mst_def run_simps)
  moreover have "decode_prog three_values = Some [VEMIT (Imm 7), VEMIT (Imm 7), VEMIT (Imm 7)]"
    by (simp add: three_values_def insn_simps)
  ultimately show ?thesis by (fastforce simp: runs_to_def spec_result_def)
qed

theorem full_reply_fails_witness:
  "\<exists>n. mdio_xfer (module_link (byte_setup 48 ex_bus) (mem_sys (\<lambda>d r. 0)) n) ''fixed-0'' three_values
     (\<lambda>data err. (0, concat (map (\<lambda>v. dec (unat v)) data))) = (MNL_CB_ERROR, ''777'')"
proof -
  have "concat (map (\<lambda>v. dec (unat v)) [7, 7, 7 :: u32]) = ''777''" by code_simp
  then show ?thesis
    using full_reply_fails [OF byte_ready [of 48 ex_bus], where p = three_values and s = "mem_sys (\<lambda>d r. 0)"
        and cb = "\<lambda>data err. (0, concat (map (\<lambda>v. dec (unat v)) data))"]
      three_values_run [of "\<lambda>d r. 0"]
    by (force simp: three_values_def)
qed

end
