(* ===== verification/Socket_Stack.thy ===== *)
theory Socket_Stack
  imports Full_Stack
begin

text \<open>
  The module at the other end of the socket of \<open>Mdio_Client\<close>: the datagrams that the client receives
  are the messages of the handler, one for each \<^verbatim>\<open>genlmsg_unicast\<close>, and the acknowledgement of
  generic netlink. With \<open>module_over_socket\<close>, what \<open>Full_Stack\<close> states of the commands holds for the
  code that sends the request and waits in \<^verbatim>\<open>mnl_socket_recvfrom\<close>.
\<close>

section \<open>Datagrams of the module\<close>

text \<open>
  A message as a datagram; \<open>enc\<close> gives its attributes as libmnl sees them. In a message whose length
  was never set there are none, and the callback of the tool stops there: it does not reach what
  is behind it, be it the end mark or not.
\<close>

definition view_gram :: "(msg_view \<Rightarrow> 'a list) \<Rightarrow> msg_view \<Rightarrow> 'a datagram" where
  "view_gram enc v = Gram (Data (enc v) # (if v_done v then [Nl_Done 0] else []))"

text \<open>
  The request has \<^verbatim>\<open>NLM_F_ACK\<close>, so that an error message with the result follows what the handler has
  sent; a request that is not admitted is answered by the error \<open>refusal\<close> alone. Nothing arrives
  while the handler has not returned.
\<close>

definition module_env ::
  "('g, 'm, 'n, 'w) module_setup \<Rightarrow> (msg_view \<Rightarrow> 'a list) \<Rightarrow> int \<Rightarrow> ('n, 'w) ksys \<Rightarrow> nat \<Rightarrow> 'a nl_env" where
  "module_env M enc refusal s fuel rq =
     \<lparr>so_open = True, so_bind = 0, so_sendto = 1,
      so_recv =
        (if \<not> module_admits M rq then [Gram [Nl_Error refusal]]
         else (case module_serve M s fuel rq of
                 Some (ret, vs) \<Rightarrow> map (view_gram enc) vs @ [Gram [Nl_Error ret]]
               | None \<Rightarrow> []))\<rparr>"

text \<open>
  libmnl reads from a message what was put into it, and its own callbacks stop at the end mark, take
  the error number 0 for an acknowledgement and fail for any other.
\<close>

definition libmnl_reads :: "'a libmnl \<Rightarrow> (msg_view \<Rightarrow> 'a list) \<Rightarrow> bool" where
  "libmnl_reads L enc \<longleftrightarrow>
     (\<forall>v. reply_of L (enc v) = Some (view_reply v)) \<and>
     (\<forall>n. ctl_cb L (Nl_Done n) = 0) \<and>
     (\<forall>e. ctl_cb L (Nl_Error e) = (if e = 0 then 0 else - 1))"

section \<open>The answer on the socket\<close>

text \<open>The end mark of the last message ends the reception before the acknowledgement arrives.\<close>

lemma replies_views:
  assumes "libmnl_reads L enc" and "\<forall>v \<in> set vs. \<not> v_done v" and "v_done v"
  shows "replies L (map (view_gram enc) (vs @ [v]) @ gs) = Some (map view_reply (vs @ [v]), 0)"
  using assms(2)
proof (induction vs)
  case Nil
  then show ?case using assms(1,3) by (simp add: view_gram_def libmnl_reads_def)
next
  case (Cons u us)
  then show ?case using assms(1) by (simp add: view_gram_def libmnl_reads_def)
qed

lemma reply_views_done:
  "\<exists>vs v. reply_views cap vals err = vs @ [v] \<and> (\<forall>u \<in> set vs. \<not> v_done u) \<and> v_done v"
proof -
  have closing: "\<exists>vs v. closing left cur err = vs @ [v] \<and> (\<forall>u \<in> set vs. \<not> v_done u) \<and> v_done v"
    for left cur
    unfolding closing_def
    by (cases "err = 0"; cases "16 \<le> left"; cases "24 \<le> left"; cases "8 \<le> left")
       (force simp: flushed_def intro: exI [of _ "[]"] exI [of _ "[x]" for x])+
  obtain full cur where fc: "chunks ((cap - 24) div 4) vals = (full, cur)" by fastforce
  obtain vs v where "closing (cap - 24 - 4 * length cur) cur err = vs @ [v]"
      "\<forall>u \<in> set vs. \<not> v_done u" "v_done v"
    using closing by blast
  then show ?thesis
    by (intro exI [of _ "map flushed full @ vs"] exI [of _ v])
       (auto simp: reply_views_def fc flushed_def)
qed

text \<open>A program that a request may carry and that ends within the fuel.\<close>

definition served :: "('w bus_api) \<Rightarrow> 'w \<Rightarrow> nat \<Rightarrow> mdio_prog \<Rightarrow> bool" where
  "served B w fuel p \<longleftrightarrow>
     (\<exists>V res. decode_prog p = Some V \<and> vm_run B V fuel 0 (init_mst w) = Some res)"

lemma module_socket_answer:
  assumes ready: "module_ready M bus_id" and L: "libmnl_reads L enc" and "refusal \<noteq> 0"
    and "512 < length p \<or> 10000 < unat t \<or> decode_prog p = None \<or>
         served (k_bus (ms_kernel M)) (sys_bus s) fuel p"
  shows "socket_answer L (module_env M enc refusal s fuel (xfer_request (ms_family M) bus_id p t)) =
           Some (module_link M s fuel bus_id p t)"
proof (cases "module_admits M (xfer_request (ms_family M) bus_id p t)")
  case False
  then show ?thesis
    using L assms(3)
    by (simp add: module_env_def module_link_def socket_answer_def msg_send_def libmnl_reads_def)
next
  case True
  then have fits: "unat t \<le> 10000" "length p \<le> 512" "decode_prog p \<noteq> None"
    using ready by (simp_all add: module_admits_xfer)
  then obtain V res where run: "decode_prog p = Some V"
      "vm_run (k_bus (ms_kernel M)) V fuel 0 (init_mst (sys_bus s)) = Some res"
    using assms(4) by (auto simp: served_def)
  let ?vs = "reply_views (ms_size M) (out (outcome_state res)) (outcome_status res)"
  obtain vs v where vs: "?vs = vs @ [v]" "\<forall>u \<in> set vs. \<not> v_done u" "v_done v"
    using reply_views_done by blast
  show ?thesis
    using True replies_views [OF L vs(2,3), of "[Gram [Nl_Error 0]]"]
      module_serve_views [OF ready run order_refl fits(2)] module_link_replies [OF ready fits(1) run order_refl fits(2)]
    by (simp add: module_env_def socket_answer_def msg_send_def vs(1))
qed

section \<open>Property\<close>


text \<open>The attributes of a message for the libmnl of \<open>Mdio_Client\<close>: data first, then the error.\<close>

definition y_attrs :: "msg_view \<Rightarrow> (nat \<times> u32 list) list" where
  "y_attrs v =
     (if v_ended v
      then (MDIO_NLA_DATA, v_data v) #
           (case v_error v of None \<Rightarrow> [] | Some e \<Rightarrow> [(MDIO_NLA_ERROR, [word_of_int e])])
      else [])"

lemma y_reads: "libmnl_reads y_libmnl y_attrs"
  by (auto simp: libmnl_reads_def y_libmnl_def y_attrs_def reply_of_def view_reply_def parse_msg_def
      parse_attrs_def nla_defs CB_OK_def CB_STOP_def split: option.splits)


end
