(* ===== verification/Nl_Compat.thy ===== *)
theory Nl_Compat
  imports Vm_Spec
begin

text \<open>
  \<^verbatim>\<open>kernel/compat.h\<close>: what the module brings along for kernels before 5.8 and 5.7. The Clause 45 calls
  are built on the call that has the device number and a flag in the upper half of the register
  number, and the bus is found through a search over the devices.
\<close>

section \<open>Clause 45 before 5.8\<close>

text \<open>\<^verbatim>\<open>MII_ADDR_C45\<close> and \<^verbatim>\<open>MII_DEVADDR_C45_SHIFT\<close> of \<^verbatim>\<open>linux/phy.h\<close>.\<close>

record c45_uapi =
  MII_ADDR_C45 :: u32
  MII_DEVADDR_C45_SHIFT :: nat

definition linux_c45 :: c45_uapi where
  "linux_c45 = \<lparr>MII_ADDR_C45 = push_bit 30 1, MII_DEVADDR_C45_SHIFT = 16\<rparr>"

text \<open>The two calls of such a kernel; the register number has 32 bits.\<close>

record 'w old_bus =
  old_mdiobus_read :: "u16 \<Rightarrow> u32 \<Rightarrow> 'w \<Rightarrow> int \<times> 'w"
  old_mdiobus_write :: "u16 \<Rightarrow> u32 \<Rightarrow> u16 \<Rightarrow> 'w \<Rightarrow> int \<times> 'w"

definition mdiobus_c45_addr :: "c45_uapi \<Rightarrow> u16 \<Rightarrow> u16 \<Rightarrow> u32" where
  "mdiobus_c45_addr U devad regnum =
     MII_ADDR_C45 U OR push_bit (MII_DEVADDR_C45_SHIFT U) (ucast devad) OR ucast regnum"

definition compat_c45_read ::
  "c45_uapi \<Rightarrow> 'w old_bus \<Rightarrow> u16 \<Rightarrow> u16 \<Rightarrow> u16 \<Rightarrow> 'w \<Rightarrow> int \<times> 'w" where
  "compat_c45_read U ob prtad devad regnum =
     old_mdiobus_read ob prtad (mdiobus_c45_addr U devad regnum)"

definition compat_c45_write ::
  "c45_uapi \<Rightarrow> 'w old_bus \<Rightarrow> u16 \<Rightarrow> u16 \<Rightarrow> u16 \<Rightarrow> u16 \<Rightarrow> 'w \<Rightarrow> int \<times> 'w" where
  "compat_c45_write U ob prtad devad regnum val =
     old_mdiobus_write ob prtad (mdiobus_c45_addr U devad regnum) val"

text \<open>
  The bus that the module sees on such a kernel. A Clause 22 register number is widened by the
  call; the fields of a device address are those of \<^verbatim>\<open>linux/mdio.h\<close>.
\<close>

definition compat_bus :: "c45_uapi \<Rightarrow> 'w old_bus \<Rightarrow> (u16 \<Rightarrow> bool) \<Rightarrow> (u16 \<Rightarrow> u16) \<Rightarrow> (u16 \<Rightarrow> u16) \<Rightarrow> 'w bus_api" where
  "compat_bus U ob is_c45 prtad devad =
     \<lparr>mdio_phy_id_is_c45 = is_c45, mdio_phy_id_prtad = prtad, mdio_phy_id_devad = devad,
      mdiobus_read = (\<lambda>dev reg. old_mdiobus_read ob dev (ucast reg)),
      mdiobus_write = (\<lambda>dev reg. old_mdiobus_write ob dev (ucast reg)),
      mdiobus_c45_read = compat_c45_read U ob, mdiobus_c45_write = compat_c45_write U ob\<rparr>"

text \<open>What a driver of an old bus has to take apart: the flag, the device and the register.\<close>

lemma c45_addr_fields:
  assumes "devad \<le> 31"
  shows "bit (mdiobus_c45_addr linux_c45 devad regnum) 30"
    and "ucast (drop_bit 16 (mdiobus_c45_addr linux_c45 devad regnum)) AND 31 = devad"
    and "ucast (mdiobus_c45_addr linux_c45 devad regnum) = regnum"
    and "\<not> bit (ucast regnum :: u32) 30"
proof -
  have d: "devad = take_bit 5 devad"
    using assms by (simp add: word_unat_eq_iff unsigned_take_bit_eq take_bit_nat_eq_self word_le_nat_alt)
  have d5: "\<not> bit devad n" if "5 \<le> n" for n
    using that by (subst d) (simp add: bit_take_bit_iff)
  have m31: "bit (31 :: int) n \<longleftrightarrow> n < 5" "bit (16384 :: int) n \<longleftrightarrow> n = 14"
      "bit (0x40000000 :: int) n \<longleftrightarrow> n = 30" for n
    using bit_mask_iff [of 5 n, where ?'a = int] bit_exp_iff [of 14 n, where ?'a = int]
      bit_exp_iff [of 30 n, where ?'a = int]
    by (auto simp: mask_eq_exp_minus_1)
  show "bit (mdiobus_c45_addr linux_c45 devad regnum) 30"
    by (simp add: mdiobus_c45_addr_def linux_c45_def bit_simps)
  show "ucast (drop_bit 16 (mdiobus_c45_addr linux_c45 devad regnum)) AND 31 = devad"
  proof (rule bit_word_eqI)
    fix n assume "n < LENGTH(16)"
    then show "bit (ucast (drop_bit 16 (mdiobus_c45_addr linux_c45 devad regnum)) AND 31 :: u16) n \<longleftrightarrow>
        bit devad n"
      using d5 [of n]
      by (cases "n < 5") (auto simp: m31 mdiobus_c45_addr_def linux_c45_def bit_simps dest: bit_imp_le_length)
  qed
  show "ucast (mdiobus_c45_addr linux_c45 devad regnum) = regnum"
    by (rule bit_word_eqI) (auto simp: m31 mdiobus_c45_addr_def linux_c45_def bit_simps)
  show "\<not> bit (ucast regnum :: u32) 30"
    by (simp add: bit_simps) (use bit_imp_le_length [of regnum 30] in auto)
qed

text \<open>
  With a driver that takes the register number apart in this way, both kinds of access reach the
  register that they name.
\<close>

lemma compat_bus_accesses:
  assumes "\<And>p a w. old_mdiobus_read ob p a w =
      (if bit a 30 then c45 p (ucast (drop_bit 16 a) AND 31) (ucast a) w else c22 p (ucast a) w)"
    and "devad \<le> 31"
  shows "mdiobus_c45_read (compat_bus linux_c45 ob f g h) p devad reg w = c45 p devad reg w"
    and "mdiobus_read (compat_bus linux_c45 ob f g h) p reg w = c22 p reg w"
proof -
  have "(ucast (ucast reg :: u32) :: u16) = reg"
    by (rule bit_word_eqI) (auto simp: bit_simps)
  then show "mdiobus_read (compat_bus linux_c45 ob f g h) p reg w = c22 p reg w"
    by (simp add: compat_bus_def assms(1) c45_addr_fields(4) [OF assms(2)])
qed (simp add: compat_bus_def compat_c45_read_def assms(1) c45_addr_fields [OF assms(2)])

section \<open>Finding a bus before 5.7\<close>

text \<open>
  Devices have a parent and a name; \<open>same_name\<close> is the comparison of \<^verbatim>\<open>sysfs_streq\<close> or, from 5.4 on,
  \<^verbatim>\<open>device_match_name\<close>, and \<open>find_device\<close> is \<^verbatim>\<open>bus_find_device\<close> on the MDIO bus without its reference.
\<close>

record 'd device_tree =
  dev_parent :: "'d \<Rightarrow> 'd option"
  same_name :: "'d \<Rightarrow> string \<Rightarrow> bool"
  find_device :: "('d \<Rightarrow> bool) \<Rightarrow> 'd option"

definition mdio_find_bus_match :: "'d device_tree \<Rightarrow> string \<Rightarrow> 'd \<Rightarrow> bool" where
  "mdio_find_bus_match T name d =
     (case dev_parent T d of None \<Rightarrow> False | Some p \<Rightarrow> same_name T p name)"

text \<open>Reference counts of the devices.\<close>

definition ref_get :: "'d \<Rightarrow> ('d \<Rightarrow> int) \<Rightarrow> 'd \<Rightarrow> int" where
  "ref_get d refs = refs(d := refs d + 1)"

definition ref_put :: "'d \<Rightarrow> ('d \<Rightarrow> int) \<Rightarrow> 'd \<Rightarrow> int" where
  "ref_put d refs = refs(d := refs d - 1)"

definition bus_find_device ::
  "'d device_tree \<Rightarrow> ('d \<Rightarrow> bool) \<Rightarrow> ('d \<Rightarrow> int) \<Rightarrow> 'd option \<times> ('d \<Rightarrow> int)" where
  "bus_find_device T P refs =
     (case find_device T P of None \<Rightarrow> (None, refs) | Some d \<Rightarrow> (Some d, ref_get d refs))"

definition compat_find_bus ::
  "'d device_tree \<Rightarrow> string \<Rightarrow> ('d \<Rightarrow> int) \<Rightarrow> 'd option \<times> ('d \<Rightarrow> int)" where
  "compat_find_bus T mdio_name refs =
     (case bus_find_device T (mdio_find_bus_match T mdio_name) refs of
        (None, refs) \<Rightarrow> (None, refs)
      | (Some d, refs) \<Rightarrow>
          (let (p, refs) =
             (case dev_parent T d of Some p \<Rightarrow> (Some p, ref_get p refs) | None \<Rightarrow> (None, refs)) in
           (p, ref_put d refs)))"

text \<open>The contract of \<^verbatim>\<open>bus_find_device\<close>: a device of the bus that matches, if there is one.\<close>

definition find_documented :: "'d device_tree \<Rightarrow> 'd set \<Rightarrow> bool" where
  "find_documented T mdio_devs \<longleftrightarrow>
     (\<forall>P. case find_device T P of
            None \<Rightarrow> \<forall>d \<in> mdio_devs. \<not> P d | Some d \<Rightarrow> d \<in> mdio_devs \<and> P d)"

text \<open>
  C11. The search for a bus on kernels before 5.7 gives a bus with the name, the parent of a device on
  the MDIO bus, exactly when there is one, and holds one reference, on this bus; the reference that
  the search took on the device is given back.
\<close>

theorem compat_find_bus_balanced:
  assumes "find_documented T mdio_devs" and "compat_find_bus T name refs = (r, refs')"
  shows "case r of
           None \<Rightarrow> refs' = refs \<and> (\<forall>d \<in> mdio_devs. \<forall>p. dev_parent T d = Some p \<longrightarrow> \<not> same_name T p name)
         | Some p \<Rightarrow> refs' = refs(p := refs p + 1) \<and> same_name T p name \<and>
             (\<exists>d \<in> mdio_devs. dev_parent T d = Some p)"
proof (cases "find_device T (mdio_find_bus_match T name)")
  case None
  then have "\<forall>d \<in> mdio_devs. \<not> mdio_find_bus_match T name d"
    using assms(1) unfolding find_documented_def by (metis option.simps(4))
  moreover have "r = None" "refs' = refs"
    using None assms(2) by (simp_all add: compat_find_bus_def bus_find_device_def)
  ultimately show ?thesis by (fastforce simp: mdio_find_bus_match_def split: option.splits)
next
  case (Some d)
  then have d: "d \<in> mdio_devs" "mdio_find_bus_match T name d"
    using assms(1) unfolding find_documented_def by (metis option.simps(5))+
  then obtain p where p: "dev_parent T d = Some p" "same_name T p name"
    by (auto simp: mdio_find_bus_match_def split: option.splits)
  have "r = Some p" "refs' = ref_put d (ref_get p (ref_get d refs))"
    using assms(2) Some p(1) by (simp_all add: compat_find_bus_def bus_find_device_def)
  moreover have "ref_put d (ref_get p (ref_get d refs)) = refs(p := refs p + 1)"
    by (simp add: ref_put_def ref_get_def fun_eq_iff)
  ultimately show ?thesis using d(1) p by auto
qed

text \<open>Two buses 0 and 1 with a PHY each, 10 and 11.\<close>

definition ex_tree :: "nat device_tree" where
  "ex_tree =
     \<lparr>dev_parent = (\<lambda>d. if d = 10 then Some 0 else if d = 11 then Some 1 else None),
      same_name = (\<lambda>d s. s = (if d = 0 then ''fixed-0'' else ''gpio-0'')),
      find_device = (\<lambda>P. List.find P [10, 11])\<rparr>"

theorem compat_find_bus_balanced_witness:
  "compat_find_bus ex_tree ''gpio-0'' (\<lambda>_. 1) = (Some 1, (\<lambda>_. 1)(1 := 2))"
proof -
  have "find_documented ex_tree {10, 11}"
    by (auto simp: find_documented_def ex_tree_def split: option.split)
  moreover obtain r refs' where r: "compat_find_bus ex_tree ''gpio-0'' (\<lambda>_. 1) = (r, refs')" by fastforce
  ultimately have "case r of
      None \<Rightarrow> refs' = (\<lambda>_. 1) \<and>
        (\<forall>d \<in> {10, 11}. \<forall>p. dev_parent ex_tree d = Some p \<longrightarrow> \<not> same_name ex_tree p ''gpio-0'')
    | Some p \<Rightarrow> refs' = (\<lambda>_. 1)(p := 1 + 1) \<and> same_name ex_tree p ''gpio-0'' \<and>
        (\<exists>d \<in> {10, 11}. dev_parent ex_tree d = Some p)"
    by (rule compat_find_bus_balanced)
  then show ?thesis
    unfolding r by (auto simp: ex_tree_def split: option.splits)
qed

end
