(* ===== verification/Nl_Socket.thy ===== *)
theory Nl_Socket
  imports Mdio_Client
begin

text \<open>
  Netlink sockets with what the other theories leave out: datagrams that wait in the socket, the
  sequence number and port of every message, and the checks of \<^verbatim>\<open>mnl_cb_run\<close> on them. \<^verbatim>\<open>mdio.c\<close>
  opens a socket for each request, so that nothing can be left in it from an earlier one;
  \<^verbatim>\<open>src/mvls/devlink.c\<close> keeps one socket for all of them, and its sequence number is the time in
  seconds. \<open>Mvls_Devlink\<close>, where a request is answered by its own messages, is right for as long as
  every answer is read to its end.
\<close>

section \<open>Datagrams in a socket\<close>

text \<open>
  A message with the parts of its header that are checked. What a call of \<^verbatim>\<open>mnl_socket_recvfrom\<close>
  returns is a datagram or a result that is not positive.
\<close>

record 'a nlmsghdr =
  nh_seq :: u32
  nh_portid :: u32
  nh_dump_intr :: bool
  nh_body :: "'a nlmsg"

datatype 'a packet = Packet "'a nlmsghdr list" | Recv_Err int

text \<open>
  The documented behaviour of libmnl's \<^verbatim>\<open>mnl_cb_run2\<close>: a message from another port, with another
  sequence number or from an interrupted dump ends it with -1; a number or port 0 matches any.
\<close>

definition nlmsg_mine :: "u32 \<Rightarrow> u32 \<Rightarrow> 'a nlmsghdr \<Rightarrow> bool" where
  "nlmsg_mine seq portid h \<longleftrightarrow>
     (nh_portid h = 0 \<or> portid = 0 \<or> nh_portid h = portid) \<and>
     (nh_seq h = 0 \<or> seq = 0 \<or> nh_seq h = seq) \<and> \<not> nh_dump_intr h"

fun mnl_cb_run2 ::
  "('a nlmsg \<Rightarrow> 'd \<Rightarrow> (int \<times> 'd) option) \<Rightarrow> u32 \<Rightarrow> u32 \<Rightarrow> 'a nlmsghdr list \<Rightarrow> 'd \<Rightarrow> (int \<times> 'd) option"
  where
  "mnl_cb_run2 disp seq portid [] d = Some (CB_OK, d)"
| "mnl_cb_run2 disp seq portid (h # hs) d =
     (if \<not> nlmsg_mine seq portid h then Some (CB_ERROR, d)
      else do {
        (ret, d) \<leftarrow> disp (nh_body h) d;
        if ret \<le> CB_STOP then Some (ret, d) else mnl_cb_run2 disp seq portid hs d
      })"

text \<open>
  The receive loop, \<^verbatim>\<open>msg_recv\<close> of \<^verbatim>\<open>mdio.c\<close> and \<^verbatim>\<open>__recv_run\<close> of \<^verbatim>\<open>devlink.c\<close>. What it has not read
  stays in the socket; the rest of a datagram whose reading has ended is lost.
\<close>

fun recv_packets ::
  "('a nlmsg \<Rightarrow> 'd \<Rightarrow> (int \<times> 'd) option) \<Rightarrow> u32 \<Rightarrow> u32 \<Rightarrow> 'a packet list \<Rightarrow> 'd \<Rightarrow>
   (int \<times> 'd \<times> 'a packet list) option"
  where
  "recv_packets disp seq portid [] d = None"
| "recv_packets disp seq portid (Recv_Err ret # ps) d = Some (ret, d, ps)"
| "recv_packets disp seq portid (Packet hs # ps) d = do {
     (ret, d) \<leftarrow> mnl_cb_run2 disp seq portid hs d;
     if 0 < ret then recv_packets disp seq portid ps d else Some (ret, d, ps)
   }"

section \<open>The socket of devlink\<close>

text \<open>
  The parts of \<^verbatim>\<open>struct devlink\<close> that change, the datagrams that wait, and the kernel. \<open>now\<close> is
  \<^verbatim>\<open>time(NULL)\<close>; the kernel gets the sequence number of a request and the port it comes from.
\<close>

record ('k, 'a) dl_sock =
  ds_seq :: u32
  ds_portid :: u32
  ds_queue :: "'a packet list"
  ds_kernel :: 'k

type_synonym ('k, 'a) seq_kernel = "request \<Rightarrow> u32 \<Rightarrow> u32 \<Rightarrow> 'k \<Rightarrow> int \<times> 'a packet list \<times> 'k"

definition sock_prepare :: "('k \<Rightarrow> u32) \<Rightarrow> ('k, 'a) dl_sock \<Rightarrow> ('k, 'a) dl_sock" where
  "sock_prepare now s = s\<lparr>ds_seq := now (ds_kernel s)\<rparr>"

definition sock_query ::
  "('k, 'a) seq_kernel \<Rightarrow> request \<Rightarrow> ('a, 'd) mnl_cb option \<Rightarrow> 'd \<Rightarrow> ('k, 'a) dl_sock \<Rightarrow>
   (int \<times> 'd \<times> ('k, 'a) dl_sock) option" where
  "sock_query K rq cb d s =
     (case K rq (ds_seq s) (ds_portid s) (ds_kernel s) of (sent, ps, k) \<Rightarrow>
        if sent < 0 then Some (sent, d, s\<lparr>ds_kernel := k\<rparr>)
        else do {
          (err, d, q) \<leftarrow> recv_packets (cb_dispatch cb) (ds_seq s) (ds_portid s) (ds_queue s @ ps) d;
          Some (err, d, s\<lparr>ds_kernel := k, ds_queue := q\<rparr>)
        })"

definition sock_port_region_get ::
  "('k, 'a) seq_kernel \<Rightarrow> ('k \<Rightarrow> u32) \<Rightarrow> devlink \<Rightarrow> devlink_addr \<Rightarrow> int \<Rightarrow> string \<Rightarrow>
   ('a, 'd) mnl_cb \<Rightarrow> 'd \<Rightarrow> ('k, 'a) dl_sock \<Rightarrow> (int \<times> 'd \<times> ('k, 'a) dl_sock) option" where
  "sock_port_region_get K now dl addr port name cb d s = do {
     (err, _, s) \<leftarrow> sock_query K
       (region_msg_prepare dl addr port name DEVLINK_CMD_REGION_NEW [NLM_F_REQUEST, NLM_F_ACK])
       None () (sock_prepare now s);
     if err \<noteq> 0 then Some (err, d, s)
     else do {
       (err, d, s) \<leftarrow> sock_query K
         (region_msg_prepare dl addr port name DEVLINK_CMD_REGION_READ
            [NLM_F_REQUEST, NLM_F_ACK, NLM_F_DUMP]) (Some cb) d (sock_prepare now s);
       (_, d, s) \<leftarrow> sock_query K
         (region_msg_prepare dl addr port name DEVLINK_CMD_REGION_DEL [NLM_F_REQUEST, NLM_F_ACK])
         (Some cb) d (sock_prepare now s);
       Some (err, d, s)
     }
   }"

text \<open>
  \<^verbatim>\<open>devlink_open\<close>: the result, the family number, whether buffer and socket are still held, and the
  socket, which is empty at first. \<open>portid\<close> is the port that the kernel assigns.
\<close>

definition sock_open ::
  "genl_uapi \<Rightarrow> 'a mnl \<Rightarrow> ('k, 'a) seq_kernel \<Rightarrow> ('k \<Rightarrow> u32) \<Rightarrow> nl_socket \<Rightarrow> u32 \<Rightarrow> u32 \<Rightarrow> 'k \<Rightarrow>
   (int \<times> u32 \<times> bool \<times> bool \<times> ('k, 'a) dl_sock) option" where
  "sock_open G M K now sk portid fam k =
     (let s = \<lparr>ds_seq = 0, ds_portid = portid, ds_queue = [], ds_kernel = k\<rparr> in
      if \<not> sk_malloc sk then Some (ENOMEM, fam, False, False, s)
      else if \<not> sk_open sk then Some (EIO, fam, False, False, s)
      else if sk_bind sk < 0 then Some (sk_bind sk, fam, False, False, s)
      else do {
        (err, fam, s) \<leftarrow> sock_query K
          (attr_put (msg_prepare (CTRL_CMD_GETFAMILY G) [NLM_F_REQUEST, NLM_F_ACK] (GENL_ID_CTRL G) 1)
             (CTRL_ATTR_FAMILY_NAME G) (Str DEVLINK_GENL_NAME))
          (Some (get_family_id_cb G M)) fam (sock_prepare now s);
        if err < 0 then Some (err, fam, False, False, s) else Some (0, fam, True, True, s)
      })"

section \<open>The socket of a transfer\<close>

text \<open>
  \<^verbatim>\<open>msg_query\<close> of \<^verbatim>\<open>mdio.c\<close> with its sequence number, also the time: the request is answered on a
  socket of its own, and what is left in it goes when the socket is closed.
\<close>

record 'a socket_calls =
  sc_open :: bool
  sc_bind :: int
  sc_sendto :: int
  sc_portid :: u32
  sc_recv :: "'a packet list"

definition seq_msg_query ::
  "'a libmnl \<Rightarrow> (client_request \<Rightarrow> u32 \<Rightarrow> 'a socket_calls) \<Rightarrow> client_request \<Rightarrow> u32 \<Rightarrow>
   ('a, 'd) mnl_cb \<Rightarrow> 'd \<Rightarrow> (int \<times> 'd) option" where
  "seq_msg_query L env rq now cb d =
     (let seq = now; s = env rq seq in
      if \<not> sc_open s \<or> sc_bind s < 0 \<or> sc_sendto s < 0 then Some (- ENOTSUP, d)
      else do {
        (ret, d, _) \<leftarrow> recv_packets (\<lambda>m d. case m of Data attrs \<Rightarrow> cb attrs d | _ \<Rightarrow> Some (ctl_cb L m, d))
          seq (sc_portid s) (sc_recv s) d;
        Some (ret, d)
      })"

section \<open>Answers that are read to their end\<close>

definition stamped :: "u32 \<Rightarrow> u32 \<Rightarrow> 'a packet \<Rightarrow> bool" where
  "stamped seq portid p \<longleftrightarrow> (case p of Packet hs \<Rightarrow> list_all (nlmsg_mine seq portid) hs | Recv_Err _ \<Rightarrow> True)"

fun packet_events :: "'a packet \<Rightarrow> 'a event list" where
  "packet_events (Packet hs) = map (\<lambda>h. Msg (nh_body h)) hs"
| "packet_events (Recv_Err ret) = [Recv_End ret]"

definition ending :: "'a packet \<Rightarrow> bool" where
  "ending p \<longleftrightarrow> list_ex final_event (packet_events p)"

text \<open>The datagrams of an answer; the last one, and only the last one, ends the reception.\<close>

definition answer_complete :: "'a packet list \<Rightarrow> bool" where
  "answer_complete ps \<longleftrightarrow> (\<exists>init p. ps = init @ [p] \<and> ending p \<and> \<not> list_ex ending init)"

definition no_data :: "'a event list \<Rightarrow> bool" where
  "no_data evs \<longleftrightarrow> (\<forall>msg. Msg (Data msg) \<notin> set evs)"

text \<open>
  A kernel with sequence numbers that gives the answers of the kernel \<open>A\<close> of \<open>Mvls_Devlink\<close>: stamped
  with the number and port of the request, complete, and without data for the deletion of a
  snapshot.
\<close>

definition answers_as :: "('k, 'a) seq_kernel \<Rightarrow> ('k, 'a) dl_kernel \<Rightarrow> bool" where
  "answers_as K A \<longleftrightarrow>
     (\<forall>rq seq portid k. case K rq seq portid k of (sent, ps, k') \<Rightarrow>
        A rq k = (sent, concat (map packet_events ps), k') \<and>
        (0 \<le> sent \<longrightarrow> answer_complete ps \<and> list_all (stamped seq portid) ps \<and>
           (rq_cmd rq = DEVLINK_CMD_REGION_DEL \<longrightarrow> no_data (concat (map packet_events ps)))))"

text \<open>On messages of its own request, the receive loop is that of \<open>Mvls_Devlink\<close>.\<close>

lemma cb_run2_events:
  assumes "list_all (nlmsg_mine seq portid) hs"
  shows "recv_run cb (map (\<lambda>h. Msg (nh_body h)) hs @ evs) d = do {
           (ret, d) \<leftarrow> mnl_cb_run2 (cb_dispatch cb) seq portid hs d;
           if 0 < ret then recv_run cb evs d else Some (ret, d)
         }"
  using assms
  by (induction hs arbitrary: d)
     (auto simp: cb_defs not_less split: Option.bind_splits intro!: Option.bind_cong)

lemma recv_packets_events:
  assumes "list_all (stamped seq portid) ps"
  shows "recv_run cb (concat (map packet_events ps)) d =
           map_option (\<lambda>(ret, d, _). (ret, d)) (recv_packets (cb_dispatch cb) seq portid ps d)"
  using assms
proof (induction ps arbitrary: d)
  case (Cons p ps)
  then show ?case
    by (cases p) (auto simp: stamped_def cb_run2_events split: Option.bind_splits)
qed simp

text \<open>
  So is that of \<open>Mdio_Client\<close>, where headers are left out: the module answers with the number and the
  port of the request (\<^verbatim>\<open>genlmsg_put\<close> with \<^verbatim>\<open>snd_portid\<close> and \<^verbatim>\<open>snd_seq\<close>).
\<close>

fun packet_gram :: "'a packet \<Rightarrow> 'a datagram" where
  "packet_gram (Packet hs) = Gram (map nh_body hs)"
| "packet_gram (Recv_Err ret) = Recv_Fail ret"

definition plain_calls :: "'a socket_calls \<Rightarrow> 'a sock_calls" where
  "plain_calls s =
     \<lparr>so_open = sc_open s, so_bind = sc_bind s, so_sendto = sc_sendto s, so_recv = map packet_gram (sc_recv s)\<rparr>"

lemma cb_run2_plain:
  assumes "list_all (nlmsg_mine seq portid) hs"
  shows "mnl_cb_run2 (\<lambda>m d. case m of Data attrs \<Rightarrow> cb attrs d | _ \<Rightarrow> Some (ctl_cb L m, d)) seq portid hs d =
           mnl_cb_run L cb (map nh_body hs) d"
  using assms
  by (induction hs arbitrary: d) (auto simp: cb_defs split: nlmsg.splits intro!: Option.bind_cong)

lemma recv_packets_plain:
  assumes "list_all (stamped seq portid) ps"
  shows "map_option (\<lambda>(ret, d, _). (ret, d))
           (recv_packets (\<lambda>m d. case m of Data attrs \<Rightarrow> cb attrs d | _ \<Rightarrow> Some (ctl_cb L m, d)) seq portid ps d) =
         recv_loop L cb (map packet_gram ps) d"
  using assms
proof (induction ps arbitrary: d)
  case (Cons p ps)
  then show ?case
    by (cases p) (auto simp: stamped_def cb_run2_plain split: Option.bind_splits)
qed simp

lemma seq_msg_query_plain:
  assumes "list_all (stamped now (sc_portid (env rq now))) (sc_recv (env rq now))"
  shows "seq_msg_query L env rq now cb d = msg_query L (\<lambda>rq. plain_calls (env rq now)) rq cb d"
  using recv_packets_plain [OF assms, of cb L d]
  by (auto simp: seq_msg_query_def msg_query_def msg_send_def plain_calls_def Let_def
      split: Option.bind_splits)

text \<open>
  A callback that never gives the result \<open>ret\<close> for the data in \<open>evs\<close>; then the message on which the
  reception ended with \<open>ret\<close> was not one of them, and the answer has been read to its end.
\<close>

definition never_returns :: "('a, 'd) mnl_cb option \<Rightarrow> int \<Rightarrow> 'a event list \<Rightarrow> bool" where
  "never_returns cb ret evs \<longleftrightarrow>
     (\<forall>msg f d d'. Msg (Data msg) \<in> set evs \<longrightarrow> cb = Some f \<longrightarrow> f msg d \<noteq> Some (ret, d'))"

lemma cb_run2_ending:
  assumes "mnl_cb_run2 (cb_dispatch cb) seq portid hs d = Some (ret, d')" and "ret \<le> 0"
    and "list_all (nlmsg_mine seq portid) hs" and "never_returns cb ret (packet_events (Packet hs))"
  shows "ending (Packet hs)"
  using assms
proof (induction hs arbitrary: d)
  case (Cons h hs)
  show ?case
  proof (cases "final_event (Msg (nh_body h))")
    case False
    obtain r d1 where r: "cb_dispatch cb (nh_body h) d = Some (r, d1)"
      using Cons.prems(1,3) by (auto split: Option.bind_splits)
    have "r \<noteq> ret"
      using Cons.prems(2,4) False r
      by (auto simp: never_returns_def cb_dispatch_def cb_noop_def cb_defs split: nlmsg.splits option.splits)
    then show ?thesis
      using Cons.IH [of d1] Cons.prems r
      by (auto simp: ending_def never_returns_def cb_defs split: if_splits)
  qed (simp add: ending_def)
qed (simp add: cb_defs)

lemma recv_clean:
  assumes "recv_packets (cb_dispatch cb) seq portid ps d = Some (ret, d', q)"
    and "answer_complete ps" and "list_all (stamped seq portid) ps"
    and "ret \<le> 0 \<Longrightarrow> never_returns cb ret (concat (map packet_events ps))"
  shows "q = []"
proof -
  obtain init p where ps: "ps = init @ [p]" "ending p" "\<not> list_ex ending init"
    using assms(2) unfolding answer_complete_def by blast
  show ?thesis
    using assms(1,3,4) ps(3) unfolding ps(1)
  proof (induction init arbitrary: d)
    case Nil
    then show ?case by (cases p) (auto split: Option.bind_splits if_splits)
  next
    case (Cons x xs)
    then obtain hs where x: "x = Packet hs" by (cases x) (auto simp: ending_def)
    obtain r d1 where r: "mnl_cb_run2 (cb_dispatch cb) seq portid hs d = Some (r, d1)"
      using Cons.prems(1) by (auto simp: x split: Option.bind_splits)
    have "0 < r"
    proof (rule ccontr)
      assume "\<not> 0 < r"
      then have "r = ret" using Cons.prems(1) r by (simp add: x)
      then have "ending (Packet hs)"
        using cb_run2_ending [OF r] Cons.prems(2,3) \<open>\<not> 0 < r\<close>
        by (auto simp: x stamped_def never_returns_def)
      then show False using Cons.prems(4) by (simp add: x)
    qed
    then show ?case
      using Cons.IH [of d1] Cons.prems r by (auto simp: x never_returns_def)
  qed
qed

lemma sock_query_clean:
  assumes K: "answers_as K A" and "ds_queue s = []"
    and A: "devlink_query A rq cb d (ds_kernel s) = Some (ret, d', k')"
    and "0 \<le> fst (A rq (ds_kernel s)) \<Longrightarrow> ret \<le> 0 \<Longrightarrow>
           never_returns cb ret (fst (snd (A rq (ds_kernel s))))"
  obtains s' where "sock_query K rq cb d s = Some (ret, d', s')" "ds_queue s' = []" "ds_kernel s' = k'"
proof -
  obtain sent ps k1 where run: "K rq (ds_seq s) (ds_portid s) (ds_kernel s) = (sent, ps, k1)"
    by (metis prod.collapse)
  then have ans: "A rq (ds_kernel s) = (sent, concat (map packet_events ps), k1)"
      "0 \<le> sent \<longrightarrow> answer_complete ps \<and> list_all (stamped (ds_seq s) (ds_portid s)) ps"
    using K unfolding answers_as_def by (smt (verit, best) case_prod_conv)+
  show thesis
  proof (cases "sent < 0")
    case True
    then show ?thesis
      using that [of "s\<lparr>ds_kernel := k1\<rparr>"] A assms(2) run by (auto simp: sock_query_def devlink_query_def ans)
  next
    case False
    then have ok: "answer_complete ps" "list_all (stamped (ds_seq s) (ds_portid s)) ps" using ans(2) by auto
    obtain q where q: "recv_packets (cb_dispatch cb) (ds_seq s) (ds_portid s) ps d = Some (ret, d', q)"
        "k1 = k'"
      using A False by (auto simp: devlink_query_def ans recv_packets_events [OF ok(2)] split: Option.bind_splits)
    moreover have "q = []"
      using recv_clean [OF q(1) ok] assms(4) False by (simp add: ans)
    ultimately show ?thesis
      using that [of "s\<lparr>ds_kernel := k1, ds_queue := []\<rparr>"] False run assms(2) by (simp add: sock_query_def)
  qed
qed

lemma del_no_data:
  assumes "answers_as K A" and "rq_cmd rq = DEVLINK_CMD_REGION_DEL" and "0 \<le> fst (A rq k)"
  shows "no_data (fst (snd (A rq k)))"
proof -
  obtain sent ps k1 where "K rq 0 0 k = (sent, ps, k1)" by (metis prod.collapse)
  then show ?thesis
    using assms unfolding answers_as_def by (smt (verit, best) case_prod_conv fst_conv snd_conv)
qed

lemma region_msg_cmd [simp]: "rq_cmd (region_msg_prepare dl addr port name cmd flags) = cmd"
  by (simp add: region_msg_prepare_def devlink_msg_prepare_def msg_prepare_def attr_put_def Let_def)

text \<open>The callback that copies a region goes on or fails; it never says stop.\<close>

lemma dup_chunks_result:
  assumes "dup_chunks M nest attr tbc region = Some r"
  shows "fst r = CB_OK \<or> fst r = CB_ERROR"
  using assms
  by (rule dup_chunks.raw_induct [rotated])
     (auto split: Option.bind_splits if_splits option.splits, blast)

lemma dup_cb_never_stops: "never_returns (Some (devlink_region_dup_cb M)) 0 evs"
  by (auto simp: never_returns_def devlink_region_dup_cb_def cb_defs
      split: Option.bind_splits if_splits option.splits dest!: dup_chunks_result)

text \<open>A socket that \<^verbatim>\<open>devlink_open\<close> has opened is in step.\<close>

lemma family_cb_never_stops: "never_returns (Some (get_family_id_cb G M)) 0 evs"
  by (auto simp: never_returns_def get_family_id_cb_def cb_defs split: Option.bind_splits option.splits)

lemma sock_open_in_step:
  assumes K: "answers_as K A" and "devlink_open G M A sk fam k = Some (0, fam', True, True, k')"
  shows "\<exists>s. sock_open G M K now sk portid fam k = Some (0, fam', True, True, s) \<and>
             ds_queue s = [] \<and> ds_kernel s = k'"
proof -
  let ?rq = "attr_put (msg_prepare (CTRL_CMD_GETFAMILY G) [NLM_F_REQUEST, NLM_F_ACK] (GENL_ID_CTRL G) 1)
       (CTRL_ATTR_FAMILY_NAME G) (Str DEVLINK_GENL_NAME)"
  let ?s = "\<lparr>ds_seq = 0, ds_portid = portid, ds_queue = [], ds_kernel = k\<rparr>"
  have sk: "sk_malloc sk" "sk_open sk" "\<not> sk_bind sk < 0"
    using assms(2) by (auto simp: devlink_open_def split: if_splits)
  then obtain err where q: "devlink_query A ?rq (Some (get_family_id_cb G M)) fam k = Some (err, fam', k')" "0 \<le> err"
    using assms(2) by (auto simp: devlink_open_def split: Option.bind_splits if_splits)
  obtain s where "sock_query K ?rq (Some (get_family_id_cb G M)) fam (sock_prepare now ?s) = Some (err, fam', s)"
      "ds_queue s = []" "ds_kernel s = k'"
    by (rule sock_query_clean [OF K, where s = "sock_prepare now ?s"])
       (use q family_cb_never_stops in \<open>auto simp: sock_prepare_def\<close>)
  then show ?thesis using sk q(2) by (simp add: sock_open_def Let_def)
qed

section \<open>Out of step\<close>

text \<open>
  The number of datagrams in the socket that end a reception. In step it is 0; a callback that fails
  before the last datagram of a dump leaves the end of that dump behind.
\<close>

definition pending :: "'a packet list \<Rightarrow> nat" where
  "pending ps = length (filter ending ps)"

definition kernel_ends :: "('k, 'a) seq_kernel \<Rightarrow> bool" where
  "kernel_ends K \<longleftrightarrow>
     (\<forall>rq seq portid k. case K rq seq portid k of (sent, ps, _) \<Rightarrow> 0 \<le> sent \<longrightarrow> list_ex ending ps)"

text \<open>What can happen to the data of the tool and the socket: a request, or anything else, time included.\<close>

inductive sock_step ::
  "('k, 'a) seq_kernel \<Rightarrow> ('k \<Rightarrow> u32) \<Rightarrow> 'd \<times> ('k, 'a) dl_sock \<Rightarrow> 'd \<times> ('k, 'a) dl_sock \<Rightarrow> bool"
  for K now where
  query: "sock_query K rq cb d (sock_prepare now s) = Some (ret, d', s') \<Longrightarrow> sock_step K now (d, s) (d', s')"
| other: "sock_step K now (d, s) (d', s\<lparr>ds_kernel := k\<rparr>)"

inductive_cases sock_stepE: "sock_step K now (d, s) (d', s')"

lemma pending_simps [simp]:
  "pending [] = 0" "pending (p # ps) = (if ending p then Suc (pending ps) else pending ps)"
  "pending (ps @ qs) = pending ps + pending qs"
  by (simp_all add: pending_def)

lemma pending_pos: "0 < pending ps \<longleftrightarrow> list_ex ending ps"
  by (induction ps) auto

lemma ending_stops:
  assumes "mnl_cb_run2 (cb_dispatch cb) seq portid hs d = Some (ret, d')" and "ending (Packet hs)"
  shows "ret \<le> 0"
  using assms
proof (induction hs arbitrary: d)
  case (Cons h hs)
  then show ?case
    by (auto simp: ending_def cb_dispatch_def cb_error_def cb_stop_def cb_defs
        split: Option.bind_splits if_splits nlmsg.splits)
qed (simp add: ending_def)

text \<open>One request reads at most one end of a reception and adds one.\<close>

lemma recv_pending:
  assumes "recv_packets (cb_dispatch cb) seq portid ps d = Some (ret, d', q)"
  shows "pending ps \<le> Suc (pending q)"
  using assms
proof (induction ps arbitrary: d)
  case (Cons p ps)
  show ?case
  proof (cases p)
    case (Packet hs)
    then show ?thesis
      using Cons by (auto split: Option.bind_splits if_splits dest: ending_stops)
  next
    case (Recv_Err r)
    then show ?thesis using Cons.prems by simp
  qed
qed simp

lemma step_pending:
  assumes "kernel_ends K" and "sock_step K now (d, s) (d', s')" and "0 < pending (ds_queue s)"
  shows "0 < pending (ds_queue s')"
  using assms(2)
proof (rule sock_stepE)
  fix rq cb ret
  assume q: "sock_query K rq cb d (sock_prepare now s) = Some (ret, d', s')"
  obtain sent ps k where K: "K rq (now (ds_kernel s)) (ds_portid s) (ds_kernel s) = (sent, ps, k)"
    by (metis prod.collapse)
  then have "0 \<le> sent \<Longrightarrow> 0 < pending ps"
    using assms(1) unfolding kernel_ends_def pending_pos by (metis (mono_tags, lifting) case_prod_conv)
  then show ?thesis
    using q assms(3) K
    by (auto simp: sock_query_def sock_prepare_def split: Option.bind_splits if_splits dest!: recv_pending)
qed (use assms(3) in simp)

lemma reach_pending:
  assumes "kernel_ends K" and "(sock_step K now)\<^sup>*\<^sup>* x y" and "0 < pending (ds_queue (snd x))"
  shows "0 < pending (ds_queue (snd y))"
  using assms(2,3)
proof (induction rule: rtranclp_induct)
  case (step y z)
  then show ?case using step_pending [OF assms(1)] by (metis prod.collapse)
qed simp

section \<open>Properties\<close>

text \<open>
  C22. As long as every answer is read to its end, the socket is in step with the kernel: when
  nothing waits in it and reading a region succeeds according to \<open>Mvls_Devlink\<close>, where each request
  has its own messages, then it does the same on the socket, in any number of datagrams and
  however often the second changes on the way, and again nothing is left waiting.
\<close>

theorem socket_region_get:
  assumes K: "answers_as K A" and "ds_queue s = []"
    and "devlink_port_region_get A dl addr port name (devlink_region_dup_cb M) region (ds_kernel s) =
         Some (0, region', k')"
  shows "\<exists>s'. sock_port_region_get K now dl addr port name (devlink_region_dup_cb M) region s =
           Some (0, region', s') \<and> ds_queue s' = [] \<and> ds_kernel s' = k'"
proof -
  let ?rq = "region_msg_prepare dl addr port name" and ?cb = "Some (devlink_region_dup_cb M)"
  let ?new = "?rq DEVLINK_CMD_REGION_NEW [NLM_F_REQUEST, NLM_F_ACK]"
  let ?rd = "?rq DEVLINK_CMD_REGION_READ [NLM_F_REQUEST, NLM_F_ACK, NLM_F_DUMP]"
  let ?del = "?rq DEVLINK_CMD_REGION_DEL [NLM_F_REQUEST, NLM_F_ACK]"
  obtain k1 r1 k2 e where
      new: "devlink_query A ?new (None :: ('b, unit) mnl_cb option) () (ds_kernel s) = Some (0, (), k1)"
    and rd: "devlink_query A ?rd ?cb region k1 = Some (0, r1, k2)"
    and del: "devlink_query A ?del ?cb r1 k2 = Some (e, region', k')"
    using assms(3) by (auto simp: devlink_port_region_get_def split: Option.bind_splits if_splits)
  obtain s1 where s1: "sock_query K ?new None () (sock_prepare now s) = Some (0, (), s1)"
      "ds_queue s1 = []" "ds_kernel s1 = k1"
    by (rule sock_query_clean [OF K, where s = "sock_prepare now s"])
       (use assms(2) new in \<open>auto simp: sock_prepare_def never_returns_def\<close>)
  obtain s2 where s2: "sock_query K ?rd ?cb region (sock_prepare now s1) = Some (0, r1, s2)"
      "ds_queue s2 = []" "ds_kernel s2 = k2"
    by (rule sock_query_clean [OF K, where s = "sock_prepare now s1"])
       (use s1(2,3) rd dup_cb_never_stops in \<open>auto simp: sock_prepare_def\<close>)
  have "never_returns ?cb e (fst (snd (A ?del k2)))" if "0 \<le> fst (A ?del k2)"
    using del_no_data [OF K, of ?del k2] that by (auto simp: never_returns_def no_data_def)
  note quiet = this
  obtain s3 where "sock_query K ?del ?cb r1 (sock_prepare now s2) = Some (e, region', s3)"
      "ds_queue s3 = []" "ds_kernel s3 = k'"
    by (rule sock_query_clean [OF K, where s = "sock_prepare now s2"])
       (use s2(2,3) del quiet in \<open>auto simp: sock_prepare_def\<close>)
  then show ?thesis using s1(1) s2(1) by (simp add: sock_port_region_get_def)
qed

text \<open>
  C23. A callback that fails before the last datagram of an answer puts the socket out of step for
  good: whatever requests follow, at any time, some end of an earlier answer is always left in the
  socket. When the first message waiting has the number of another second, reading a region fails
  with -1 on it although the kernel has taken the snapshot, and nothing asks the kernel to delete it.
\<close>

theorem unread_answer_stays:
  assumes "kernel_ends K" and "ds_queue s0 = []"
    and "K rq (now (ds_kernel s0)) (ds_portid s0) (ds_kernel s0) = (sent, Packet hs # ps, k1)" and "0 \<le> sent"
    and "mnl_cb_run2 (cb_dispatch cb) (now (ds_kernel s0)) (ds_portid s0) hs d = Some (ret, d1)"
    and "ret \<le> 0" and "list_ex ending ps"
    and "sock_query K rq cb d (sock_prepare now s0) = Some (ret', d1', s1)"
    and "(sock_step K now)\<^sup>*\<^sup>* (d1', s1) (d2, s2)"
  shows "0 < pending (ds_queue s2) \<and>
    (\<forall>h hs ps. ds_queue s2 = Packet (h # hs) # ps \<and> \<not> nlmsg_mine (now (ds_kernel s2)) (ds_portid s2) h \<longrightarrow>
       (case K (region_msg_prepare dl addr port name DEVLINK_CMD_REGION_NEW [NLM_F_REQUEST, NLM_F_ACK])
               (now (ds_kernel s2)) (ds_portid s2) (ds_kernel s2) of (sent, ps', k') \<Rightarrow>
          0 \<le> sent \<longrightarrow>
          sock_port_region_get K now dl addr port name cb' d2 s2 =
            Some (CB_ERROR, d2, s2\<lparr>ds_seq := now (ds_kernel s2), ds_kernel := k', ds_queue := ps @ ps'\<rparr>)))"
proof
  have "s1 = s0\<lparr>ds_seq := now (ds_kernel s0), ds_kernel := k1, ds_queue := ps\<rparr>"
    using assms(2-6,8) by (simp add: sock_query_def sock_prepare_def)
  then have "0 < pending (ds_queue (snd (d1', s1)))"
    using assms(7) by (simp add: pending_pos)
  from reach_pending [OF assms(1,9) this] show "0 < pending (ds_queue s2)" by simp
qed (auto simp: sock_port_region_get_def sock_query_def sock_prepare_def cb_defs split: prod.splits)

section \<open>Concrete sockets\<close>

text \<open>A kernel of \<open>Mvls_Devlink\<close> that stamps its messages and sends each in a datagram of its own.\<close>

fun stamp :: "u32 \<Rightarrow> u32 \<Rightarrow> 'a event \<Rightarrow> 'a packet" where
  "stamp seq portid (Msg m) =
     Packet [\<lparr>nh_seq = seq, nh_portid = portid, nh_dump_intr = False, nh_body = m\<rparr>]"
| "stamp seq portid (Recv_End ret) = Recv_Err ret"

definition stamping :: "('k, 'a) dl_kernel \<Rightarrow> ('k, 'a) seq_kernel" where
  "stamping A rq seq portid k = (case A rq k of (sent, evs, k) \<Rightarrow> (sent, map (stamp seq portid) evs, k))"

lemma stamp_simps [simp]:
  "packet_events (stamp seq portid e) = [e]" "ending (stamp seq portid e) = final_event e"
  "stamped seq portid (stamp seq portid e)"
  by (cases e; simp add: ending_def stamped_def nlmsg_mine_def)+

lemma stamp_events [simp]: "concat (map (packet_events \<circ> stamp seq portid) evs) = evs"
  by (induction evs) simp_all

lemma stamping_answers:
  assumes "\<And>rq k. \<exists>evs e. fst (snd (A rq k)) = evs @ [e] \<and> final_event e \<and> \<not> list_ex final_event evs"
    and "\<And>rq k. rq_cmd rq = DEVLINK_CMD_REGION_DEL \<Longrightarrow> no_data (fst (snd (A rq k)))"
  shows "answers_as (stamping A) A"
proof -
  have "answer_complete (map (stamp seq portid) evs)" if ans: "A rq k = (sent, evs, k')" for rq k sent evs k' seq portid
  proof -
    obtain xs e where "evs = xs @ [e]" "final_event e" "\<not> list_ex final_event xs"
      using assms(1) [of rq k] ans by auto
    then show ?thesis
      unfolding answer_complete_def
      by (intro exI [of _ "map (stamp seq portid) xs"] exI [of _ "stamp seq portid e"])
         (simp add: list_ex_iff)
  qed
  moreover have "list_all (stamped seq portid) (map (stamp seq portid) evs)" for seq portid and evs :: "'b event list"
    by (simp add: list_all_iff)
  ultimately show ?thesis
    using assms(2) by (auto simp: answers_as_def stamping_def split: prod.splits) (metis fst_conv snd_conv)
qed

lemma x_region_answers: "answers_as (stamping x_region_kernel) x_region_kernel"
  by (rule stamping_answers)
     (auto simp: x_region_kernel_def x_kernel_def no_data_def list_ex_iff
        DEVLINK_CMD_REGION_READ_def DEVLINK_CMD_REGION_DEL_def)

theorem socket_region_get_witness:
  "\<exists>s'. sock_port_region_get (stamping x_region_kernel) (\<lambda>_. 1700000000) \<lparr>dl_family = 20\<rparr>
     \<lparr>da_bus = ''mdio_bus'', da_dev = ''sw0''\<rparr> (- 1) ''pvt'' (devlink_region_dup_cb x_mnl) []
     \<lparr>ds_seq = 0, ds_portid = 7, ds_queue = [], ds_kernel = ()\<rparr> = Some (0, [1, 2, 3, 4], s') \<and>
   ds_queue s' = []"
  using socket_region_get [OF x_region_answers, where s = "\<lparr>ds_seq = 0, ds_portid = 7, ds_queue = [], ds_kernel = ()\<rparr>"
      and now = "\<lambda>_. 1700000000" and M = x_mnl] x_region_get
  by fastforce

text \<open>A kernel whose state is the time; its dumps have one message.\<close>

definition clock_kernel :: "(u32, nat) dl_kernel" where
  "clock_kernel rq t =
     (1, if rq_cmd rq = DEVLINK_CMD_REGION_READ then [Msg (Data []), Msg (Nl_Done 0)] else [Msg (Nl_Error 0)], t)"

lemma clock_ends: "kernel_ends (stamping clock_kernel)"
  by (simp add: kernel_ends_def stamping_def clock_kernel_def ending_def)

text \<open>
  The dump of a region fails in the second 5; in the second 6 the next one fails too, and leaves the
  acknowledgement of its snapshot behind.
\<close>

theorem unread_answer_stays_witness:
  "\<exists>s1. sock_query (stamping clock_kernel)
      (region_msg_prepare \<lparr>dl_family = 20\<rparr> \<lparr>da_bus = ''b'', da_dev = ''d''\<rparr> 0 ''port'' DEVLINK_CMD_REGION_READ [])
      (Some (\<lambda>_ n. Some (CB_ERROR, n))) (0 :: nat)
      (sock_prepare id \<lparr>ds_seq = 0, ds_portid = 7, ds_queue = [], ds_kernel = 5\<rparr>) = Some (- 1, 0, s1) \<and>
    (\<exists>s3. sock_port_region_get (stamping clock_kernel) id \<lparr>dl_family = 20\<rparr> \<lparr>da_bus = ''b'', da_dev = ''d''\<rparr> 1 ''port''
      (\<lambda>_ n. Some (CB_OK, n)) (0 :: nat) (s1\<lparr>ds_kernel := 6\<rparr>) = Some (CB_ERROR, 0, s3) \<and>
      ds_queue s3 = [stamp 6 7 (Msg (Nl_Error 0))])"
proof -
  let ?rq = "region_msg_prepare \<lparr>dl_family = 20\<rparr> \<lparr>da_bus = ''b'', da_dev = ''d''\<rparr>"
  let ?h = "\<lambda>m. \<lparr>nh_seq = 5, nh_portid = 7, nh_dump_intr = False, nh_body = m\<rparr>"
  let ?s0 = "\<lparr>ds_seq = 0, ds_portid = 7, ds_queue = [], ds_kernel = 5\<rparr> :: (u32, nat) dl_sock"
  let ?s1 = "\<lparr>ds_seq = 5, ds_portid = 7, ds_queue = [Packet [?h (Nl_Done 0)]], ds_kernel = 5\<rparr> :: (u32, nat) dl_sock"
  let ?cb = "Some (\<lambda>_ n. Some (CB_ERROR, n)) :: (nat, nat) mnl_cb option"
  have q: "sock_query (stamping clock_kernel) (?rq 0 ''port'' DEVLINK_CMD_REGION_READ []) ?cb 0 (sock_prepare id ?s0) =
      Some (- 1, 0, ?s1)"
    by (simp add: sock_query_def sock_prepare_def stamping_def clock_kernel_def nlmsg_mine_def cb_dispatch_def cb_defs)
  have "(sock_step (stamping clock_kernel) id)\<^sup>*\<^sup>* (0 :: nat, ?s1) (0, ?s1\<lparr>ds_kernel := 6\<rparr>)"
    by (rule r_into_rtranclp, rule sock_step.other)
  from unread_answer_stays [OF clock_ends _ _ _ _ _ _ q this, where sent = 1 and hs = "[?h (Data [])]"
      and ps = "[Packet [?h (Nl_Done 0)]]" and ret = "- 1" and ?k1.0 = 5 and ?d1.0 = 0 and port = 1 and name = "''port''"
      and dl = "\<lparr>dl_family = 20\<rparr>" and addr = "\<lparr>da_bus = ''b'', da_dev = ''d''\<rparr>" and cb' = "\<lambda>_ n. Some (CB_OK, n)"]
  have "\<exists>s3. sock_port_region_get (stamping clock_kernel) id \<lparr>dl_family = 20\<rparr> \<lparr>da_bus = ''b'', da_dev = ''d''\<rparr> 1 ''port''
      (\<lambda>_ n. Some (CB_OK, n)) (0 :: nat) (?s1\<lparr>ds_kernel := 6\<rparr>) = Some (CB_ERROR, 0, s3) \<and>
      ds_queue s3 = [stamp 6 7 (Msg (Nl_Error 0))]"
    by (auto simp: stamping_def clock_kernel_def nlmsg_mine_def cb_dispatch_def cb_defs ending_def
        DEVLINK_CMD_REGION_READ_def DEVLINK_CMD_REGION_NEW_def)
  with q show ?thesis by blast
qed

end
