(* ===== verification/Mvls_Chip.thy ===== *)
theory Mvls_Chip
  imports Mvls_Switch
begin

text \<open>
  Register accesses of the LinkStreet driver on a switch in multi-chip mode: the command and
  data registers through which the registers of all its ports are reached, and the busy bit that
  the programs of the driver poll for any number of rounds.
\<close>

section \<open>Commands\<close>

text \<open>The fields of a command word, as the chip takes it apart.\<close>

definition cmd_port :: "u16 \<Rightarrow> u16" where "cmd_port v = take_bit 5 (drop_bit 5 v)"
definition cmd_reg :: "u16 \<Rightarrow> u16" where "cmd_reg v = take_bit 5 v"
definition cmd_op :: "u16 \<Rightarrow> u16" where "cmd_op v = take_bit 2 (drop_bit 10 v)"

lemma small_bit:
  fixes p :: "'a::len word"
  assumes "p < 32" and "bit p n"
  shows "n < 5"
proof -
  have "uint p < uint (word_of_int 32 :: 'a word)" using assms(1) by (simp add: word_less_def)
  also have "uint (word_of_int 32 :: 'a word) \<le> 32"
    unfolding uint_word_of_int_eq by (simp add: take_bit_int_less_eq_self_iff)
  finally have "take_bit 5 (uint p) = uint p" by (simp add: take_bit_int_eq_self_iff)
  then have "take_bit 5 p = p" by (simp add: word_uint_eq_iff unsigned_take_bit_eq)
  then show ?thesis using assms(2) by (metis bit_take_bit_iff)
qed

lemma bit_multi_cmd:
  "bit (mvls_multi_cmd p r wr) n \<longleftrightarrow>
     n = 15 \<or> n = 12 \<or> n = (if wr then 10 else 11) \<or> (5 \<le> n \<and> n < 16 \<and> bit p (n - 5)) \<or> (n < 16 \<and> bit r n)"
proof -
  have two: "push_bit 10 (if wr then 1 else 2) = (push_bit (if wr then 10 else 11) 1 :: u16)"
    by simp
  have one: "bit (push_bit k 1 :: u16) n \<longleftrightarrow> n = k" if "k < 16" for k
    using that unfolding bit_push_bit_iff bit_1_iff by auto
  have p: "bit (push_bit 5 (ucast p :: u16)) n \<longleftrightarrow> 5 \<le> n \<and> n < 16 \<and> bit p (n - 5)"
    by (auto simp: bit_push_bit_iff bit_ucast_iff)
  have r: "bit (ucast r :: u16) n \<longleftrightarrow> n < 16 \<and> bit r n"
    by (auto simp: bit_ucast_iff)
  have l: "(15 :: nat) < 16" "(12 :: nat) < 16" "(if wr then 10 else 11 :: nat) < 16" by simp_all
  show ?thesis
    unfolding mvls_multi_cmd_def two MVLS_CMD_BUSY_def MVLS_CMD_C22_def bit_or_iff one [OF l(1)]
      one [OF l(2)] one [OF l(3)] p r by blast
qed

lemma multi_cmd_fields:
  assumes "p < 32" and "r < 32"
  shows "cmd_port (mvls_multi_cmd p r wr) = ucast p" "cmd_reg (mvls_multi_cmd p r wr) = ucast r"
    "cmd_op (mvls_multi_cmd p r wr) = (if wr then 1 else 2)" "bit (mvls_multi_cmd p r wr) 15"
proof -
  have p: "bit p n \<Longrightarrow> n < 5" and r: "bit r n \<Longrightarrow> n < 5" for n
    using small_bit assms by blast+
  show "cmd_port (mvls_multi_cmd p r wr) = ucast p" "cmd_reg (mvls_multi_cmd p r wr) = ucast r"
    by (rule bit_word_eqI; use p r in
        \<open>force simp: cmd_port_def cmd_reg_def bit_take_bit_iff bit_drop_bit_eq bit_multi_cmd bit_ucast_iff\<close>)+
  show "cmd_op (mvls_multi_cmd p r wr) = (if wr then 1 else 2)"
  proof (rule bit_word_eqI)
    fix n
    have "bit (2 :: u16) n \<longleftrightarrow> n = 1" "bit (1 :: u16) n \<longleftrightarrow> n = 0" by (auto simp: bit_simps bit_2_iff)
    then show "bit (cmd_op (mvls_multi_cmd p r wr)) n = bit (if wr then 1 else 2 :: u16) n"
      using p r
      by (force simp: cmd_op_def bit_take_bit_iff bit_drop_bit_eq bit_multi_cmd)
  qed
  show "bit (mvls_multi_cmd p r wr) 15" by (simp add: bit_multi_cmd)
qed

lemma less_32: "\<not> 31 < r \<Longrightarrow> r < 32" for r :: u64
  by (simp add: word_less_nat_alt)

lemma take_bit_small: "n < 32 \<Longrightarrow> take_bit k n < (32 :: nat)"
  by (rule le_less_trans [OF take_bit_nat_less_eq_self])

lemma parse_port_small: "mvls_parse_port tok = Inr port \<Longrightarrow> port < 32"
  by (auto simp: mvls_parse_port_def MVLS_G1_def MVLS_G2_def word_less_nat_alt unsigned_ucast_eq
      not_less intro!: take_bit_small split: if_splits prod.splits)

definition mvls_reg_ok :: "u32 \<Rightarrow> bool" where
  "mvls_reg_ok reg \<longleftrightarrow> (\<exists>(port :: u16) (r :: u64). port < 32 \<and> r < 32 \<and>
     reg = push_bit 16 (ucast port) OR ucast r)"

lemma parse_reg_ok: "mvls_parse_reg argv False = Inr (rest, reg, reg') \<Longrightarrow> mvls_reg_ok reg"
  unfolding mvls_reg_ok_def
  by (auto simp: mvls_parse_reg_def Let_def split: if_splits option.splits sum.splits prod.splits
      dest!: parse_port_small less_32)

lemma reg_ok_fields:
  assumes "mvls_reg_ok reg"
  shows "cmd_port (mvls_multi_cmd (ucast (reg_port reg)) (ucast (reg AND 0xffff)) wr) = reg_port reg"
    "cmd_reg (mvls_multi_cmd (ucast (reg_port reg)) (ucast (reg AND 0xffff)) wr) = ucast (reg AND 0xffff)"
    "cmd_op (mvls_multi_cmd (ucast (reg_port reg)) (ucast (reg AND 0xffff)) wr) = (if wr then 1 else 2)"
    "bit (mvls_multi_cmd (ucast (reg_port reg)) (ucast (reg AND 0xffff)) wr) 15"
proof -
  obtain port :: u16 and r :: u64 where pr: "port < 32" "r < 32"
      "reg = push_bit 16 (ucast port) OR ucast r"
    using assms unfolding mvls_reg_ok_def by (elim exE conjE) (rule that)
  have p: "bit port n \<Longrightarrow> n < 5" and r: "bit r n \<Longrightarrow> n < 5" for n
    using small_bit pr by blast+
  have port: "reg_port reg = port"
    by (rule bit_word_eqI)
       (use p r in \<open>force simp: reg_port_def pr(3) bit_ucast_iff bit_drop_bit_eq bit_or_iff bit_push_bit_iff\<close>)
  have lo: "reg AND 0xffff = ucast r"
    by (rule bit_word_eqI)
       (use p r in \<open>force simp: pr(3) bit_ucast_iff bit_and_iff bit_or_iff bit_push_bit_iff mask16_eq bit_mask_iff\<close>)
  have small: "(ucast port :: u8) < 32" "(ucast r :: u8) < 32"
    using pr(1,2)
    by (auto simp: word_less_nat_alt unsigned_ucast_eq intro: take_bit_small)
  have casts: "(ucast (ucast port :: u8) :: u16) = port" "(ucast (ucast r :: u8) :: u16) = ucast (ucast r :: u32)"
    "(ucast (ucast r :: u32) :: u8) = ucast r"
    by (rule bit_word_eqI; use p r in \<open>force simp: bit_ucast_iff\<close>)+
  show "cmd_port (mvls_multi_cmd (ucast (reg_port reg)) (ucast (reg AND 0xffff)) wr) = reg_port reg"
    "cmd_reg (mvls_multi_cmd (ucast (reg_port reg)) (ucast (reg AND 0xffff)) wr) = ucast (reg AND 0xffff)"
    "cmd_op (mvls_multi_cmd (ucast (reg_port reg)) (ucast (reg AND 0xffff)) wr) = (if wr then 1 else 2)"
    "bit (mvls_multi_cmd (ucast (reg_port reg)) (ucast (reg AND 0xffff)) wr) 15"
    unfolding port lo casts(3) multi_cmd_fields(1,2,3) [OF small]
    by (simp_all add: casts(1,2) bit_multi_cmd)
qed

section \<open>The chip\<close>

text \<open>
  \<open>left w\<close> is how often the command register still reads as busy, and \<open>fin w\<close> the data register
  and the port registers as they will be when it no longer does. Nothing is known about accesses
  to a busy chip other than reading the command register.
\<close>

definition mvls_hw ::
  "'w bus_api \<Rightarrow> u16 \<Rightarrow> ('w \<Rightarrow> nat) \<Rightarrow> ('w \<Rightarrow> u16 \<times> (u16 \<Rightarrow> u16 \<Rightarrow> u16)) \<Rightarrow> bool" where
  "mvls_hw B sw left fin \<longleftrightarrow>
     (\<forall>w. \<exists>(v :: u16) w'. bus_read B sw MVLS_CMD w = (uint v, w') \<and> bit v 15 = (0 < left w) \<and>
        left w' = left w - 1 \<and> fin w' = fin w) \<and>
     (\<forall>w. left w = 0 \<longrightarrow> bus_read B sw MVLS_DATA w = (uint (fst (fin w)), w)) \<and>
     (\<forall>w v. left w = 0 \<longrightarrow>
        (\<exists>w'. bus_write B sw MVLS_DATA v w = (0, w') \<and> left w' = 0 \<and> fin w' = (v, snd (fin w)))) \<and>
     (\<forall>w v. left w = 0 \<longrightarrow> bit v 15 \<longrightarrow>
        (\<exists>w'. bus_write B sw MVLS_CMD v w = (0, w') \<and>
           (cmd_op v = 1 \<longrightarrow> fin w' = (fst (fin w),
              (snd (fin w))(cmd_port v := (snd (fin w) (cmd_port v))(cmd_reg v := fst (fin w))))) \<and>
           (cmd_op v = 2 \<longrightarrow> fin w' = (snd (fin w) (cmd_port v) (cmd_reg v), snd (fin w)))))"

lemma mvls_hwD:
  assumes "mvls_hw B sw left fin"
  shows "\<exists>(v :: u16) w'. bus_read B sw MVLS_CMD w = (uint v, w') \<and> bit v 15 = (0 < left w) \<and>
        left w' = left w - 1 \<and> fin w' = fin w"
    and "left w = 0 \<Longrightarrow> bus_read B sw MVLS_DATA w = (uint (fst (fin w)), w)"
    and "left w = 0 \<Longrightarrow>
        \<exists>w'. bus_write B sw MVLS_DATA v w = (0, w') \<and> left w' = 0 \<and> fin w' = (v, snd (fin w))"
    and "left w = 0 \<Longrightarrow> bit v 15 \<Longrightarrow> cmd_op v = 1 \<Longrightarrow>
        \<exists>w'. bus_write B sw MVLS_CMD v w = (0, w') \<and> fin w' = (fst (fin w),
              (snd (fin w))(cmd_port v := (snd (fin w) (cmd_port v))(cmd_reg v := fst (fin w))))"
    and "left w = 0 \<Longrightarrow> bit v 15 \<Longrightarrow> cmd_op v = 2 \<Longrightarrow>
        \<exists>w'. bus_write B sw MVLS_CMD v w = (0, w') \<and>
             fin w' = (snd (fin w) (cmd_port v) (cmd_reg v), snd (fin w))"
  using assms unfolding mvls_hw_def by - (elim conjE, blast)+

text \<open>Polling ends, whatever the number of rounds, and leaves an idle chip.\<close>

lemma and_busy: "v AND MVLS_CMD_BUSY = MVLS_CMD_BUSY \<longleftrightarrow> bit v 15" for v :: u16
proof -
  have b: "bit MVLS_CMD_BUSY n \<longleftrightarrow> n = 15" for n
    unfolding MVLS_CMD_BUSY_def bit_push_bit_iff bit_1_iff by auto
  show ?thesis
  proof
    assume "v AND MVLS_CMD_BUSY = MVLS_CMD_BUSY"
    then have "bit (v AND MVLS_CMD_BUSY) 15" using b by simp
    then show "bit v 15" by (simp add: bit_and_iff)
  qed (auto intro!: bit_word_eqI simp: bit_and_iff b)
qed

lemma mvls_busy_ends:
  assumes hw: "mvls_hw B sw left fin" and sw: "(ucast (ucast sw :: u8) :: u16) = sw"
  shows "\<exists>w'. mvls_busy B sw (w, o') = Some (Inr (), w', o') \<and> left w' = 0 \<and> fin w' = fin w"
proof (induction "left w" arbitrary: w rule: less_induct)
  case less
  obtain v :: u16 and w' where v: "bus_read B sw MVLS_CMD w = (uint v, w')" "bit v 15 = (0 < left w)"
      "left w' = left w - 1" "fin w' = fin w"
    using mvls_hwD(1) [OF hw, of w] by (elim exE conjE) (rule that)
  have step: "mvls_busy B sw (w, o') =
      (if bit v 15 then mvls_busy B sw (w', o') else Some (Inr (), w', o'))"
    unfolding mvls_busy_def
    by (subst poll_unfold) (simp add: sw bbind_def brd_def bret_def v(1) and_busy)
  show ?case
  proof (cases "bit v 15")
    case True
    then have "left w' < left w" using v(2,3) by simp
    from less [OF this] obtain w'' where "mvls_busy B sw (w', o') = Some (Inr (), w'', o')"
        "left w'' = 0" "fin w'' = fin w'" by blast
    with step True v(4) show ?thesis by simp
  next
    case False
    with step v show ?thesis by simp
  qed
qed

definition reg_num :: "u32 \<Rightarrow> u16" where "reg_num reg = ucast (reg AND 0xffff)"

text \<open>\<open>set_reg32 m reg v\<close>: the port registers \<open>m\<close> with the addressed one changed.\<close>

definition set_reg32 :: "(u16 \<Rightarrow> u16 \<Rightarrow> u16) \<Rightarrow> u32 \<Rightarrow> u16 \<Rightarrow> u16 \<Rightarrow> u16 \<Rightarrow> u16" where
  "set_reg32 m reg v = m(reg_port reg := (m (reg_port reg))(reg_num reg := v))"

lemma low_byte: "sw < 256 \<Longrightarrow> ucast (ucast sw :: u8) = sw" for sw :: u16
proof -
  assume "sw < 256"
  then have "take_bit 8 sw = sw"
    by (simp add: word_uint_eq_iff unsigned_take_bit_eq take_bit_int_eq_self_iff word_less_def)
  then have "bit sw n \<Longrightarrow> n < 8" for n by (metis bit_take_bit_iff)
  then show ?thesis by (intro bit_word_eqI) (force simp: bit_ucast_iff)
qed

lemma mvls_cmd_hw:
  assumes hw: "mvls_hw B sw left fin" and "sw < 256" and reg: "mvls_reg_ok reg" and idle: "left w = 0"
  shows "\<exists>w'. mvls_cmd B sw reg False (w, o') = Some (Inr (), w', o') \<and> left w' = 0 \<and>
           fin w' = (snd (fin w) (reg_port reg) (reg_num reg), snd (fin w))"
    and "\<exists>w'. mvls_cmd B sw reg True (w, o') = Some (Inr (), w', o') \<and> left w' = 0 \<and>
           fin w' = (fst (fin w), set_reg32 (snd (fin w)) reg (fst (fin w)))"
proof -
  let ?v = "\<lambda>wr. mvls_multi_cmd (ucast (reg_port reg)) (ucast (reg AND 0xffff)) wr"
  note busy = mvls_busy_ends [OF hw low_byte [OF assms(2)]]
  have run: "\<exists>w'. mvls_cmd B sw reg wr (w, o') = Some (Inr (), w', o') \<and> left w' = 0 \<and> fin w' = fin u"
    if "bus_write B sw MVLS_CMD (?v wr) w = (0, u)" for wr u
    using busy [of u o'] that by (auto simp: mvls_cmd_def bbind_def bwr_def)
  obtain u where u: "bus_write B sw MVLS_CMD (?v False) w = (0, u)"
      "fin u = (snd (fin w) (reg_port reg) (reg_num reg), snd (fin w))"
    using mvls_hwD(5) [OF hw idle, of "?v False"] reg_ok_fields [OF reg, of False]
    unfolding reg_num_def by auto
  from run [OF u(1)] u(2)
  show "\<exists>w'. mvls_cmd B sw reg False (w, o') = Some (Inr (), w', o') \<and> left w' = 0 \<and>
      fin w' = (snd (fin w) (reg_port reg) (reg_num reg), snd (fin w))" by simp
  obtain u where u: "bus_write B sw MVLS_CMD (?v True) w = (0, u)"
      "fin u = (fst (fin w), set_reg32 (snd (fin w)) reg (fst (fin w)))"
    using mvls_hwD(4) [OF hw idle, of "?v True"] reg_ok_fields [OF reg, of True]
    unfolding reg_num_def set_reg32_def by auto
  from run [OF u(1)] u(2)
  show "\<exists>w'. mvls_cmd B sw reg True (w, o') = Some (Inr (), w', o') \<and> left w' = 0 \<and>
      fin w' = (fst (fin w), set_reg32 (snd (fin w)) reg (fst (fin w)))" by simp
qed

lemma mvls_rd_hw:
  assumes "mvls_hw B sw left fin" and "sw \<noteq> 0" "sw < 256" and "mvls_reg_ok reg" and "left w = 0"
  shows "\<exists>w'. mvls_rd B sw reg (w, o') = Some (Inr (snd (fin w) (reg_port reg) (reg_num reg)), w', o') \<and>
           left w' = 0 \<and> snd (fin w') = snd (fin w)"
proof -
  obtain u where u: "mvls_cmd B sw reg False (w, o') = Some (Inr (), u, o')" "left u = 0"
      "fin u = (snd (fin w) (reg_port reg) (reg_num reg), snd (fin w))"
    using mvls_cmd_hw(1) [OF assms(1,3-5)] by blast
  then show ?thesis
    using assms(2) mvls_hwD(2) [OF assms(1) u(2)] by (simp add: mvls_rd_def bbind_def brd_def)
qed

lemma mvls_wr_hw:
  assumes "mvls_hw B sw left fin" and "sw \<noteq> 0" "sw < 256" and "mvls_reg_ok reg" and "left w = 0"
  shows "\<exists>w'. mvls_wr B sw reg v (w, o') = Some (Inr (), w', o') \<and>
           left w' = 0 \<and> snd (fin w') = set_reg32 (snd (fin w)) reg v"
proof -
  obtain t where t: "bus_write B sw MVLS_DATA v w = (0, t)" "left t = 0" "fin t = (v, snd (fin w))"
    using mvls_hwD(3) [OF assms(1,5)] by blast
  obtain u where u: "mvls_cmd B sw reg True (t, o') = Some (Inr (), u, o')" "left u = 0"
      "fin u = (fst (fin t), set_reg32 (snd (fin t)) reg (fst (fin t)))"
    using mvls_cmd_hw(2) [OF assms(1,3,4) t(2)] by blast
  then show ?thesis
    using assms(2) t by (simp add: mvls_wr_def bbind_def bwr_def)
qed

section \<open>Accesses on the chip\<close>

text \<open>
  C14. On a switch in multi-chip mode, for every register the driver parses, a raw write changes
  this register of this port and no other, and a raw read afterwards gives the value that was
  written: every poll loop of both programs ends, however often the chip answers busy, and no
  register is accessed before the chip is idle.
\<close>

theorem mvls_chip_write_read_back:
  assumes "mvls_hw B sw left fin" and "sw \<noteq> 0" "sw < 256"
    and "mvls_parse_reg argv False = Inr (rest, reg, reg')" and "left w = 0"
  shows "\<exists>p q w1 w2. raw_prog (mvls_device b sw) reg (Some (val, 0)) = Inr (p, mdio_common_raw_write_cb) \<and>
           raw_prog (mvls_device b sw) reg None = Inr (q, mdio_common_raw_read_cb) \<and>
           runs_to B p w (Inr (), w1, []) \<and>
           snd (fin w1) = set_reg32 (snd (fin w)) reg (ucast val) \<and>
           runs_to B q w1 (Inr (), w2, [ucast (ucast val :: u16)]) \<and>
           left w2 = 0 \<and> snd (fin w2) = snd (fin w1)"
proof -
  note reg = parse_reg_ok [OF assms(4)]
  have dev: "drv_read (mvls_device b sw) = mvls_read sw" "drv_write (mvls_device b sw) = mvls_write sw"
    by (simp_all add: mvls_device_def)
  obtain p where p: "raw_prog (mvls_device b sw) reg (Some (val, 0)) = Inr (p, mdio_common_raw_write_cb)"
      "performs B p (any_regs :: unit \<Rightarrow> _) (\<lambda>_. mvls_wr B sw reg (ucast val)) any_regs"
    using mvls.raw_write [OF dev(2), of reg val B] by blast
  obtain q where q: "raw_prog (mvls_device b sw) reg None = Inr (q, mdio_common_raw_read_cb)"
      "performs B q (any_regs :: unit \<Rightarrow> _) (\<lambda>_. raw_read_spec (mvls_rd B sw reg)) any_regs"
    using mvls.raw_read [OF dev(1), of reg B] by blast
  obtain w1 where w1: "mvls_wr B sw reg (ucast val) (w, []) = Some (Inr (), w1, [])" "left w1 = 0"
      "snd (fin w1) = set_reg32 (snd (fin w)) reg (ucast val)"
    using mvls_wr_hw [OF assms(1-3) reg assms(5)] by blast
  obtain w2 where w2: "mvls_rd B sw reg (w1, []) = Some (Inr (ucast val), w2, [])"
      "left w2 = 0" "snd (fin w2) = snd (fin w1)"
    using mvls_rd_hw [OF assms(1-3) reg w1(2), of "[]"] w1(3) by (auto simp: set_reg32_def)
  have "raw_read_spec (mvls_rd B sw reg) (w1, []) = Some (Inr (), w2, [ucast (ucast val :: u16)])"
    using w2(1) by (simp add: raw_read_spec_def bbind_def bemit_def)
  from p(1) q(1) performs_runs_to [OF p(2) w1(1)] performs_runs_to [OF q(2) this] w1(3) w2(2,3)
  show ?thesis by blast
qed

text \<open>
  A masked raw write on a switch in multi-chip mode replaces the addressed register by its
  old value under the mask, with the new bits set, and changes nothing else.
\<close>

theorem mvls_chip_masked_write:
  assumes "mvls_hw B sw left fin" and "sw \<noteq> 0" "sw < 256"
    and "mvls_parse_reg argv False = Inr (rest, reg, reg')" and "left w = 0" and "msk \<noteq> 0"
  shows "\<exists>p w1. raw_prog (mvls_device b sw) reg (Some (val, msk)) = Inr (p, mdio_common_raw_write_cb) \<and>
           runs_to B p w (Inr (), w1, []) \<and> left w1 = 0 \<and>
           snd (fin w1) = set_reg32 (snd (fin w)) reg
             ((snd (fin w) (reg_port reg) (reg_num reg) AND ucast msk) OR ucast val)"
proof -
  note reg = parse_reg_ok [OF assms(4)]
  have dev: "drv_read (mvls_device b sw) = mvls_read sw" "drv_write (mvls_device b sw) = mvls_write sw"
    by (simp_all add: mvls_device_def)
  let ?old = "snd (fin w) (reg_port reg) (reg_num reg)"
  obtain p where p: "raw_prog (mvls_device b sw) reg (Some (val, msk)) = Inr (p, mdio_common_raw_write_cb)"
      "performs B p (any_regs :: unit \<Rightarrow> _)
        (\<lambda>_. raw_mask_spec (mvls_rd B sw reg) (mvls_wr B sw reg) (ucast val) (ucast msk)) any_regs"
    using mvls.raw_mask [OF dev assms(6), of reg val B] by blast
  obtain w1 where w1: "mvls_rd B sw reg (w, []) = Some (Inr ?old, w1, [])" "left w1 = 0"
      "snd (fin w1) = snd (fin w)"
    using mvls_rd_hw [OF assms(1-3) reg assms(5)] by blast
  obtain w2 where w2: "mvls_wr B sw reg ((?old AND ucast msk) OR ucast val) (w1, []) = Some (Inr (), w2, [])"
      "left w2 = 0" "snd (fin w2) = set_reg32 (snd (fin w1)) reg ((?old AND ucast msk) OR ucast val)"
    using mvls_wr_hw [OF assms(1-3) reg w1(2)] by blast
  have "raw_mask_spec (mvls_rd B sw reg) (mvls_wr B sw reg) (ucast val) (ucast msk) (w, []) =
      Some (Inr (), w2, [])"
    using w1(1) w2(1) by (simp add: raw_mask_spec_def bbind_def)
  from p(1) performs_runs_to [OF p(2) this] w1(3) w2(2,3) show ?thesis by auto
qed

text \<open>A chip that stays busy for three polls, for the instances.\<close>

record ex_chip =
  ch_left :: nat
  ch_data :: u16
  ch_regs :: "u16 \<Rightarrow> u16 \<Rightarrow> u16"

definition ex_chip_cmd :: "u16 \<Rightarrow> ex_chip \<Rightarrow> ex_chip" where
  "ex_chip_cmd v w =
     (if cmd_op v = 1 then
        w\<lparr>ch_left := 3, ch_regs := (ch_regs w)(cmd_port v := (ch_regs w (cmd_port v))(cmd_reg v := ch_data w))\<rparr>
      else w\<lparr>ch_left := 3, ch_data := ch_regs w (cmd_port v) (cmd_reg v)\<rparr>)"

definition ex_chip_bus :: "ex_chip bus_api" where
  "ex_chip_bus =
     \<lparr>mdio_phy_id_is_c45 = (\<lambda>_. False), mdio_phy_id_prtad = id, mdio_phy_id_devad = id,
      mdiobus_read = (\<lambda>d r w.
         if r = MVLS_CMD then
           (uint (if 0 < ch_left w then 0x8000 else 0 :: u16), w\<lparr>ch_left := ch_left w - 1\<rparr>)
         else (uint (ch_data w), w)),
      mdiobus_write = (\<lambda>d r v w. (0,
         if r = MVLS_CMD then ex_chip_cmd v w else w\<lparr>ch_data := v\<rparr>)),
      mdiobus_c45_read = (\<lambda>p d r w. (0, w)),
      mdiobus_c45_write = (\<lambda>p d r v w. (0, w))\<rparr>"

lemma ex_chip_hw: "mvls_hw ex_chip_bus 4 ch_left (\<lambda>w. (ch_data w, ch_regs w))"
proof -
  have bit: "bit (0x8000 :: u16) 15" by simp
  show ?thesis
    unfolding mvls_hw_def
    by (intro conjI allI impI)
       (auto simp: ex_chip_bus_def bus_read_def bus_write_def ex_chip_cmd_def MVLS_CMD_def
          MVLS_DATA_def bit intro: exI [of _ "0x8000 :: u16"] exI [of _ "0 :: u16"])
qed

lemma ex_chip_reg: "mvls_parse_reg [''2:0x5''] False = Inr ([], 0x20005, 0x20005)"
proof -
  have "strtok CHR '':'' ''2:0x5'' = Some (''2'', ''0x5'')" "strtok CHR '':'' ''0x5'' = Some (''0x5'', [])"
    by (simp_all add: strtok_def)
  moreover have "strtoull ''2'' = (2, [], False)" "strtoull ''0x5'' = (5, [], False)"
    by (simp_all add: parse_eval)
  moreover have "mvls_parse_port ''2'' = Inr 2"
    using calculation(3) by (simp add: mvls_parse_port_def)
  ultimately show ?thesis by (simp add: mvls_parse_reg_def Let_def)
qed

theorem mvls_chip_write_read_back_witness:
  "\<exists>q w1 w2. raw_prog (mvls_device ''b'' 4) 0x20005 None = Inr (q, mdio_common_raw_read_cb) \<and>
     runs_to ex_chip_bus q w1 (Inr (), w2, [0x42]) \<and> ch_regs w1 2 5 = 0x42"
  using mvls_chip_write_read_back [OF ex_chip_hw _ _ ex_chip_reg, where b = "''b''" and val = "0x42"
      and w = "\<lparr>ch_left = 0, ch_data = 0, ch_regs = \<lambda>_ _. 0\<rparr>"]
  by (simp add: set_reg32_def reg_port_def reg_num_def)
     (elim exE conjE, intro exI conjI, assumption+, simp)

theorem mvls_chip_masked_write_witness:
  "\<exists>p w1. raw_prog (mvls_device ''b'' 4) 0x20005 (Some (0x2, 0xf0)) = Inr (p, mdio_common_raw_write_cb) \<and>
     runs_to ex_chip_bus p \<lparr>ch_left = 0, ch_data = 0, ch_regs = \<lambda>_ _. 0xabc\<rparr> (Inr (), w1, []) \<and>
     ch_regs w1 2 5 = 0xb2 \<and> ch_regs w1 2 6 = 0xabc"
  using mvls_chip_masked_write [OF ex_chip_hw _ _ ex_chip_reg, where b = "''b''" and val = "0x2"
      and msk = "0xf0" and w = "\<lparr>ch_left = 0, ch_data = 0, ch_regs = \<lambda>_ _. 0xabc\<rparr>"]
  by (simp add: set_reg32_def reg_port_def reg_num_def)
     (elim exE conjE, intro exI conjI, assumption+, simp_all)

end
