(* ===== verification/Mvls_Correct.thy ===== *)
theory Mvls_Correct
  imports Mvls_Commands
begin

text \<open>
  What the programs of the LinkStreet commands do, and that they fit the kernel's limit of 512
  instructions.
\<close>

section \<open>Composite accesses\<close>

lemma performs_emit_r0:
  "performs B [INSN OP_EMIT (REG 0) 0 0] (with_r0 P) (\<lambda>vx. bmap (\<lambda>_. snd vx) (bemit (fst vx))) P"
  by (rule performs_emit [of _ "Reg 0"]) (auto simp: insn_simps with_r0_def)

lemma read_emit_performs:
  assumes "indep_r0 P"
  shows "performs B (rd_code dev_id reg @ [INSN OP_EMIT (REG 0) 0 0]) P
           (\<lambda>x. bmap (\<lambda>_. x) (bbind (mvls_rd B dev_id reg) bemit)) P"
  using performs_seq [OF rd_code_performs [OF assms] performs_emit_r0]
  by (simp add: bbind_bmap bmap_bbind)

definition modify_code :: "u16 \<Rightarrow> u32 \<Rightarrow> u16 \<Rightarrow> u16 \<Rightarrow> mdio_prog" where
  "modify_code dev_id reg m n =
     rd_code dev_id reg @ [INSN OP_AND (REG 0) (IMM m) (REG 0), INSN OP_OR (REG 0) (IMM n) (REG 0)] @
     wr_code dev_id reg (REG 0)"

definition modify_spec :: "'w bus_api \<Rightarrow> u16 \<Rightarrow> u32 \<Rightarrow> u16 \<Rightarrow> u16 \<Rightarrow> ('w, unit) bm" where
  "modify_spec B dev_id reg m n =
     bbind (mvls_rd B dev_id reg) (\<lambda>v. mvls_wr B dev_id reg ((v AND m) OR n))"

lemma modify_performs:
  assumes P: "indep_r0 P"
  shows "performs B (modify_code dev_id reg m n) P (\<lambda>x. bmap (\<lambda>_. x) (modify_spec B dev_id reg m n)) P"
proof -
  have an: "performs B [INSN OP_AND (REG 0) (IMM m) (REG 0)] (with_r0 P)
      (\<lambda>vx. bret (fst vx AND m, snd vx)) (with_r0 P)"
    by (rule performs_alu [of _ "VAND (Reg 0) (Imm m) 0" "Reg 0" "Imm m" 0])
       (use P in \<open>auto simp: insn_simps with_r0_def indep_r0_def\<close>)
  have orr: "performs B [INSN OP_OR (REG 0) (IMM n) (REG 0)] (with_r0 P)
      (\<lambda>vx. bret (fst vx OR n, snd vx)) (with_r0 P)"
    by (rule performs_alu [of _ "VOR (Reg 0) (Imm n) 0" "Reg 0" "Imm n" 0])
       (use P in \<open>auto simp: insn_simps with_r0_def indep_r0_def\<close>)
  have wr: "performs B (wr_code dev_id reg (REG 0)) (with_r0 P)
      (\<lambda>vx. bmap (\<lambda>_. snd vx) (mvls_wr B dev_id reg (fst vx))) P"
    by (rule wr_code_performs [OF P, of _ "Reg 0"]) (auto simp: insn_simps with_r0_def)
  from performs_seq [OF performs_seq [OF performs_seq [OF rd_code_performs [OF P] an] orr] wr]
  show ?thesis
    by (simp add: modify_code_def modify_spec_def bbind_bmap bmap_bbind bbind_assoc)
qed

lemma write_imm_performs:
  "indep_r0 P \<Longrightarrow> performs B (wr_code dev_id reg (IMM n)) P (\<lambda>x. bmap (\<lambda>_. x) (mvls_wr B dev_id reg n)) P"
  by (rule wr_code_performs [where vl = "\<lambda>_. n" and h = "\<lambda>x. x" and a = "Imm n"])
     (auto simp: insn_simps)

lemma seq_keeps:
  assumes "performs B c P (\<lambda>x. bmap (\<lambda>_. x) (m :: ('w, unit) bm)) P"
    and "performs B d P (\<lambda>x. bmap (\<lambda>_. x) (n :: ('w, unit) bm)) P"
  shows "performs B (c @ d) P (\<lambda>x. bmap (\<lambda>_. x) (bbind m (\<lambda>_. n))) P"
  using performs_seq [OF assms] by (simp add: bbind_bmap bmap_bbind)

lemma performs_bfor:
  assumes "\<And>i. i \<in> set xs \<Longrightarrow> performs B (code i) P (\<lambda>x. bmap (\<lambda>_. x) (m i)) P"
  shows "performs B (concat (map code xs)) P (\<lambda>x. bmap (\<lambda>_. x) (bfor m xs)) P"
  using assms
proof (induction xs)
  case Nil
  show ?case using performs_Nil [of P P "\<lambda>x. x" B] by simp
next
  case (Cons i xs)
  then show ?case
    using performs_seq [of B "code i" P "\<lambda>x. bmap (\<lambda>_. x) (m i)" P "concat (map code xs)"
        "\<lambda>x. bmap (\<lambda>_. x) (bfor m xs)" P]
    by (simp add: bbind_bmap bmap_bbind)
qed

lemma foldl_append:
  assumes "\<And>p i. step p i = p @ code i"
  shows "foldl step p xs = p @ concat (map code xs)"
  using assms by (induction xs arbitrary: p) simp_all

section \<open>Link aggregation\<close>

text \<open>
  For each of 16 trunk maps: write its index, read it back and send it; for each of 8 trunk
  masks: select it, keeping the hash bit, read it and send it.
\<close>

definition lag_spec :: "'w bus_api \<Rightarrow> u16 \<Rightarrow> ('w, unit) bm" where
  "lag_spec B dev_id =
     bbind (bfor (\<lambda>i. bbind (mvls_wr B dev_id (MVLS_REG MVLS_G2 0x08) (push_bit 11 (word_of_nat i)))
                        (\<lambda>_. bbind (mvls_rd B dev_id (MVLS_REG MVLS_G2 0x08)) bemit)) [0 ..< 16])
       (\<lambda>_. bfor (\<lambda>i. bbind (modify_spec B dev_id (MVLS_REG MVLS_G2 0x07) (push_bit 11 1)
                                (push_bit 12 (word_of_nat i)))
                        (\<lambda>_. bbind (mvls_rd B dev_id (MVLS_REG MVLS_G2 0x07)) bemit)) [0 ..< 8])"

definition lag_map_code :: "u16 \<Rightarrow> nat \<Rightarrow> mdio_prog" where
  "lag_map_code dev_id i =
     wr_code dev_id (MVLS_REG MVLS_G2 0x08) (IMM (push_bit 11 (word_of_nat i))) @
     rd_code dev_id (MVLS_REG MVLS_G2 0x08) @ [INSN OP_EMIT (REG 0) 0 0]"

definition lag_mask_code :: "u16 \<Rightarrow> nat \<Rightarrow> mdio_prog" where
  "lag_mask_code dev_id i =
     modify_code dev_id (MVLS_REG MVLS_G2 0x07) (push_bit 11 1) (push_bit 12 (word_of_nat i)) @
     rd_code dev_id (MVLS_REG MVLS_G2 0x07) @ [INSN OP_EMIT (REG 0) 0 0]"

lemma mvls_lag_prog_code:
  "mvls_lag_prog dev_id =
     concat (map (lag_map_code dev_id) [0 ..< 16]) @ concat (map (lag_mask_code dev_id) [0 ..< 8])"
proof -
  have "lag_map_step dev_id p i = p @ lag_map_code dev_id i" for p i
    by (simp add: lag_map_step_def lag_map_code_def Let_def mvls_read_def mvls_read_to_code
        mvls_write_code push_emit_def mdio_prog_push_def)
  moreover have "lag_mask_step dev_id p i = p @ lag_mask_code dev_id i" for p i
    by (simp add: lag_mask_step_def lag_mask_code_def modify_code_def Let_def mvls_read_def
        mvls_read_to_code mvls_write_code push_emit_def mdio_prog_push_def)
  ultimately show ?thesis
    unfolding mvls_lag_prog_def MDIO_PROG_EMPTY_def
    by (simp only: foldl_append [of "lag_map_step dev_id" "lag_map_code dev_id"]
        foldl_append [of "lag_mask_step dev_id" "lag_mask_code dev_id"] append_Nil)
qed

lemma length_concat_le:
  "(\<And>x. x \<in> set xs \<Longrightarrow> length (f x) \<le> k) \<Longrightarrow> length (concat (map f xs)) \<le> k * length xs"
  by (induction xs) (auto simp: add_mono)

text \<open>
  C17. The program of the \<^verbatim>\<open>lag\<close> command reads and sends the 16 trunk maps and the 8 trunk
  masks in this order, in single-chip and in multi-chip mode, and fits into one request.
\<close>

theorem mvls_lag_performs:
  "performs B (mvls_lag_prog dev_id) (any_regs :: unit \<Rightarrow> _) (\<lambda>_. lag_spec B dev_id) any_regs \<and>
   length (mvls_lag_prog dev_id) \<le> 512"
proof
  let ?P = "any_regs :: unit \<Rightarrow> regfile \<Rightarrow> bool"
  have P: "indep_r0 ?P" by (simp add: indep_r0_def)
  have "performs B (lag_map_code dev_id i) ?P (\<lambda>x. bmap (\<lambda>_. x)
      (bbind (mvls_wr B dev_id (MVLS_REG MVLS_G2 0x08) (push_bit 11 (word_of_nat i)))
        (\<lambda>_. bbind (mvls_rd B dev_id (MVLS_REG MVLS_G2 0x08)) bemit))) ?P" for i
    unfolding lag_map_code_def
    by (rule seq_keeps [OF write_imm_performs [OF P] read_emit_performs [OF P]])
  moreover have "performs B (lag_mask_code dev_id i) ?P (\<lambda>x. bmap (\<lambda>_. x)
      (bbind (modify_spec B dev_id (MVLS_REG MVLS_G2 0x07) (push_bit 11 1) (push_bit 12 (word_of_nat i)))
        (\<lambda>_. bbind (mvls_rd B dev_id (MVLS_REG MVLS_G2 0x07)) bemit))) ?P" for i
    unfolding lag_mask_code_def
    by (rule seq_keeps [OF modify_performs [OF P] read_emit_performs [OF P]])
  ultimately have "performs B (mvls_lag_prog dev_id) ?P (\<lambda>x. bmap (\<lambda>_. x) (lag_spec B dev_id)) ?P"
    unfolding mvls_lag_prog_code lag_spec_def by (intro seq_keeps performs_bfor)
  then show "performs B (mvls_lag_prog dev_id) ?P (\<lambda>_. lag_spec B dev_id) ?P"
    by (rule performs_weaken) (auto simp: unit_eq)
  have "length (lag_map_code dev_id i) \<le> 11" for i
    using code_lengths(1) [of dev_id "MVLS_REG MVLS_G2 0x08"]
      code_lengths(2) [of dev_id "MVLS_REG MVLS_G2 0x08" "IMM (push_bit 11 (word_of_nat i))"]
    unfolding lag_map_code_def length_append list.size by linarith
  moreover have "length (lag_mask_code dev_id i) \<le> 18" for i
    using code_lengths(1) [of dev_id "MVLS_REG MVLS_G2 0x07"]
      code_lengths(2) [of dev_id "MVLS_REG MVLS_G2 0x07" "REG 0"]
    unfolding lag_mask_code_def modify_code_def length_append list.size by linarith
  ultimately have "length (concat (map (lag_map_code dev_id) [0 ..< 16])) \<le> 11 * 16"
      "length (concat (map (lag_mask_code dev_id) [0 ..< 8])) \<le> 18 * 8"
    using length_concat_le [of "[0 ..< 16]" "lag_map_code dev_id" 11]
      length_concat_le [of "[0 ..< 8]" "lag_mask_code dev_id" 18] by auto
  then show "length (mvls_lag_prog dev_id) \<le> 512"
    unfolding mvls_lag_prog_code length_append by linarith
qed

section \<open>Counters\<close>

text \<open>A loop that adds \<open>d\<close> to its argument until the limit, which it meets after \<open>k\<close> rounds.\<close>

lemma bloop_iterate:
  fixes n d lim :: u16
  assumes "0 < k" and "n + of_nat k * d = lim"
    and "\<And>i. 0 < i \<Longrightarrow> i < k \<Longrightarrow> n + of_nat i * d \<noteq> lim"
  shows "bloop (\<lambda>n. n \<noteq> lim) (\<lambda>n. bmap (\<lambda>_. n + d) (m n)) n =
     bmap (\<lambda>_. lim) (bfor m (map (\<lambda>i. n + of_nat i * d) [0 ..< k]))"
  using assms
proof (induction k arbitrary: n)
  case (Suc k)
  have shift: "map (\<lambda>i. n + of_nat i * d) [0 ..< Suc k] =
      n # map (\<lambda>i. (n + d) + of_nat i * d) [0 ..< k]"
    by (subst upt_conv_Cons, simp, subst map_Suc_upt [symmetric]) (simp add: algebra_simps del: map_Suc_upt)
  have rest: "(if n + d \<noteq> lim then bloop (\<lambda>n. n \<noteq> lim) (\<lambda>n. bmap (\<lambda>_. n + d) (m n)) (n + d)
      else bret (n + d)) = bmap (\<lambda>_. lim) (bfor m (map (\<lambda>i. (n + d) + of_nat i * d) [0 ..< k]))"
  proof (cases k)
    case 0
    then show ?thesis using Suc.prems(2) by simp
  next
    case (Suc k')
    then have "n + d \<noteq> lim" using Suc.prems(3) [of 1] by simp
    moreover have "n + d + of_nat i * d \<noteq> lim" if "0 < i" "i < k" for i
      using Suc.prems(3) [of "Suc i"] that by (simp add: algebra_simps)
    moreover have "n + d + of_nat k * d = lim" using Suc.prems(2) by (simp add: algebra_simps)
    ultimately show ?thesis using Suc.IH [of "n + d"] Suc by simp
  qed
  show ?case
    unfolding shift by (subst bloop_unfold) (simp add: bbind_bmap bmap_bbind rest)
qed simp

definition counter_one_spec :: "'w bus_api \<Rightarrow> u16 \<Rightarrow> u16 \<Rightarrow> ('w, unit) bm" where
  "counter_one_spec B dev_id counter =
     bbind (mvls_wr B dev_id G1_STATS_OP (push_bit 15 1 OR push_bit 12 4 OR counter)) (\<lambda>_.
     bbind (poll MVLS_CMD_BUSY (mvls_rd B dev_id G1_STATS_OP)) (\<lambda>_.
     bbind (bbind (mvls_rd B dev_id (MVLS_REG MVLS_G1 0x1e)) bemit) (\<lambda>_.
     bbind (mvls_rd B dev_id (MVLS_REG MVLS_G1 0x1f)) bemit)))"

definition counter_ids :: "u16 list" where
  "counter_ids = [0x04, 0x06, 0x07, 0x10, 0x13, 0x12]"

definition counter_port_spec :: "'w bus_api \<Rightarrow> u16 \<Rightarrow> u16 \<Rightarrow> ('w, unit) bm" where
  "counter_port_spec B dev_id oper =
     bbind (mvls_wr B dev_id G1_STATS_OP oper) (\<lambda>_.
     bbind (poll MVLS_CMD_BUSY (mvls_rd B dev_id G1_STATS_OP)) (\<lambda>_.
     bfor (counter_one_spec B dev_id) counter_ids))"

definition counter_capture :: "mvls_family \<Rightarrow> nat \<Rightarrow> u16" where
  "counter_capture fam i =
     (case counter_base_shift fam of (base, shift) \<Rightarrow>
        ((push_bit 15 1 OR push_bit 12 5) OR base) + of_nat i * shift)"

definition counter_spec :: "'w bus_api \<Rightarrow> u16 \<Rightarrow> mvls_family \<Rightarrow> ('w, unit) bm" where
  "counter_spec B dev_id fam =
     bbind (poll MVLS_CMD_BUSY (mvls_rd B dev_id G1_STATS_OP)) (\<lambda>_.
     bfor (counter_port_spec B dev_id) (map (counter_capture fam) [0 ..< 11]))"

definition counter_one_code :: "u16 \<Rightarrow> u16 \<Rightarrow> mdio_prog" where
  "counter_one_code dev_id counter =
     wr_code dev_id G1_STATS_OP (IMM (push_bit 15 1 OR push_bit 12 4 OR counter)) @
     poll_code (rd_code dev_id G1_STATS_OP) MVLS_CMD_BUSY @
     (rd_code dev_id (MVLS_REG MVLS_G1 0x1e) @ [INSN OP_EMIT (REG 0) 0 0]) @
     (rd_code dev_id (MVLS_REG MVLS_G1 0x1f) @ [INSN OP_EMIT (REG 0) 0 0])"

lemma counter_read_one_code:
  "mvls_counter_read_one dev_id p counter = p @ counter_one_code dev_id counter"
  by (simp add: mvls_counter_read_one_def counter_one_code_def Let_def mvls_write_code
      mvls_wait_code mvls_read_def mvls_read_to_code push_emit_def mdio_prog_push_def)

lemma counter_one_performs:
  "indep_r0 P \<Longrightarrow> performs B (counter_one_code dev_id counter) P
     (\<lambda>x. bmap (\<lambda>_. x) (counter_one_spec B dev_id counter)) P"
  unfolding counter_one_code_def counter_one_spec_def
  by (intro seq_keeps write_imm_performs wait_code_performs read_emit_performs)

lemma counter_one_length: "length (counter_one_code dev_id counter) \<le> 24"
  using code_lengths(1) [of dev_id G1_STATS_OP] code_lengths(1) [of dev_id "MVLS_REG MVLS_G1 0x1e"]
    code_lengths(1) [of dev_id "MVLS_REG MVLS_G1 0x1f"]
    code_lengths(2) [of dev_id G1_STATS_OP "IMM (push_bit 15 1 OR push_bit 12 4 OR counter)"]
  unfolding counter_one_code_def poll_code_def length_append list.size by linarith

definition counter_body :: "u16 \<Rightarrow> mdio_prog" where
  "counter_body dev_id =
     wr_code dev_id G1_STATS_OP (REG 1) @ poll_code (rd_code dev_id G1_STATS_OP) MVLS_CMD_BUSY @
     concat (map (counter_one_code dev_id) counter_ids)"

lemma counter_body_length: "length (counter_body dev_id) \<le> 156"
proof -
  have "length (concat (map (counter_one_code dev_id) counter_ids)) \<le> 24 * length counter_ids"
    by (rule length_concat_le) (rule counter_one_length)
  then show ?thesis
    using code_lengths(1) [of dev_id G1_STATS_OP] code_lengths(2) [of dev_id G1_STATS_OP "REG 1"]
    unfolding counter_body_def poll_code_def length_append list.size counter_ids_def by simp
qed

lemma counter_body_performs:
  "performs B (counter_body dev_id) in_r1 (\<lambda>n. bmap (\<lambda>_. n) (counter_port_spec B dev_id n)) in_r1"
proof -
  have P: "indep_r0 in_r1" by (simp add: indep_r0_def in_r1_def)
  have "performs B (wr_code dev_id G1_STATS_OP (REG 1)) in_r1
      (\<lambda>n. bmap (\<lambda>_. n) (mvls_wr B dev_id G1_STATS_OP n)) in_r1"
    by (rule wr_code_performs [where vl = "\<lambda>n. n" and h = "\<lambda>n. n" and a = "Reg 1", OF P])
       (auto simp: insn_simps in_r1_def)
  moreover have "performs B (poll_code (rd_code dev_id G1_STATS_OP) MVLS_CMD_BUSY @
        concat (map (counter_one_code dev_id) counter_ids)) in_r1
      (\<lambda>x. bmap (\<lambda>_. x) (bbind (poll MVLS_CMD_BUSY (mvls_rd B dev_id G1_STATS_OP))
        (\<lambda>_. bfor (counter_one_spec B dev_id) counter_ids))) in_r1"
    by (intro seq_keeps wait_code_performs performs_bfor counter_one_performs P)
  ultimately show ?thesis
    unfolding counter_body_def
    by (rule performs_weaken [OF performs_seq]) (simp_all add: counter_port_spec_def bbind_bmap bmap_bbind)
qed

lemma mvls_counter_prog_code:
  assumes "counter_base_shift fam = (base, shift)"
  shows "mvls_counter_prog dev_id fam =
     poll_code (rd_code dev_id G1_STATS_OP) MVLS_CMD_BUSY @
     INSN OP_ADD (IMM ((push_bit 15 1 OR push_bit 12 5) OR base)) (IMM 0) (REG 1) #
     (counter_body dev_id @ [INSN OP_ADD (REG 1) (IMM shift) (REG 1)]) @
     [INSN OP_JNE (REG 1) (IMM ((push_bit 15 1 OR push_bit 12 5) OR (base + shift * 11)))
        (IMM (word_of_int (- int (length (counter_body dev_id)) - 2)))]"
proof -
  have one: "foldl (mvls_counter_read_one dev_id) p counter_ids =
      p @ concat (map (counter_one_code dev_id) counter_ids)" for p
    by (rule foldl_append) (rule counter_read_one_code)
  show ?thesis
    unfolding mvls_counter_prog_def assms prod.case Let_def counter_ids_def [symmetric]
    by (simp add: mvls_wait_code mdio_prog_push_def mvls_write_code one counter_body_def GOTO_IMM
        MDIO_PROG_EMPTY_def)
      (simp only: diff_conv_add_uminus minus_add_distrib ac_simps)
qed

lemma counter_base_shift_cases:
  assumes "counter_base_shift fam = (base, shift)"
  shows "base = 0 \<and> shift = 1 \<or> base = 0x20 \<and> shift = 0x20"
  using assms by (cases fam) (auto simp: counter_base_shift_def)

lemma less_11: "(i :: nat) < 11 \<longleftrightarrow> i \<in> {0, 1, 2, 3, 4, 5, 6, 7, 8, 9, 10}"
  by (simp, presburger)

lemma counter_loop_iterates:
  assumes "counter_base_shift fam = (base, shift)"
  defines "start \<equiv> (push_bit 15 1 OR push_bit 12 5) OR base"
    and "lim \<equiv> (push_bit 15 1 OR push_bit 12 5) OR (base + shift * 11)"
  shows "bloop (\<lambda>n. n \<noteq> lim) (\<lambda>n. bmap (\<lambda>_. n + shift) (m n)) start =
     bmap (\<lambda>_. lim) (bfor m (map (\<lambda>i. start + of_nat i * shift) [0 ..< 11]))"
proof (rule bloop_iterate)
  note cases = counter_base_shift_cases [OF assms(1)]
  show "start + of_nat 11 * shift = lim"
    using cases by (elim disjE) (simp_all add: start_def lim_def)
  show "start + of_nat i * shift \<noteq> lim" if "0 < i" "i < 11" for i
    using cases that unfolding less_11 by (elim disjE insertE) (simp_all add: start_def lim_def)
qed simp

text \<open>
  C15. The program of the \<^verbatim>\<open>counter\<close> command captures the statistics of ports 0 to 10, each time
  waiting for the unit, and reads and sends six counters of two words for each, in single-chip
  and in multi-chip mode; its loop is left after exactly eleven rounds for every switch family
  (132 values), and the program fits into one request.
\<close>

theorem mvls_counter_performs:
  "performs B (mvls_counter_prog dev_id fam) (any_regs :: unit \<Rightarrow> _)
     (\<lambda>_. counter_spec B dev_id fam) (\<lambda>_ _. True) \<and>
   length (mvls_counter_prog dev_id fam) \<le> 512"
proof
  let ?P = "any_regs :: unit \<Rightarrow> regfile \<Rightarrow> bool"
  obtain base shift where bs: "counter_base_shift fam = (base, shift)" by fastforce
  let ?start = "(push_bit 15 1 OR push_bit 12 5) OR base :: u16"
  let ?lim = "(push_bit 15 1 OR push_bit 12 5) OR (base + shift * 11) :: u16"
  let ?inc = "INSN OP_ADD (REG 1) (IMM shift) (REG 1)"
  let ?j = "- int (length (counter_body dev_id)) - 2"
  have P: "indep_r0 ?P" by (simp add: indep_r0_def)
  have wait: "performs B (poll_code (rd_code dev_id G1_STATS_OP) MVLS_CMD_BUSY) ?P
      (\<lambda>x. bmap (\<lambda>_. x) (poll MVLS_CMD_BUSY (mvls_rd B dev_id G1_STATS_OP))) ?P"
    by (rule wait_code_performs [OF P])
  have init: "performs B [INSN OP_ADD (IMM ?start) (IMM 0) (REG 1)] ?P (\<lambda>x. bret ?start) in_r1"
    by (rule performs_alu [of _ "VADD (Imm ?start) (Imm 0) 1" "Imm ?start" "Imm 0" 1])
       (simp_all add: insn_simps in_r1_def)
  have inc: "performs B [?inc] in_r1 (\<lambda>n. bret (n + shift)) in_r1"
    by (rule performs_alu [of _ "VADD (Reg 1) (Imm shift) 1" "Reg 1" "Imm shift" 1])
       (simp_all add: insn_simps in_r1_def)
  have body: "performs B (counter_body dev_id @ [?inc]) in_r1
      (\<lambda>n. bmap (\<lambda>_. n + shift) (counter_port_spec B dev_id n)) in_r1"
    using performs_seq [OF counter_body_performs inc] by (simp add: bbind_bmap bmap_def bbind_assoc)
  have j: "sint (word_of_int ?j :: u16) = - int (length (counter_body dev_id @ [?inc]) + 1)"
    using counter_body_length [of dev_id] by (subst sint_jump) simp_all
  have loop: "performs B ((counter_body dev_id @ [?inc]) @
      [INSN OP_JNE (REG 1) (IMM ?lim) (IMM (word_of_int ?j))]) in_r1
      (bloop (\<lambda>n. n \<noteq> ?lim) (\<lambda>n. bmap (\<lambda>_. n + shift) (counter_port_spec B dev_id n))) in_r1"
    by (rule performs_loop [where a = "Reg 1" and b = "Imm ?lim" and t = False
          and v = "VJNE (Reg 1) (Imm ?lim) (word_of_int ?j)", OF body _ _ j])
       (auto simp: insn_simps in_r1_def)
  have "performs B (mvls_counter_prog dev_id fam) ?P
      (\<lambda>x. bmap (\<lambda>_. ?lim) (counter_spec B dev_id fam)) in_r1"
    using performs_seq [OF wait performs_seq [OF init loop]]
    unfolding mvls_counter_prog_code [OF bs]
    by (simp add: counter_loop_iterates [OF bs, simplified] counter_spec_def counter_capture_def bs bbind_bmap
        bmap_bbind cong: map_cong)
  then show "performs B (mvls_counter_prog dev_id fam) ?P (\<lambda>_. counter_spec B dev_id fam) (\<lambda>_ _. True)"
    by (rule performs_conseq) (auto intro!: exI [of _ "\<lambda>_. ()"])
  show "length (mvls_counter_prog dev_id fam) \<le> 512"
    using counter_body_length [of dev_id] code_lengths(1) [of dev_id G1_STATS_OP]
    unfolding mvls_counter_prog_code [OF bs] poll_code_def by simp
qed

section \<open>Address table\<close>

text \<open>
  What \<^verbatim>\<open>flush\<close> asks for: the database, or all of them, and the operation code of the
  address table unit: 4 limits it to one database, \<^verbatim>\<open>static\<close> adds 1 and no option adds 2.
\<close>

fun atu_target :: "string list \<Rightarrow> int option" where
  "atu_target [] = None"
| "atu_target (t # args) = (if t = ''all'' then None else Some (fst (strtol t)))"

fun atu_option :: "string list \<Rightarrow> u8" where
  "atu_option [] = 2"
| "atu_option (s # args) = (if s = ''static'' then 1 else 0)"

fun atu_oper :: "string list \<Rightarrow> u8" where
  "atu_oper [] = 2"
| "atu_oper (t # args) = (if t = ''all'' then 0 else 4) + atu_option args"

definition atu_wait_spec :: "'w bus_api \<Rightarrow> u16 \<Rightarrow> ('w, unit) bm" where
  "atu_wait_spec B dev_id = poll MVLS_CMD_BUSY (mvls_rd B dev_id (MVLS_REG MVLS_G1 0x0b))"

definition atu_select_spec :: "'w bus_api \<Rightarrow> u16 \<Rightarrow> int \<Rightarrow> ('w, unit) bm" where
  "atu_select_spec B dev_id fid =
     bbind (mvls_rd B dev_id (MVLS_REG MVLS_G1 0x01))
       (\<lambda>_. mvls_wr B dev_id (MVLS_REG MVLS_G1 0x01) (word_of_int (fid AND 0xfff)))"

definition atu_spec :: "'w bus_api \<Rightarrow> u16 \<Rightarrow> int option \<Rightarrow> u8 \<Rightarrow> ('w, unit) bm" where
  "atu_spec B dev_id fid oper =
     bbind (case fid of None \<Rightarrow> bret () | Some f \<Rightarrow> atu_select_spec B dev_id f) (\<lambda>_.
     bbind (atu_wait_spec B dev_id) (\<lambda>_.
     bbind (modify_spec B dev_id (MVLS_REG MVLS_G1 0x0b) 0xfff
              (push_bit 15 1 OR push_bit 12 (ucast oper))) (\<lambda>_.
     atu_wait_spec B dev_id)))"

definition atu_op_code :: "u16 \<Rightarrow> u8 \<Rightarrow> mdio_prog" where
  "atu_op_code dev_id oper =
     poll_code (rd_code dev_id (MVLS_REG MVLS_G1 0x0b)) MVLS_CMD_BUSY @
     modify_code dev_id (MVLS_REG MVLS_G1 0x0b) 0xfff (push_bit 15 1 OR push_bit 12 (ucast oper)) @
     poll_code (rd_code dev_id (MVLS_REG MVLS_G1 0x0b)) MVLS_CMD_BUSY"

lemma atu_exec_op_code: "atu_exec_op dev_id oper p = p @ atu_op_code dev_id oper"
  by (simp add: atu_exec_op_def atu_op_code_def modify_code_def Let_def mvls_wait_code
      mvls_read_to_code mvls_write_code mdio_prog_push_def)

lemma imm_f0000: "(0xf0000 :: u16) = 0"
  by (simp add: word_uint_eq_iff)

text \<open>The mask of the filter register is the immediate 0xf0000, of which 16 bits are kept: none.\<close>

lemma atu_select_fid_code:
  "atu_select_fid dev_id fid p =
     p @ modify_code dev_id (MVLS_REG MVLS_G1 0x01) 0 (word_of_int (fid AND 0xfff))"
  by (simp add: atu_select_fid_def modify_code_def Let_def mvls_read_to_code mvls_write_code
      mdio_prog_push_def imm_f0000)

lemma modify_length: "length (modify_code dev_id reg m n) \<le> 12"
  using code_lengths(1) [of dev_id reg] code_lengths(2) [of dev_id reg "REG 0"]
  unfolding modify_code_def length_append list.size by linarith

lemma atu_op_performs:
  "indep_r0 P \<Longrightarrow> performs B (atu_op_code dev_id oper) P
     (\<lambda>x. bmap (\<lambda>_. x) (atu_spec B dev_id None oper)) P"
  unfolding atu_op_code_def atu_spec_def atu_wait_spec_def option.case bbind_bret
  by (intro seq_keeps wait_code_performs modify_performs)

lemma atu_select_performs:
  "indep_r0 P \<Longrightarrow> performs B (modify_code dev_id (MVLS_REG MVLS_G1 0x01) 0 (word_of_int (fid AND 0xfff))) P
     (\<lambda>x. bmap (\<lambda>_. x) (atu_select_spec B dev_id fid)) P"
  using modify_performs [where m = 0 and n = "word_of_int (fid AND 0xfff)"]
  by (simp add: modify_spec_def atu_select_spec_def)

lemma atu_op_length: "length (atu_op_code dev_id oper) \<le> 26"
  using code_lengths(1) [of dev_id "MVLS_REG MVLS_G1 0x0b"]
    modify_length [of dev_id "MVLS_REG MVLS_G1 0x0b" "0xfff" "push_bit 15 1 OR push_bit 12 (ucast oper)"]
  unfolding atu_op_code_def poll_code_def length_append list.size by linarith

lemma atu_read_stat_option: "atu_read_stat args oper = oper + atu_option args"
  by (cases args) (simp_all add: atu_read_stat_def argv_pop_def)

lemma mvls_atu_prog_code:
  "mvls_atu_prog dev_id (tok # ''flush'' # args) =
     (case atu_target args of
        None \<Rightarrow> Some (atu_op_code dev_id (atu_oper args))
      | Some fid \<Rightarrow>
          if fid < 0 then None
          else Some (modify_code dev_id (MVLS_REG MVLS_G1 0x01) 0 (word_of_int (fid AND 0xfff)) @
                     atu_op_code dev_id (atu_oper args)))"
  by (cases args)
     (auto simp: mvls_atu_prog_def argv_pop_def atu_exec_op_code atu_select_fid_code
        atu_read_stat_option MDIO_PROG_EMPTY_def case_prod_unfold)



text \<open>An option that is not \<^verbatim>\<open>static\<close> is reported, but the command goes on with operation 0 or 4.\<close>

lemma atu_wrong_option_goes_on:
  assumes "s \<noteq> ''static''"
  shows "mvls_atu_prog dev_id [tok, ''flush'', ''all'', s] = Some (atu_op_code dev_id 0)"
  using assms by (simp add: mvls_atu_prog_code)

end
