(* ===== verification/Mvls_Env.thy ===== *)
theory Mvls_Env
  imports Mvls_Devlink "HOL-Library.Multiset"
begin

text \<open>
  The devices and ports of the tool \<^verbatim>\<open>mvls\<close>, and how \<^verbatim>\<open>mvls.c\<close> finds them: the callbacks of
  the two dumps, the loading of memory regions and the order of the devices. The tail queues of
  devices and ports are lists; the pointers from a port to its device and from a device to the
  environment are the nesting of the lists.
\<close>

section \<open>Devices\<close>

record port =
  p_index :: u32
  p_netdev :: string
  p_flavor :: u16
  p_regs :: devlink_region

record dev =
  d_devlink :: devlink_addr
  d_chip :: chip
  d_index :: nat
  d_ports :: "port list"
  d_global1 :: devlink_region
  d_pvt :: devlink_region

record env =
  multichip :: bool
  e_dl :: devlink
  e_devs :: "dev list"

section \<open>Loading regions\<close>

definition port_load_regs ::
  "'a mnl \<Rightarrow> ('k, 'a) dl_kernel \<Rightarrow> devlink \<Rightarrow> dev \<Rightarrow> port \<Rightarrow> 'k \<Rightarrow> (int \<times> port \<times> 'k) option" where
  "port_load_regs M K dl dev port k =
     (if devlink_region_loaded (p_regs port) then Some (0, port, k)
      else do {
        (err, rg, k) \<leftarrow> devlink_port_region_get K dl (d_devlink dev) (sint (p_index port)) ''port''
          (devlink_region_dup_cb M) (p_regs port) k;
        Some (err, port\<lparr>p_regs := rg\<rparr>, k)
      })"

definition dev_load_pvt ::
  "'a mnl \<Rightarrow> ('k, 'a) dl_kernel \<Rightarrow> devlink \<Rightarrow> dev \<Rightarrow> 'k \<Rightarrow> (int \<times> dev \<times> 'k) option" where
  "dev_load_pvt M K dl dev k =
     (if devlink_region_loaded (d_pvt dev) then Some (0, dev, k)
      else do {
        (err, rg, k) \<leftarrow> devlink_region_get K dl (d_devlink dev) ''pvt'' (devlink_region_dup_cb M) (d_pvt dev) k;
        Some (err, dev\<lparr>d_pvt := rg\<rparr>, k)
      })"

definition dev_init ::
  "'a mnl \<Rightarrow> ('k, 'a) dl_kernel \<Rightarrow> devlink \<Rightarrow> dev \<Rightarrow> 'k \<Rightarrow> (int \<times> dev \<times> 'k) option" where
  "dev_init M K dl dev k = do {
     (err, rg, k) \<leftarrow> devlink_region_get K dl (d_devlink dev) ''global1'' (devlink_region_dup_cb M)
       (d_global1 dev) k;
     let dev = dev\<lparr>d_global1 := rg\<rparr>;
     if err \<noteq> 0 then Some (err, dev, k)
     else do {
       r \<leftarrow> reg16 (d_global1 dev) 0x1c;
       Some (0, dev\<lparr>d_index := unat (reg_bits r 0 5)\<rparr>, k)
     }
   }"

section \<open>Looking up devices\<close>

definition env_dev_get :: "env \<Rightarrow> int \<Rightarrow> int + dev" where
  "env_dev_get env index =
     (case List.find (\<lambda>dev. int (d_index dev) = index) (e_devs env) of
        Some dev \<Rightarrow> Inr dev | None \<Rightarrow> Inl EINVAL)"

definition is_dev :: "string \<Rightarrow> string \<Rightarrow> dev \<Rightarrow> bool" where
  "is_dev busid devid dev \<longleftrightarrow> da_bus (d_devlink dev) = busid \<and> da_dev (d_devlink dev) = devid"

definition env_dev_find :: "env \<Rightarrow> string \<Rightarrow> string \<Rightarrow> int + dev" where
  "env_dev_find env busid devid =
     (case List.find (is_dev busid devid) (e_devs env) of Some dev \<Rightarrow> Inr dev | None \<Rightarrow> Inl ENODEV)"

text \<open>A change of the device that \<^verbatim>\<open>env_dev_find\<close> returned.\<close>

fun update_first :: "('d \<Rightarrow> bool) \<Rightarrow> ('d \<Rightarrow> 'd) \<Rightarrow> 'd list \<Rightarrow> 'd list" where
  "update_first P f [] = []"
| "update_first P f (d # ds) = (if P d then f d # ds else d # update_first P f ds)"

section \<open>Callbacks of the dumps\<close>

definition port_netdev :: "'a mnl \<Rightarrow> 'a option \<Rightarrow> u16 \<Rightarrow> string" where
  "port_netdev M name flavor =
     (case name of
        Some a \<Rightarrow> attr_str M a
      | None \<Rightarrow>
          if flavor = DEVLINK_PORT_FLAVOUR_CPU then ''(cpu)''
          else if flavor = DEVLINK_PORT_FLAVOUR_DSA then ''(dsa)''
          else ''-'')"

definition env_init_port_cb :: "'a mnl \<Rightarrow> ('a, env) mnl_cb" where
  "env_init_port_cb M msg env = do {
     tb \<leftarrow> devlink_parse M msg (\<lambda>_. None);
     Some (case (tb DEVLINK_ATTR_BUS_NAME, tb DEVLINK_ATTR_DEV_NAME, tb DEVLINK_ATTR_PORT_INDEX,
                 tb DEVLINK_ATTR_PORT_FLAVOUR) of
        (Some b, Some d, Some i, Some f) \<Rightarrow>
          (case env_dev_find env (attr_str M b) (attr_str M d) of
             Inl _ \<Rightarrow> (CB_OK, env)
           | Inr dev \<Rightarrow>
               if \<not> m_calloc M then (CB_ERROR, env)
               else
                 let port = \<lparr>p_index = attr_u32 M i,
                             p_netdev = port_netdev M (tb DEVLINK_ATTR_PORT_NETDEV_NAME) (attr_u16 M f),
                             p_flavor = attr_u16 M f, p_regs = []\<rparr> in
                 (CB_OK, env\<lparr>e_devs :=
                    update_first (is_dev (attr_str M b) (attr_str M d))
                      (\<lambda>dev. dev\<lparr>d_ports := d_ports dev @ [port]\<rparr>) (e_devs env)\<rparr>))
      | _ \<Rightarrow> (CB_ERROR, env))
   }"

definition env_dev_add :: "'a mnl \<Rightarrow> env \<Rightarrow> string \<Rightarrow> string \<Rightarrow> string \<Rightarrow> int \<times> env" where
  "env_dev_add M env asicid busid devid =
     (case List.find (\<lambda>chip. chip_id chip = asicid) chips of
        None \<Rightarrow> (ENOSYS, env)
      | Some chip \<Rightarrow>
          if \<not> m_calloc M then (ENOMEM, env)
          else
            let dev = \<lparr>d_devlink = \<lparr>da_bus = busid, da_dev = devid\<rparr>, d_chip = chip, d_index = 0,
                       d_ports = [], d_global1 = [], d_pvt = []\<rparr>;
                env = (if e_devs env \<noteq> [] then env\<lparr>multichip := True\<rparr> else env) in
            (0, env\<lparr>e_devs := e_devs env @ [dev]\<rparr>))"

text \<open>
  The loop over the versions of a device: the value of the first one named \<^verbatim>\<open>asic.id\<close>. The parts of
  every version go into the same table, which is not cleared.
\<close>

fun find_asic_id :: "'a mnl \<Rightarrow> 'a list \<Rightarrow> 'a tb \<Rightarrow> (string option \<times> 'a tb) option" where
  "find_asic_id M [] tb = Some (None, tb)"
| "find_asic_id M (ver # vers) tb =
     (if attr_type M ver \<noteq> DEVLINK_ATTR_INFO_VERSION_FIXED then find_asic_id M vers tb
      else do {
        (err, tb) \<leftarrow> mnl_attr_parse (devlink_attr_cb M) (attr_nested M ver) tb;
        if err \<noteq> CB_OK then find_asic_id M vers tb
        else case (tb DEVLINK_ATTR_INFO_VERSION_NAME, tb DEVLINK_ATTR_INFO_VERSION_VALUE) of
          (Some name, Some val) \<Rightarrow>
            if attr_str M name \<noteq> ''asic.id'' then find_asic_id M vers tb
            else Some (Some (attr_str M val), tb)
        | _ \<Rightarrow> find_asic_id M vers tb
      })"

definition env_init_dev_cb :: "'a mnl \<Rightarrow> ('a, env) mnl_cb" where
  "env_init_dev_cb M msg env = do {
     tb \<leftarrow> devlink_parse M msg (\<lambda>_. None);
     case (tb DEVLINK_ATTR_BUS_NAME, tb DEVLINK_ATTR_DEV_NAME, tb DEVLINK_ATTR_INFO_DRIVER_NAME) of
       (Some _, Some _, Some drv) \<Rightarrow>
         if take 6 (attr_str M drv) \<noteq> ''mv88e6'' then Some (CB_OK, env)
         else do {
           (asic, tb) \<leftarrow> find_asic_id M msg tb;
           case asic of
             None \<Rightarrow> Some (CB_OK, env)
           | Some asicid \<Rightarrow> do {
               b \<leftarrow> tb DEVLINK_ATTR_BUS_NAME;
               d \<leftarrow> tb DEVLINK_ATTR_DEV_NAME;
               let (err, env) = env_dev_add M env asicid (attr_str M b) (attr_str M d);
               Some (if err \<noteq> 0 then CB_ERROR else CB_OK, env)
             }
         }
     | _ \<Rightarrow> Some (CB_ERROR, env)
   }"

section \<open>The order of devices\<close>

text \<open>
  The loop of \<^verbatim>\<open>env_init_dev_sort\<close> when it stands at \<open>dev\<close>, with \<open>pre\<close> before it in the list: \<open>dev\<close> is
  moved behind the devices with smaller indices that follow it, and the loop goes on with what
  was its successor.
\<close>

function (sequential) dev_sort_from :: "dev list \<Rightarrow> dev \<Rightarrow> dev list \<Rightarrow> dev list" where
  "dev_sort_from pre dev [] = pre @ [dev]"
| "dev_sort_from pre dev (next # rest) =
     (if d_index dev < d_index next then dev_sort_from (pre @ [dev]) next rest
      else
        let less = takeWhile (\<lambda>d. d_index d < d_index dev) (next # rest);
            others = dropWhile (\<lambda>d. d_index d < d_index dev) (next # rest) in
        if less = [] then dev_sort_from (pre @ [dev]) next rest
        else dev_sort_from pre next (tl less @ dev # others))"
  by pat_completeness auto
termination
proof (relation "measures [\<lambda>(pre, dev, rest). length rest, \<lambda>(pre, dev, rest). d_index dev]", goal_cases)
  case (4 pre dev "next" rest less others)
  have "length less + length others = Suc (length rest)"
    using arg_cong [OF takeWhile_dropWhile_id [of "\<lambda>d. d_index d < d_index dev" "next # rest"], of length]
    unfolding 4(2,3) by (simp del: takeWhile_dropWhile_id)
  moreover have "d_index next < d_index dev"
    using 4(2,4) by (auto split: if_splits)
  ultimately show ?case using 4(4) by (cases less) auto
qed auto

fun env_init_dev_sort :: "env \<Rightarrow> env" where
  "env_init_dev_sort env =
     (case e_devs env of [] \<Rightarrow> env | dev # rest \<Rightarrow> env\<lparr>e_devs := dev_sort_from [] dev rest\<rparr>)"

section \<open>Initialisation\<close>

fun dev_init_all ::
  "'a mnl \<Rightarrow> ('k, 'a) dl_kernel \<Rightarrow> devlink \<Rightarrow> dev list \<Rightarrow> 'k \<Rightarrow> (int \<times> dev list \<times> 'k) option" where
  "dev_init_all M K dl [] k = Some (0, [], k)"
| "dev_init_all M K dl (dev # devs) k = do {
     (err, dev, k) \<leftarrow> dev_init M K dl dev k;
     if err \<noteq> 0 then Some (err, dev # devs, k)
     else do {
       (err, devs, k) \<leftarrow> dev_init_all M K dl devs k;
       Some (err, dev # devs, k)
     }
   }"

definition env_init ::
  "genl_uapi \<Rightarrow> 'a mnl \<Rightarrow> ('k, 'a) dl_kernel \<Rightarrow> nl_socket \<Rightarrow> env \<Rightarrow> 'k \<Rightarrow> (int \<times> env \<times> 'k) option" where
  "env_init G M K sk env k = do {
     let env = env\<lparr>e_devs := []\<rparr>;
     (err, fam, _, _, k) \<leftarrow> devlink_open G M K sk (dl_family (e_dl env)) k;
     let env = env\<lparr>e_dl := \<lparr>dl_family = fam\<rparr>\<rparr>;
     if err \<noteq> 0 then Some (err, env, k)
     else do {
       (err, env, k) \<leftarrow> devlink_query K
         (devlink_msg_prepare (e_dl env) DEVLINK_CMD_INFO_GET [NLM_F_REQUEST, NLM_F_ACK, NLM_F_DUMP])
         (Some (env_init_dev_cb M)) env k;
       if err \<noteq> 0 then Some (err, env, k)
       else do {
         (err, env, k) \<leftarrow> devlink_query K
           (devlink_msg_prepare (e_dl env) DEVLINK_CMD_PORT_GET [NLM_F_REQUEST, NLM_F_ACK, NLM_F_DUMP])
           (Some (env_init_port_cb M)) env k;
         if err \<noteq> 0 then Some (err, env, k)
         else if e_devs env = [] then Some (- 1, env, k)
         else do {
           (err, devs, k) \<leftarrow> dev_init_all M K (e_dl env) (e_devs env) k;
           let env = env\<lparr>e_devs := devs\<rparr>;
           Some (if err \<noteq> 0 then (err, env, k) else (0, env_init_dev_sort env, k))
         }
       }
     }
   }"

section \<open>What the order of devices is\<close>

text \<open>One step of the loop, and the induction over the loop that follows its steps.\<close>

lemma dev_sort_step:
  obtains (keep) "d_index dev \<le> d_index next"
      "\<And>pre. dev_sort_from pre dev (next # rest) = dev_sort_from (pre @ [dev]) next rest"
  | (move) less others where "rest = less @ others" "d_index next < d_index dev"
      "\<And>pre. dev_sort_from pre dev (next # rest) = dev_sort_from pre next (less @ dev # others)"
proof (cases "d_index next < d_index dev")
  case True
  have "dev_sort_from pre dev (next # rest) =
      dev_sort_from pre next (takeWhile (\<lambda>d. d_index d < d_index dev) rest @
        dev # dropWhile (\<lambda>d. d_index d < d_index dev) rest)" for pre
    using True by (subst dev_sort_from.simps) (simp add: Let_def)
  then show ?thesis
    using True takeWhile_dropWhile_id [symmetric] that(2) by metis
next
  case False
  have "dev_sort_from pre dev (next # rest) = dev_sort_from (pre @ [dev]) next rest" for pre
    using False by (subst dev_sort_from.simps) (simp add: Let_def)
  with False show ?thesis using that(1) by simp
qed

lemma dev_sort_induct [case_names stop keep move]:
  assumes stop: "\<And>pre dev. P pre dev [] (pre @ [dev])"
    and keep: "\<And>pre dev next rest ds. d_index dev \<le> d_index next \<Longrightarrow>
      P (pre @ [dev]) next rest ds \<Longrightarrow> P pre dev (next # rest) ds"
    and move: "\<And>pre dev next less others ds. d_index next < d_index dev \<Longrightarrow>
      P pre next (less @ dev # others) ds \<Longrightarrow> P pre dev (next # less @ others) ds"
  shows "P pre dev rest (dev_sort_from pre dev rest)"
proof -
  let ?R = "measures [\<lambda>(dev, rest). length rest, \<lambda>(dev, rest). d_index dev]"
  have "\<forall>pre. P pre (fst x) (snd x) (dev_sort_from pre (fst x) (snd x))" for x
  proof (induction x rule: wf_induct_rule [OF wf_measures])
    fix x :: "dev \<times> dev list"
    assume IH: "\<forall>pre. P pre (fst y) (snd y) (dev_sort_from pre (fst y) (snd y))" if "(y, x) \<in> ?R" for y
    obtain dev rest where x: "x = (dev, rest)" by (cases x)
    show "\<forall>pre. P pre (fst x) (snd x) (dev_sort_from pre (fst x) (snd x))"
    proof (cases rest)
      case (Cons "next" tail)
      show ?thesis
      proof (cases dev "next" tail rule: dev_sort_step)
        case keep
        then show ?thesis
          using IH [of "(next, tail)"] by (auto simp: x Cons intro: assms(2))
      next
        case (move less others)
        then show ?thesis
          using IH [of "(next, less @ dev # others)"] by (auto simp: x Cons intro: assms(3))
      qed
    qed (simp add: x stop)
  qed
  then show ?thesis by (metis fst_conv snd_conv)
qed

lemma dev_sort_from_mset: "mset (dev_sort_from pre dev rest) = mset pre + {#dev#} + mset rest"
  by (induction pre dev rest rule: dev_sort_induct) auto

lemma dev_sort_from_last:
  "\<forall>x \<in> set (dev # rest). d_index x \<le> d_index (last (dev_sort_from pre dev rest))"
  by (induction pre dev rest rule: dev_sort_induct) auto

lemma dev_sort_from_sorted:
  "sorted (map d_index (dev # rest)) \<Longrightarrow> dev_sort_from pre dev rest = pre @ dev # rest"
proof (induction rest arbitrary: pre dev)
  case (Cons "next" rest)
  then show ?case
    by (cases dev "next" rest rule: dev_sort_step) auto
qed simp

lemma dev_sort_from_two: "length rest \<le> 1 \<Longrightarrow> sorted (map d_index (dev_sort_from [] dev rest))"
  by (cases rest; cases "d_index dev < d_index (hd rest)") (auto simp: Let_def)

lemma dev_sort_from_three:
  assumes "d_index a = 2" and "d_index b = 3" and "d_index c = Suc 0"
  shows "map d_index (dev_sort_from [] a [b, c]) = [2, Suc 0, 3]"
  using assms by (simp add: Let_def)

text \<open>
  C27. The sorting of the devices loses and duplicates none, ends, moves a device with the largest
  index to the end, leaves a sorted list alone and sorts up to two devices. It is one pass of
  bubble sort, which is not enough for three devices: indices 2, 3, 1 come out as 2, 1, 3.
\<close>

theorem env_init_dev_sort_one_pass:
  "let ds = e_devs env; ds' = e_devs (env_init_dev_sort env) in
   mset ds' = mset ds \<and>
   (\<forall>d \<in> set ds. d_index d \<le> d_index (last ds')) \<and>
   (sorted (map d_index ds) \<longrightarrow> ds' = ds) \<and>
   (length ds \<le> 2 \<longrightarrow> sorted (map d_index ds')) \<and>
   (map d_index ds = [2, 3, 1] \<longrightarrow> map d_index ds' = [2, 1, 3])"
proof (cases "e_devs env")
  case (Cons dev rest)
  then have "e_devs (env_init_dev_sort env) = dev_sort_from [] dev rest" by simp
  then show ?thesis
    using Cons dev_sort_from_mset [of "[]" dev rest] dev_sort_from_last [of dev rest "[]"]
      dev_sort_from_sorted [of dev rest "[]"] dev_sort_from_two [of rest dev]
    by (auto simp: Let_def intro: dev_sort_from_three simp del: dev_sort_from.simps
        env_init_dev_sort.simps)
qed simp

definition x_dev :: "nat \<Rightarrow> dev" where
  "x_dev i =
     \<lparr>d_devlink = \<lparr>da_bus = ''mdio_bus'', da_dev = ''sw'' @ dec i\<rparr>, d_chip = hd chips, d_index = i,
      d_ports = [], d_global1 = [], d_pvt = []\<rparr>"

theorem env_init_dev_sort_one_pass_witness:
  "map d_index (e_devs (env_init_dev_sort
     \<lparr>multichip = True, e_dl = \<lparr>dl_family = 20\<rparr>, e_devs = [x_dev 2, x_dev 3, x_dev 1]\<rparr>)) = [2, 1, 3]"
  using env_init_dev_sort_one_pass
    [of "\<lparr>multichip = True, e_dl = \<lparr>dl_family = 20\<rparr>, e_devs = [x_dev 2, x_dev 3, x_dev 1]\<rparr>"]
  by (simp add: x_dev_def Let_def del: env_init_dev_sort.simps)

section \<open>A concrete switch\<close>

text \<open>A kernel with one switch, one port and one VLAN.\<close>

definition x_genl :: genl_uapi where
  "x_genl = \<lparr>CTRL_ATTR_FAMILY_ID = 1, CTRL_ATTR_FAMILY_NAME = 2, CTRL_ATTR_MAX = 10, CTRL_CMD_GETFAMILY = 3,
             GENL_ID_CTRL = 16\<rparr>"

definition x_addr :: "xattr list" where
  "x_addr = [X_Str DEVLINK_ATTR_BUS_NAME ''mdio_bus'', X_Str DEVLINK_ATTR_DEV_NAME ''sw0'']"

definition x_region :: "request \<Rightarrow> u8 list" where
  "x_region rq =
     (if (DEVLINK_ATTR_REGION_NAME, Str ''global1'') \<in> set (rq_attrs rq) then replicate 58 0
      else [1, 0, 0, 0, 0, 0, 5, 0x10, 0x31, 0x33, 0x33, 0x33, 0, 0, 0, 0] @ replicate 16 0)"

definition x_switch :: "(unit, xattr list) dl_kernel" where
  "x_switch = x_kernel (\<lambda>rq.
     if rq_cmd rq = 3 then [[X_Num 1 20]]
     else if rq_cmd rq = DEVLINK_CMD_INFO_GET then
       [x_addr @ [X_Str DEVLINK_ATTR_INFO_DRIVER_NAME ''mv88e6085'',
          X_Nest DEVLINK_ATTR_INFO_VERSION_FIXED
            [X_Str DEVLINK_ATTR_INFO_VERSION_NAME ''asic.id'', X_Str DEVLINK_ATTR_INFO_VERSION_VALUE ''Marvell 88E6352'']]]
     else if rq_cmd rq = DEVLINK_CMD_PORT_GET then
       [x_addr @ [X_Num DEVLINK_ATTR_PORT_INDEX 0, X_Num DEVLINK_ATTR_PORT_FLAVOUR 0,
          X_Str DEVLINK_ATTR_PORT_NETDEV_NAME ''eth0'']]
     else if rq_cmd rq = DEVLINK_CMD_REGION_READ then
       [x_addr @ [X_Nest DEVLINK_ATTR_REGION_CHUNKS
          [X_Nest 94 [X_Bytes DEVLINK_ATTR_REGION_CHUNK_DATA (x_region rq), X_Num DEVLINK_ATTR_REGION_CHUNK_ADDR 0]]]]
     else [])"

definition x_env0 :: env where
  "x_env0 = \<lparr>multichip = False, e_dl = \<lparr>dl_family = 0\<rparr>, e_devs = []\<rparr>"

definition x_sock :: nl_socket where
  "x_sock = \<lparr>sk_malloc = True, sk_open = True, sk_bind = 0\<rparr>"

end
