(* ===== verification/Mvls_Json.thy ===== *)
theory Mvls_Json
  imports Mvls_Env
begin

text \<open>
  The loops over devices and table entries that all listings of \<^verbatim>\<open>mvls\<close> share, and
  \<^verbatim>\<open>src/mvls/mvls-json.c\<close>. A function that prints returns its text; what goes to the standard
  error is left out. \<open>None\<close> is a read outside a region, as when a table has no invalid entry that ends it.
\<close>

section \<open>Loops over tables\<close>

text \<open>\<^verbatim>\<open>while (!dev_op(dev, parse, kentry, &entry))\<close> over the entries that lie in a region.\<close>

fun while_parse ::
  "('r \<Rightarrow> 'e option) \<Rightarrow> ('e \<Rightarrow> 's \<Rightarrow> string \<times> 's) \<Rightarrow> 'r list \<Rightarrow> 's \<Rightarrow> (string \<times> 's) option" where
  "while_parse parse body [] s = None"
| "while_parse parse body (r # rs) s =
     (case parse r of
        None \<Rightarrow> Some ([], s)
      | Some e \<Rightarrow>
          (case body e s of (t, s) \<Rightarrow> do {
             (ts, s) \<leftarrow> while_parse parse body rs s;
             Some (t @ ts, s)
           }))"

text \<open>
  The loop over the devices: a heading, the region of the device, which ends the loop when it cannot be
  read, and what is printed for it. The region is freed after every device.
\<close>

fun foreach_region ::
  "'a mnl \<Rightarrow> ('k, 'a) dl_kernel \<Rightarrow> devlink \<Rightarrow> string \<Rightarrow> (dev \<Rightarrow> string) \<Rightarrow>
   (dev \<Rightarrow> devlink_region \<Rightarrow> 's \<Rightarrow> (string \<times> 's) option) \<Rightarrow> dev list \<Rightarrow> 's \<Rightarrow> 'k \<Rightarrow>
   (string \<times> 's \<times> 'k) option" where
  "foreach_region M K dl name head body [] s k = Some ([], s, k)"
| "foreach_region M K dl name head body (dev # devs) s k = do {
     (err, rg, k) \<leftarrow> devlink_region_get K dl (d_devlink dev) name (devlink_region_dup_cb M) [] k;
     if err \<noteq> 0 then Some (head dev, s, k)
     else do {
       (t, s) \<leftarrow> body dev rg s;
       (ts, s, k) \<leftarrow> foreach_region M K dl name head body devs s k;
       Some (head dev @ t @ ts, s, k)
     }
   }"

definition dev_family :: "dev \<Rightarrow> family" where
  "dev_family dev = chip_family (d_chip dev)"

section \<open>Pieces of text\<close>

definition quoted :: "string \<Rightarrow> string" where
  "quoted s = CHR 0x22 # s @ [CHR 0x22]"

definition dec_int :: "int \<Rightarrow> string" where
  "dec_int i = (if i < 0 then CHR ''-'' # dec (nat (- i)) else dec (nat i))"

definition comma :: "bool \<Rightarrow> string" where
  "comma first = (if first then [] else '','')"

definition port_state :: "string list" where
  "port_state = [''disabled'', ''blocking'', ''learning'', ''forwarding'']"

definition port_fmode :: "string list" where
  "port_fmode = [''normal'', ''dsa'', ''provider'', ''edsa'']"

definition port_emode :: "string list" where
  "port_emode = [''unmodified'', ''untagged'', ''tagged'', ''edsa'']"

definition port_8021q :: "string list" where
  "port_8021q = [''disabled'', ''fallback'', ''check'', ''secure'']"

definition json_atu_uc_str :: "string list" where
  "json_atu_uc_str =
     [''unused'', ''age-1'', ''age-2'', ''age-3'', ''age-4'', ''age-5'', ''age-6'', ''age-7'',
      ''policy'', ''policy-po'', ''nrl'', ''nrl-po'', ''mgmt'', ''mgmt-po'', ''static'', ''static-po'']"

definition json_atu_mc_str :: "string list" where
  "json_atu_mc_str =
     [''unused'', ''resvd1'', ''resvd2'', ''resvd3'', ''policy'', ''nrl'', ''mgmt'', ''static'',
      ''resvd8'', ''resvd9'', ''resvda'', ''resvdb'', ''policy-po'', ''nrl-po'', ''mgmt-po'', ''static-po'']"

section \<open>Ports\<close>

definition json_port :: "dev \<Rightarrow> port \<Rightarrow> string option" where
  "json_port dev port = do {
     ctrl \<leftarrow> reg16 (p_regs port) 4;
     ctrl2 \<leftarrow> reg16 (p_regs port) 8;
     r7 \<leftarrow> reg16 (p_regs port) 7;
     fid \<leftarrow> port_fid (dev_family dev) (p_regs port);
     lag \<leftarrow> port_lag (dev_family dev) (p_regs port);
     Some (''{'' @
       quoted ''netdev'' @ '':'' @ quoted (p_netdev port) @ '','' @
       quoted ''dev'' @ '':'' @ dec (d_index dev) @ '','' @
       quoted ''port'' @ '':'' @ dec_int (sint (p_index port)) @ '','' @
       quoted ''state'' @ '':'' @ quoted (port_state ! unat (reg_bits ctrl 0 2)) @ '','' @
       quoted ''frame-mode'' @ '':'' @ quoted (port_fmode ! unat (reg_bits ctrl 8 2)) @ '','' @
       quoted ''egress-mode'' @ '':'' @ quoted (port_emode ! unat (reg_bits ctrl 12 2)) @ '','' @
       quoted ''802.1q'' @ '':'' @ quoted (port_8021q ! unat (reg_bits ctrl2 10 2)) @ '','' @
       quoted ''pvid'' @ '':'' @ dec (unat (reg_bits r7 0 12)) @ '','' @
       quoted ''fid'' @ '':'' @ dec (unat fid) @
       (if 0 \<le> lag then '','' @ quoted ''lag'' @ '':'' @ dec_int lag else []) @
       (if reg_bit ctrl 2 then '','' @ quoted ''flood-unicast'' @ '':true'' else []) @
       (if reg_bit ctrl 3 then '','' @ quoted ''flood-multicast'' @ '':true'' else []) @
       (if reg_bit ctrl2 8 then '','' @ quoted ''allow-untagged'' @ '':true'' else []) @
       (if reg_bit ctrl2 9 then '','' @ quoted ''allow-tagged'' @ '':true'' else []) @
       ''}'')
   }"

text \<open>The result of loading the registers is ignored, as in the code.\<close>

fun json_ports ::
  "'a mnl \<Rightarrow> ('k, 'a) dl_kernel \<Rightarrow> devlink \<Rightarrow> dev \<Rightarrow> port list \<Rightarrow> bool \<Rightarrow> 'k \<Rightarrow>
   (string \<times> port list \<times> bool \<times> 'k) option" where
  "json_ports M K dl dev [] first k = Some ([], [], first, k)"
| "json_ports M K dl dev (port # ports) first k = do {
     (_, port, k) \<leftarrow> port_load_regs M K dl dev port k;
     t \<leftarrow> json_port dev port;
     (ts, ports, first', k) \<leftarrow> json_ports M K dl dev ports False k;
     Some (comma first @ t @ ts, port # ports, first', k)
   }"

fun json_ports_devs ::
  "'a mnl \<Rightarrow> ('k, 'a) dl_kernel \<Rightarrow> devlink \<Rightarrow> dev list \<Rightarrow> bool \<Rightarrow> 'k \<Rightarrow> (string \<times> dev list \<times> 'k) option" where
  "json_ports_devs M K dl [] first k = Some ([], [], k)"
| "json_ports_devs M K dl (dev # devs) first k = do {
     (t, ports, first, k) \<leftarrow> json_ports M K dl dev (d_ports dev) first k;
     (ts, devs, k) \<leftarrow> json_ports_devs M K dl devs first k;
     Some (t @ ts, dev\<lparr>d_ports := ports\<rparr> # devs, k)
   }"

definition env_json_ports ::
  "'a mnl \<Rightarrow> ('k, 'a) dl_kernel \<Rightarrow> env \<Rightarrow> 'k \<Rightarrow> (string \<times> env \<times> 'k) option" where
  "env_json_ports M K env k = do {
     (t, devs, k) \<leftarrow> json_ports_devs M K (e_dl env) (e_devs env) True k;
     Some (quoted ''ports'' @ '':['' @ t @ '']'', env\<lparr>e_devs := devs\<rparr>, k)
   }"

section \<open>Port vectors\<close>

fun json_portvec_from :: "nat list \<Rightarrow> bool \<Rightarrow> u16 \<Rightarrow> string" where
  "json_portvec_from [] first portvec = []"
| "json_portvec_from (i # is) first portvec =
     (if \<not> reg_bit portvec i then json_portvec_from is first portvec
      else comma first @ dec i @ json_portvec_from is False portvec)"

definition json_print_portvec :: "string \<Rightarrow> u16 \<Rightarrow> string" where
  "json_print_portvec name portvec =
     '','' @ quoted name @ '':['' @ json_portvec_from [0 ..< 11] True portvec @ '']''"

section \<open>The address table\<close>

definition json_override :: "string \<Rightarrow> prio_override \<Rightarrow> string" where
  "json_override name p =
     (if po_set p then '','' @ quoted name @ '': '' @ dec (unat (po_pri p)) else [])"

definition atu_state_str :: "string list \<Rightarrow> string list \<Rightarrow> atu_entry \<Rightarrow> string" where
  "atu_state_str mc uc e =
     (if a_addr e ! 0 AND 1 \<noteq> 0 then mc ! unat (a_state e) else uc ! unat (a_state e))"

fun mac_str :: "u8 list \<Rightarrow> string" where
  "mac_str [] = []"
| "mac_str [b] = hex_pad 2 (unat b)"
| "mac_str (b # bs) = hex_pad 2 (unat b) @ '':'' @ mac_str bs"

definition json_atu_entry :: "dev \<Rightarrow> atu_entry \<Rightarrow> bool \<Rightarrow> string \<times> bool" where
  "json_atu_entry dev e first =
     (comma first @ ''{'' @
      quoted ''dev'' @ '':'' @ dec (d_index dev) @ '','' @
      quoted ''fid'' @ '':'' @ dec (unat (a_fid e)) @ '','' @
      quoted ''address'' @ '':'' @ quoted (mac_str (a_addr e)) @ '','' @
      quoted ''state'' @ '':'' @ quoted (atu_state_str json_atu_mc_str json_atu_uc_str e) @
      json_override ''queue-prio-override'' (a_qpri e) @
      json_override ''frame-prio-override'' (a_fpri e) @
      (if a_lag e then '','' @ quoted ''lag'' @ '': '' @ dec (unat (a_portvec e))
       else json_print_portvec ''ports'' (a_portvec e)) @
      ''}'', False)"

definition env_json_atu ::
  "'a mnl \<Rightarrow> ('k, 'a) dl_kernel \<Rightarrow> env \<Rightarrow> 'k \<Rightarrow> (string \<times> env \<times> 'k) option" where
  "env_json_atu M K env k = do {
     (t, _, k) \<leftarrow> foreach_region M K (e_dl env) ''atu'' (\<lambda>_. [])
       (\<lambda>dev rg. while_parse (atu_parse (dev_family dev)) (json_atu_entry dev) (atu_kentries (u16s rg)))
       (e_devs env) True k;
     Some (quoted ''atu'' @ '':['' @ t @ '']'', env, k)
   }"

section \<open>The VLAN table\<close>

text \<open>The three port vectors are variables of the whole function; no entry starts from empty ones.\<close>

type_synonym vtu_masks = "u16 \<times> u16 \<times> u16"

definition vtu_mask_step :: "vtu_entry \<Rightarrow> nat \<Rightarrow> vtu_masks \<Rightarrow> vtu_masks" where
  "vtu_mask_step e i masks =
     (case masks of (unmod, untag, tag) \<Rightarrow>
        case v_member e ! i of
          VTU_UNMODIFIED \<Rightarrow> (unmod OR push_bit i 1, untag, tag)
        | VTU_UNTAGGED \<Rightarrow> (unmod, untag OR push_bit i 1, tag)
        | VTU_TAGGED \<Rightarrow> (unmod, untag, tag OR push_bit i 1)
        | VTU_NOT_MEMBER \<Rightarrow> (unmod, untag, tag))"

definition vtu_add_masks :: "vtu_entry \<Rightarrow> vtu_masks \<Rightarrow> vtu_masks" where
  "vtu_add_masks e masks = fold (vtu_mask_step e) [0 ..< 11] masks"

definition json_vtu_object :: "dev \<Rightarrow> vtu_entry \<Rightarrow> vtu_masks \<Rightarrow> string" where
  "json_vtu_object dev e masks =
     ''{'' @
     quoted ''dev'' @ '':'' @ dec (d_index dev) @ '','' @
     quoted ''vid'' @ '':'' @ dec (unat (v_vid e)) @ '','' @
     quoted ''fid'' @ '':'' @ dec (unat (v_fid e)) @ '','' @
     quoted ''sid'' @ '':'' @ dec (unat (v_sid e)) @
     (if v_policy e then '','' @ quoted ''policy'' @ '': true'' else []) @
     json_override ''queue-prio-override'' (v_qpri e) @
     json_override ''frame-prio-override'' (v_fpri e) @
     json_print_portvec ''unmodified'' (fst masks) @
     json_print_portvec ''untagged'' (fst (snd masks)) @
     json_print_portvec ''tagged'' (snd (snd masks)) @
     ''}''"

definition json_vtu_entry :: "dev \<Rightarrow> vtu_entry \<Rightarrow> bool \<times> vtu_masks \<Rightarrow> string \<times> bool \<times> vtu_masks" where
  "json_vtu_entry dev e s =
     (case s of (first, masks) \<Rightarrow>
        let masks = vtu_add_masks e masks in (comma first @ json_vtu_object dev e masks, False, masks))"

definition env_json_vtu ::
  "'a mnl \<Rightarrow> ('k, 'a) dl_kernel \<Rightarrow> env \<Rightarrow> 'k \<Rightarrow> (string \<times> env \<times> 'k) option" where
  "env_json_vtu M K env k = do {
     (t, _, k) \<leftarrow> foreach_region M K (e_dl env) ''vtu'' (\<lambda>_. [])
       (\<lambda>dev rg. while_parse (vtu_parse (dev_family dev)) (json_vtu_entry dev) (vtu_kentries (u16s rg)))
       (e_devs env) (True, 0, 0, 0) k;
     Some (quoted ''vtu'' @ '':['' @ t @ '']'', env, k)
   }"

section \<open>The spanning tree table\<close>

type_synonym stu_masks = "u16 \<times> u16 \<times> u16 \<times> u16"

definition stu_mask_step :: "stu_entry \<Rightarrow> nat \<Rightarrow> stu_masks \<Rightarrow> stu_masks" where
  "stu_mask_step e i masks =
     (case masks of (dis, blk, lrn, fwd) \<Rightarrow>
        case s_state e ! i of
          STU_DISABLED \<Rightarrow> (dis OR push_bit i 1, blk, lrn, fwd)
        | STU_BLOCKING \<Rightarrow> (dis, blk OR push_bit i 1, lrn, fwd)
        | STU_LEARNING \<Rightarrow> (dis, blk, lrn OR push_bit i 1, fwd)
        | STU_FORWARDING \<Rightarrow> (dis, blk, lrn, fwd OR push_bit i 1))"

definition stu_add_masks :: "stu_entry \<Rightarrow> stu_masks \<Rightarrow> stu_masks" where
  "stu_add_masks e masks = fold (stu_mask_step e) [0 ..< 11] masks"

definition json_stu_object :: "dev \<Rightarrow> stu_entry \<Rightarrow> stu_masks \<Rightarrow> string" where
  "json_stu_object dev e masks =
     (case masks of (dis, blk, lrn, fwd) \<Rightarrow>
        ''{'' @
        quoted ''dev'' @ '':'' @ dec (d_index dev) @ '','' @
        quoted ''sid'' @ '':'' @ dec (unat (s_sid e)) @
        json_print_portvec ''disabled'' dis @
        json_print_portvec ''blocking'' blk @
        json_print_portvec ''learning'' lrn @
        json_print_portvec ''forwarding'' fwd @
        ''}'')"

definition json_stu_entry :: "dev \<Rightarrow> stu_entry \<Rightarrow> bool \<times> stu_masks \<Rightarrow> string \<times> bool \<times> stu_masks" where
  "json_stu_entry dev e s =
     (case s of (first, masks) \<Rightarrow>
        let masks = stu_add_masks e masks in (comma first @ json_stu_object dev e masks, False, masks))"

definition env_json_stu ::
  "'a mnl \<Rightarrow> ('k, 'a) dl_kernel \<Rightarrow> env \<Rightarrow> 'k \<Rightarrow> (string \<times> env \<times> 'k) option" where
  "env_json_stu M K env k = do {
     (t, _, k) \<leftarrow> foreach_region M K (e_dl env) ''stu'' (\<lambda>_. [])
       (\<lambda>dev rg. while_parse (stu_parse (dev_family dev)) (json_stu_entry dev) (stu_kentries (u16s rg)))
       (e_devs env) (True, 0, 0, 0, 0) k;
     Some (quoted ''stu'' @ '':['' @ t @ '']'', env, k)
   }"

section \<open>Around the listings\<close>

definition json_prologue :: string where "json_prologue = ''{''"
definition json_join :: string where "json_join = '',''"
definition json_epilogue :: string where "json_epilogue = ''}''"

end
