(* ===== verification/Mvls_Show.thy ===== *)
theory Mvls_Show
  imports Mvls_Json
begin

text \<open>
  \<^verbatim>\<open>src/mvls/mvls-show.c\<close>: the listings for people. As in \<open>Mvls_Json\<close> a function that prints returns
  its text, and a listing that has to load regions returns the environment with them.
\<close>

section \<open>Pieces of text\<close>

definition pad_left :: "nat \<Rightarrow> string \<Rightarrow> string" where
  "pad_left w s = replicate (w - length s) CHR '' '' @ s"

definition pad_right :: "nat \<Rightarrow> string \<Rightarrow> string" where
  "pad_right w s = s @ replicate (w - length s) CHR '' ''"

definition hex :: "nat \<Rightarrow> string" where
  "hex n = digits_in 16 n"

definition esc :: "string \<Rightarrow> string" where
  "esc s = CHR 0x1B # s"

definition inverse_line :: "string \<Rightarrow> string" where
  "inverse_line s = esc ''[7m'' @ s @ esc ''[0m'' @ [CHR 0x0A]"

definition dev_heading :: "nat \<Rightarrow> dev \<Rightarrow> string" where
  "dev_heading w dev =
     esc ''[2m'' @ inverse_line (''DEV:'' @ hex (d_index dev) @ '' '' @ pad_right w (chip_id (d_chip dev)))"

definition prio_c :: "prio_override \<Rightarrow> string" where
  "prio_c prio = (if \<not> po_set prio then ''-'' else [char_of (48 + unat (po_pri prio))])"

definition show_atu_uc_str :: "string list" where
  "show_atu_uc_str =
     [''UNUSED'', ''age 1'', ''age 2'', ''age 3'', ''age 4'', ''age 5'', ''age 6'', ''age 7'',
      ''policy'', ''policy-po'', ''nrl'', ''nrl-po'', ''mgmt'', ''mgmt-po'', ''static'', ''static-po'']"

definition show_atu_mc_str :: "string list" where
  "show_atu_mc_str =
     [''UNUSED'', ''resvd1'', ''resvd2'', ''resvd3'', ''policy'', ''nrl'', ''mgmt'', ''static'',
      ''resvd8'', ''resvd9'', ''resvda'', ''resvdb'', ''policy-po'', ''nrl-po'', ''mgmt-po'', ''static-po'']"

definition port_fmode_c :: string where "port_fmode_c = ''nDPE''"
definition port_emode_c :: string where "port_emode_c = ''=utD''"
definition port_state_c :: string where "port_state_c = ''-BLf''"
definition port_qmode_c :: string where "port_qmode_c = ''-FCs''"

definition port_link_str :: "devlink_region \<Rightarrow> string option" where
  "port_link_str rg = do {
     stat \<leftarrow> reg16 rg 0;
     let speed = reg_bits stat 8 2;
     let full = reg_bit stat 10;
     Some (if \<not> reg_bit stat 11 then ''-''
           else if speed = 0 then (if full then ''10'' else ''10h'')
           else if speed = 1 then (if full then ''100'' else ''100h'')
           else if speed = 2 then (if full then ''1G'' else ''1Gh'')
           else if speed = 3 then (if full then ''XG'' else ''XGh'')
           else ''NONE'')
   }"

definition port_lag_str :: "dev \<Rightarrow> port \<Rightarrow> string option" where
  "port_lag_str dev port = do {
     lag \<leftarrow> port_lag (dev_family dev) (p_regs port);
     Some (if lag < 0 then ''-'' else take 2 (dec_int (lag AND 0x1f)))
   }"

definition dev_print_portvec :: "dev \<Rightarrow> u16 \<Rightarrow> string" where
  "dev_print_portvec dev portvec =
     concat (map (\<lambda>i. if reg_bit portvec i then ''  '' @ hex i
                      else if n_ports (d_chip dev) \<le> i then ''   '' else ''  .'') [0 ..< 11])"

section \<open>Ports\<close>

definition show_port :: "dev \<Rightarrow> port \<Rightarrow> string option" where
  "show_port dev port = do {
     ctrl \<leftarrow> reg16 (p_regs port) 4;
     ctrl2 \<leftarrow> reg16 (p_regs port) 8;
     link \<leftarrow> port_link_str (p_regs port);
     lag \<leftarrow> port_lag_str dev port;
     r7 \<leftarrow> reg16 (p_regs port) 7;
     fid \<leftarrow> port_fid (dev_family dev) (p_regs port);
     Some (pad_right 8 (p_netdev port) @ ''  '' @ hex (unat (p_index port)) @ ''  '' @
       pad_left 4 link @ ''  '' @
       [port_fmode_c ! unat (reg_bits ctrl 8 2), port_emode_c ! unat (reg_bits ctrl 12 2)] @ ''  '' @
       (if reg_bit ctrl 2 then ''u'' else ''-'') @ (if reg_bit ctrl 3 then ''m'' else ''-'') @ ''  '' @
       [port_state_c ! unat (reg_bits ctrl 0 2)] @ '' '' @ pad_left 2 lag @ ''  '' @
       [port_qmode_c ! unat (reg_bits ctrl2 10 2)] @
       (if reg_bit ctrl2 8 then ''-'' else ''u'') @ (if reg_bit ctrl2 9 then ''-'' else ''t'') @ ''  '' @
       pad_left 4 (dec (unat (reg_bits r7 0 12))) @ ''  '' @ pad_left 4 (dec (unat fid)) @
       (if reg_bit ctrl2 7 then [] else ''!map'') @ [CHR 0x0A])
   }"

fun show_ports ::
  "'a mnl \<Rightarrow> ('k, 'a) dl_kernel \<Rightarrow> devlink \<Rightarrow> dev \<Rightarrow> port list \<Rightarrow> 'k \<Rightarrow> (string \<times> port list \<times> 'k) option" where
  "show_ports M K dl dev [] k = Some ([], [], k)"
| "show_ports M K dl dev (port # ports) k = do {
     (_, port, k) \<leftarrow> port_load_regs M K dl dev port k;
     t \<leftarrow> show_port dev port;
     (ts, ports, k) \<leftarrow> show_ports M K dl dev ports k;
     Some (t @ ts, port # ports, k)
   }"

fun show_ports_devs ::
  "'a mnl \<Rightarrow> ('k, 'a) dl_kernel \<Rightarrow> devlink \<Rightarrow> dev list \<Rightarrow> 'k \<Rightarrow> (string \<times> dev list \<times> 'k) option" where
  "show_ports_devs M K dl [] k = Some ([], [], k)"
| "show_ports_devs M K dl (dev # devs) k = do {
     (t, ports, k) \<leftarrow> show_ports M K dl dev (d_ports dev) k;
     (ts, devs, k) \<leftarrow> show_ports_devs M K dl devs k;
     Some (dev_heading 42 dev @ t @ ts, dev\<lparr>d_ports := ports\<rparr> # devs, k)
   }"

definition env_show_ports ::
  "'a mnl \<Rightarrow> ('k, 'a) dl_kernel \<Rightarrow> env \<Rightarrow> 'k \<Rightarrow> (string \<times> env \<times> 'k) option" where
  "env_show_ports M K env k = do {
     (t, devs, k) \<leftarrow> show_ports_devs M K (e_dl env) (e_devs env) k;
     Some (inverse_line ''NETDEV    P  LINK  MO  FL  S  L  .1Q  PVID   FID'' @ t,
           env\<lparr>e_devs := devs\<rparr>, k)
   }"

section \<open>Tables\<close>

definition show_atu_entry :: "dev \<Rightarrow> atu_entry \<Rightarrow> unit \<Rightarrow> string \<times> unit" where
  "show_atu_entry dev e u =
     (mac_str (a_addr e) @ ''  '' @ pad_left 4 (dec (unat (a_fid e))) @ ''  '' @
      pad_right 9 (atu_state_str show_atu_mc_str show_atu_uc_str e) @ ''  '' @
      prio_c (a_qpri e) @ ''  '' @ prio_c (a_fpri e) @
      (if a_lag e then ''  lag '' @ hex (unat (a_portvec e)) else dev_print_portvec dev (a_portvec e)) @
      [CHR 0x0A], ())"

definition env_show_atu ::
  "'a mnl \<Rightarrow> ('k, 'a) dl_kernel \<Rightarrow> env \<Rightarrow> 'k \<Rightarrow> (string \<times> env \<times> 'k) option" where
  "env_show_atu M K env k = do {
     (t, _, k) \<leftarrow> foreach_region M K (e_dl env) ''atu'' (dev_heading 67)
       (\<lambda>dev rg. while_parse (atu_parse (dev_family dev)) (show_atu_entry dev) (atu_kentries (u16s rg)))
       (e_devs env) () k;
     Some (inverse_line ''ADDRESS             FID  STATE      Q  F  0  1  2  3  4  5  6  7  8  9  a'' @ t,
           env, k)
   }"

definition show_vtu_member :: "dev \<Rightarrow> nat \<Rightarrow> vtu_member \<Rightarrow> string" where
  "show_vtu_member dev i m =
     (case m of
        VTU_UNMODIFIED \<Rightarrow> if n_ports (d_chip dev) \<le> i then ''   '' else ''  =''
      | VTU_UNTAGGED \<Rightarrow> ''  u''
      | VTU_TAGGED \<Rightarrow> ''  t''
      | VTU_NOT_MEMBER \<Rightarrow> ''  .'')"

definition show_vtu_entry :: "dev \<Rightarrow> vtu_entry \<Rightarrow> unit \<Rightarrow> string \<times> unit" where
  "show_vtu_entry dev e u =
     (pad_left 4 (dec (unat (v_vid e))) @ ''  '' @ pad_left 4 (dec (unat (v_fid e))) @ ''  '' @
      pad_left 3 (dec (unat (v_sid e))) @ ''  '' @ (if v_policy e then ''y'' else ''-'') @ ''  '' @
      prio_c (v_qpri e) @ ''  '' @ prio_c (v_fpri e) @
      concat (map (\<lambda>i. show_vtu_member dev i (v_member e ! i)) [0 ..< 11]) @ [CHR 0x0A], ())"

definition env_show_vtu ::
  "'a mnl \<Rightarrow> ('k, 'a) dl_kernel \<Rightarrow> env \<Rightarrow> 'k \<Rightarrow> (string \<times> env \<times> 'k) option" where
  "env_show_vtu M K env k = do {
     (t, _, k) \<leftarrow> foreach_region M K (e_dl env) ''vtu'' (dev_heading 51)
       (\<lambda>dev rg. while_parse (vtu_parse (dev_family dev)) (show_vtu_entry dev) (vtu_kentries (u16s rg)))
       (e_devs env) () k;
     Some (inverse_line '' VID   FID  SID  P  Q  F  0  1  2  3  4  5  6  7  8  9  a'' @ t, env, k)
   }"

definition show_stu_state :: "dev \<Rightarrow> nat \<Rightarrow> stu_state \<Rightarrow> string" where
  "show_stu_state dev i s =
     (if s = STU_DISABLED then (if n_ports (d_chip dev) \<le> i then ''   '' else ''  -'')
      else ''  '' @ [port_state_c ! unat (stu_state_code s)])"

definition show_stu_entry :: "dev \<Rightarrow> stu_entry \<Rightarrow> unit \<Rightarrow> string \<times> unit" where
  "show_stu_entry dev e u =
     (pad_left 3 (dec (unat (s_sid e))) @
      concat (map (\<lambda>i. show_stu_state dev i (s_state e ! i)) [0 ..< 11]) @ [CHR 0x0A], ())"

definition env_show_stu ::
  "'a mnl \<Rightarrow> ('k, 'a) dl_kernel \<Rightarrow> env \<Rightarrow> 'k \<Rightarrow> (string \<times> env \<times> 'k) option" where
  "env_show_stu M K env k = do {
     (t, _, k) \<leftarrow> foreach_region M K (e_dl env) ''stu'' (dev_heading 30)
       (\<lambda>dev rg. while_parse (stu_parse (dev_family dev)) (show_stu_entry dev) (stu_kentries (u16s rg)))
       (e_devs env) () k;
     Some (inverse_line ''SID  0  1  2  3  4  5  6  7  8  9  a'' @ t, env, k)
   }"

section \<open>The port VLAN table of one device\<close>

text \<open>The Boolean says whether all registers could be loaded; otherwise the function returns.\<close>

fun show_pvt_ports ::
  "'a mnl \<Rightarrow> ('k, 'a) dl_kernel \<Rightarrow> devlink \<Rightarrow> dev \<Rightarrow> port list \<Rightarrow> 'k \<Rightarrow>
   (string \<times> bool \<times> port list \<times> 'k) option" where
  "show_pvt_ports M K dl dev [] k = Some ([], True, [], k)"
| "show_pvt_ports M K dl dev (port # ports) k = do {
     (err, port, k) \<leftarrow> port_load_regs M K dl dev port k;
     if err \<noteq> 0 then Some ([], False, port # ports, k)
     else do {
       r6 \<leftarrow> reg16 (p_regs port) 6;
       (ts, ok, ports, k) \<leftarrow> show_pvt_ports M K dl dev ports k;
       Some (pad_left 2 (hex (d_index dev)) @ '' '' @ hex (unat (p_index port)) @
               dev_print_portvec dev (reg_bits r6 0 11) @ [CHR 0x0A] @ ts, ok, port # ports, k)
     }
   }"

fun show_pvt_entries :: "dev \<Rightarrow> (nat \<times> nat) list \<Rightarrow> string option" where
  "show_pvt_entries dev [] = Some []"
| "show_pvt_entries dev ((di, pi) # is) = do {
     portvec \<leftarrow> reg16 (d_pvt dev) (int (16 * di + pi));
     ts \<leftarrow> show_pvt_entries dev is;
     Some ((if portvec \<noteq> 0
            then pad_left 2 (hex di) @ '' '' @ hex pi @ dev_print_portvec dev (reg_bits portvec 0 11) @ [CHR 0x0A]
            else []) @ ts)
   }"

definition dev_show_pvt ::
  "'a mnl \<Rightarrow> ('k, 'a) dl_kernel \<Rightarrow> devlink \<Rightarrow> dev \<Rightarrow> 'k \<Rightarrow> (string \<times> dev \<times> 'k) option" where
  "dev_show_pvt M K dl dev k = do {
     let head = inverse_line '' D P  0  1  2  3  4  5  6  7  8  9  a'';
     (t, ok, ports, k) \<leftarrow> show_pvt_ports M K dl dev (d_ports dev) k;
     let dev = dev\<lparr>d_ports := ports\<rparr>;
     if \<not> ok then Some (head @ t, dev, k)
     else do {
       (err, dev, k) \<leftarrow> dev_load_pvt M K dl dev k;
       if err \<noteq> 0 then Some (head @ t, dev, k)
       else do {
         ts \<leftarrow> show_pvt_entries dev (List.product [0 ..< 32] [0 ..< 16]);
         Some (head @ t @ ts, dev, k)
       }
     }
   }"

section \<open>The matrix of all ports\<close>

text \<open>Both numbers are shift distances, which C leaves undefined from 32 on.\<close>

definition pvt_print_cell :: "u16 \<Rightarrow> u16 \<Rightarrow> nat \<Rightarrow> nat \<Rightarrow> string option" where
  "pvt_print_cell spvt dpvt src dst =
     (if 32 \<le> src \<or> 32 \<le> dst then None
      else Some
        (if reg_bit spvt dst \<and> reg_bit dpvt src then '' x''
         else if reg_bit spvt dst then '' ^''
         else if reg_bit dpvt src then '' <''
         else '' .''))"

definition pvt_index :: "dev \<Rightarrow> port \<Rightarrow> int" where
  "pvt_index dev port = int (16 * d_index dev) + sint (p_index port)"

definition pvt_cell :: "bool \<Rightarrow> dev \<Rightarrow> port \<Rightarrow> dev \<Rightarrow> port \<Rightarrow> string option" where
  "pvt_cell same sdev sport dev port = do {
     spvt \<leftarrow> if same then reg16 (p_regs sport) 6 else reg16 (d_pvt dev) (pvt_index sdev sport);
     dpvt \<leftarrow> if same then reg16 (p_regs port) 6 else reg16 (d_pvt sdev) (pvt_index dev port);
     pvt_print_cell spvt dpvt (unat (p_index sport)) (unat (p_index port))
   }"

text \<open>The results of a list of computations, in order.\<close>

fun texts :: "string option list \<Rightarrow> string option" where
  "texts [] = Some []"
| "texts (t # ts) = do { t \<leftarrow> t; ts \<leftarrow> texts ts; Some (t @ ts) }"

definition lag_bits :: "u32 \<Rightarrow> nat list" where
  "lag_bits lags = filter (\<lambda>lag. bit lags lag) [0 ..< 16]"

text \<open>Devices are compared by their place \<open>i\<close>, \<open>j\<close> in the list, as the code compares pointers.\<close>

definition env_show_pvt_port :: "dev list \<Rightarrow> nat \<Rightarrow> dev \<Rightarrow> port \<Rightarrow> u32 \<Rightarrow> string option" where
  "env_show_pvt_port devs i sdev sport lags = do {
     t \<leftarrow> texts (map (\<lambda>j. do {
            t \<leftarrow> texts (map (pvt_cell (i = j) sdev sport (devs ! j)) (d_ports (devs ! j)));
            Some (t @ (if Suc j < length devs \<or> lags \<noteq> 0 then '' '' else []))
          }) [0 ..< length devs]);
     l \<leftarrow> texts (map (\<lambda>lag. do {
            dpvt \<leftarrow> reg16 (d_pvt sdev) (int (0x1f * 16 + lag));
            pvt_print_cell 0 dpvt (unat (p_index sport)) 0
          }) (lag_bits lags));
     Some (esc ''[7m'' @ hex (d_index sdev) @ '' '' @ hex (unat (p_index sport)) @ esc ''[0m'' @
           t @ l @ [CHR 0x0A])
   }"

fun pvt_load_ports ::
  "'a mnl \<Rightarrow> ('k, 'a) dl_kernel \<Rightarrow> devlink \<Rightarrow> dev \<Rightarrow> port list \<Rightarrow> u32 \<Rightarrow> 'k \<Rightarrow>
   (string \<times> bool \<times> port list \<times> u32 \<times> 'k) option" where
  "pvt_load_ports M K dl dev [] lags k = Some ([], True, [], lags, k)"
| "pvt_load_ports M K dl dev (port # ports) lags k = do {
     (err, port, k) \<leftarrow> port_load_regs M K dl dev port k;
     if err \<noteq> 0 then Some ([], False, port # ports, lags, k)
     else do {
       lag \<leftarrow> port_lag (dev_family dev) (p_regs port);
       (ts, ok, ports, lags, k) \<leftarrow> pvt_load_ports M K dl dev ports
         (if 0 \<le> lag then lags OR push_bit (nat lag) 1 else lags) k;
       Some ('' '' @ hex (d_index dev) @ ts, ok, port # ports, lags, k)
     }
   }"

fun pvt_load_devs ::
  "'a mnl \<Rightarrow> ('k, 'a) dl_kernel \<Rightarrow> devlink \<Rightarrow> dev list \<Rightarrow> u32 \<Rightarrow> 'k \<Rightarrow>
   (string \<times> bool \<times> dev list \<times> u32 \<times> 'k) option" where
  "pvt_load_devs M K dl [] lags k = Some ([], True, [], lags, k)"
| "pvt_load_devs M K dl (dev # devs) lags k = do {
     (err, dev, k) \<leftarrow> dev_load_pvt M K dl dev k;
     if err \<noteq> 0 then Some ([], False, dev # devs, lags, k)
     else do {
       (t, ok, ports, lags, k) \<leftarrow> pvt_load_ports M K dl dev (d_ports dev) lags k;
       let dev = dev\<lparr>d_ports := ports\<rparr>;
       if \<not> ok then Some (t, False, dev # devs, lags, k)
       else do {
         (ts, ok, devs', lags, k) \<leftarrow> pvt_load_devs M K dl devs lags k;
         Some (t @ (if devs \<noteq> [] then '' '' else []) @ ts, ok, dev # devs', lags, k)
       }
     }
   }"

definition pvt_heading :: "dev list \<Rightarrow> u32 \<Rightarrow> string" where
  "pvt_heading devs lags =
     (if lags \<noteq> 0 then '' '' else []) @ concat (map (\<lambda>_. '' L'') (lag_bits lags)) @
     [CHR 0x0A] @ ''  P'' @
     concat (map (\<lambda>j. concat (map (\<lambda>port. '' '' @ hex (unat (p_index port))) (d_ports (devs ! j))) @
                      (if Suc j < length devs \<or> lags \<noteq> 0 then '' '' else [])) [0 ..< length devs]) @
     concat (map (\<lambda>lag. '' '' @ hex lag) (lag_bits lags)) @ esc ''[0m'' @ [CHR 0x0A]"

definition env_show_pvt ::
  "'a mnl \<Rightarrow> ('k, 'a) dl_kernel \<Rightarrow> env \<Rightarrow> 'k \<Rightarrow> (string \<times> env \<times> 'k) option" where
  "env_show_pvt M K env k = do {
     (t, ok, devs, lags, k) \<leftarrow> pvt_load_devs M K (e_dl env) (e_devs env) 0 k;
     let env = env\<lparr>e_devs := devs\<rparr>;
     let head = esc ''[7m'' @ ''D  '' @ t;
     if \<not> ok then Some (head, env, k)
     else do {
       rows \<leftarrow> texts (map (\<lambda>i. do {
           t \<leftarrow> texts (map (\<lambda>port. env_show_pvt_port devs i (devs ! i) port lags) (d_ports (devs ! i)));
           Some (t @ (if Suc i < length devs then inverse_line ''   '' else []))
         }) [0 ..< length devs]);
       Some (head @ pvt_heading devs lags @ rows, env, k)
     }
   }"

definition show_join :: string where "show_join = [CHR 0x0A]"

end
