(* ===== verification/Mvls_Json_Correct.thy ===== *)
theory Mvls_Json_Correct
  imports Mvls_Json
begin

text \<open>
  What \<^verbatim>\<open>mvls -j\<close> prints: every listing is a member of a JSON object, and which ports the VLAN
  listing names.
\<close>

section \<open>JSON\<close>

datatype json = J_Num int | J_Str string | J_True | J_Arr "json list" | J_Obj "(string \<times> json) list"

text \<open>Characters that a string may hold without an escape.\<close>

definition plain :: "string \<Rightarrow> bool" where
  "plain s \<longleftrightarrow> list_all (\<lambda>c. c \<noteq> CHR 0x22 \<and> c \<noteq> CHR 0x5C \<and> 32 \<le> (of_char c :: nat)) s"

primrec comma_list :: "bool \<Rightarrow> string list \<Rightarrow> string" where
  "comma_list first [] = []"
| "comma_list first (t # ts) = comma first @ t @ comma_list False ts"

text \<open>The texts that stand for a value: the part of the grammar of RFC 8259 that is needed here.\<close>

inductive json_text :: "json \<Rightarrow> string \<Rightarrow> bool" where
  num: "json_text (J_Num i) (dec_int i)"
| str: "plain s \<Longrightarrow> json_text (J_Str s) (quoted s)"
| true: "json_text J_True ''true''"
| space: "json_text j t \<Longrightarrow> json_text j ('' '' @ t)"
| arr: "list_all2 json_text js ts \<Longrightarrow> json_text (J_Arr js) (''['' @ comma_list True ts @ '']'')"
| obj: "list_all2 (\<lambda>m t. plain (fst m) \<and> (\<exists>v. json_text (snd m) v \<and> t = quoted (fst m) @ '':'' @ v)) ms ts \<Longrightarrow>
        json_text (J_Obj ms) (''{'' @ comma_list True ts @ ''}'')"

inductive_cases json_text_objE: "json_text (J_Obj ms) t"

definition is_json :: "string \<Rightarrow> bool" where
  "is_json t \<longleftrightarrow> (\<exists>j. json_text j t)"

text \<open>A member with key \<open>k\<close>, a sequence of members each after a comma, and the rest of an object.\<close>

definition is_member :: "string \<Rightarrow> string \<Rightarrow> bool" where
  "is_member k t \<longleftrightarrow> plain k \<and> (\<exists>v. is_json v \<and> t = quoted k @ '':'' @ v)"

definition is_tail :: "string \<Rightarrow> bool" where
  "is_tail t \<longleftrightarrow> (\<exists>ts. (\<forall>m \<in> set ts. \<exists>k. is_member k m) \<and> t = comma_list False ts)"

definition is_rest :: "string \<Rightarrow> bool" where
  "is_rest t \<longleftrightarrow> (\<exists>u. is_tail u \<and> t = u @ ''}'')"

named_theorems json_intros \<open>texts that are JSON\<close>

lemma comma_list_append: "comma_list False (ts @ us) = comma_list False ts @ comma_list False us"
  by (induction ts) simp_all

lemma is_json_dec_int [json_intros]: "is_json (dec_int i)"
  unfolding is_json_def by (blast intro: num)

lemma is_json_dec [json_intros]: "is_json (dec n)"
  using is_json_dec_int [of "int n"] by (simp add: dec_int_def)

lemma is_json_quoted [json_intros]: "plain s \<Longrightarrow> is_json (quoted s)"
  unfolding is_json_def by (blast intro: str)

lemma is_json_arr [json_intros]:
  assumes "\<And>t. t \<in> set ts \<Longrightarrow> is_json t"
  shows "is_json (''['' @ comma_list True ts @ '']'')"
proof -
  have "\<exists>js. list_all2 json_text js ts"
    using assms
  proof (induction ts)
    case (Cons t ts)
    then show ?case by (auto simp: is_json_def list_all2_Cons2)
  qed simp
  then show ?thesis unfolding is_json_def by (blast intro: arr)
qed

lemma json_obj:
  assumes "list_all2 is_member ks ts"
  shows "\<exists>ms. map fst ms = ks \<and> json_text (J_Obj ms) (''{'' @ comma_list True ts @ ''}'')"
proof -
  let ?ok = "\<lambda>m t. plain (fst m) \<and> (\<exists>v. json_text (snd m) v \<and> t = quoted (fst m) @ '':'' @ v)"
  have "\<exists>ms. map fst ms = ks \<and> list_all2 ?ok ms ts"
    using assms
  proof (induction rule: list_all2_induct)
    case (Cons k ks t ts)
    then obtain ms where ms: "map fst ms = ks" "list_all2 ?ok ms ts" by blast
    obtain j v where v: "plain k" "json_text j v" "t = quoted k @ '':'' @ v"
      using Cons.hyps(1) by (auto simp: is_member_def is_json_def)
    show ?case
      by (rule exI [of _ "(k, j) # ms"]) (use ms v in auto)
  qed simp
  then show ?thesis by (blast intro: obj)
qed

lemma is_tail_Nil [json_intros]: "is_tail []"
  unfolding is_tail_def by (rule exI [of _ "[]"]) simp

lemma is_tail_append: "is_tail t \<Longrightarrow> is_tail u \<Longrightarrow> is_tail (t @ u)"
  unfolding is_tail_def by (metis Un_iff comma_list_append set_append)

lemma is_tail_member:
  assumes "is_member k m" shows "is_tail ('','' @ m)"
  unfolding is_tail_def by (rule exI [of _ "[m]"]) (use assms in \<open>auto simp: comma_def\<close>)

lemma is_memberI: "plain k \<Longrightarrow> is_json v \<Longrightarrow> is_member k (quoted k @ '':'' @ v)"
  unfolding is_member_def by blast

lemma is_json_space: "is_json v \<Longrightarrow> is_json ('' '' @ v)"
  unfolding is_json_def by (blast intro: space)

lemma is_member_space: "plain k \<Longrightarrow> is_json v \<Longrightarrow> is_member k (quoted k @ '': '' @ v)"
  using is_memberI [OF _ is_json_space, of k v] by simp

lemma is_tail_true [json_intros]:
  "plain k \<Longrightarrow> is_tail ('','' @ quoted k @ '':true'')" "plain k \<Longrightarrow> is_tail ('','' @ quoted k @ '': true'')"
proof -
  assume k: "plain k"
  have "is_json ''true''" unfolding is_json_def by (blast intro: true)
  from is_memberI [OF k this] is_member_space [OF k this]
  show "is_tail ('','' @ quoted k @ '':true'')" "is_tail ('','' @ quoted k @ '': true'')"
    using is_tail_member by fastforce+
qed

lemma is_tail_value [json_intros]:
  "plain k \<Longrightarrow> is_json v \<Longrightarrow> is_tail ('','' @ quoted k @ '':'' @ v)"
  "plain k \<Longrightarrow> is_json v \<Longrightarrow> is_tail ('','' @ quoted k @ '': '' @ v)"
  using is_tail_member [OF is_memberI] is_tail_member [OF is_member_space] by simp_all

lemma is_tail_if [json_intros]: "(b \<Longrightarrow> is_tail t) \<Longrightarrow> (\<not> b \<Longrightarrow> is_tail u) \<Longrightarrow> is_tail (if b then t else u)"
  by simp

lemma is_rest_end [json_intros]: "is_rest ''}''"
  unfolding is_rest_def using is_tail_Nil by fastforce

lemma is_rest_tail: "is_tail t \<Longrightarrow> is_rest r \<Longrightarrow> is_rest (t @ r)"
  unfolding is_rest_def by (metis append_assoc is_tail_append)

lemma is_rest_if [json_intros]:
  "(b \<Longrightarrow> is_tail t) \<Longrightarrow> (\<not> b \<Longrightarrow> is_tail u) \<Longrightarrow> is_rest r \<Longrightarrow> is_rest ((if b then t else u) @ r)"
  by (simp add: is_rest_tail)

lemma is_rest_value [json_intros]:
  "plain k \<Longrightarrow> is_json v \<Longrightarrow> is_rest r \<Longrightarrow> is_rest ('','' @ quoted k @ '':'' @ v @ r)"
  using is_rest_tail [OF is_tail_value(1)] by simp

lemma is_json_object [json_intros]:
  assumes "plain k" and "is_json v" and "is_rest r"
  shows "is_json (''{'' @ quoted k @ '':'' @ v @ r)"
proof -
  obtain ts where ts: "\<forall>m \<in> set ts. \<exists>k. is_member k m" "r = comma_list False ts @ ''}''"
    using assms(3) by (auto simp: is_rest_def is_tail_def)
  have "\<exists>ks. list_all2 is_member ks ts"
    using ts(1) by (induction ts) (auto simp: list_all2_Cons2)
  then obtain ks where "list_all2 is_member (k # ks) ((quoted k @ '':'' @ v) # ts)"
    using is_memberI [OF assms(1,2)] by auto
  from json_obj [OF this] show ?thesis by (auto simp: is_json_def ts(2) comma_def)
qed

section \<open>Rows of a listing\<close>

text \<open>
  The contract of a function that prints one row of a listing: a comma unless the row is the first, and an
  object. What the loops over entries and devices print then is the rows, separated by commas.
\<close>

locale json_rows =
  fixes row :: "dev \<Rightarrow> 'e \<Rightarrow> 's \<Rightarrow> string \<times> 's"
    and is_first :: "'s \<Rightarrow> bool"
    and object :: "dev \<Rightarrow> 'e \<Rightarrow> 's \<Rightarrow> string"
  assumes row_text: "fst (row dev e s) = comma (is_first s) @ object dev e s"
    and row_next: "\<not> is_first (snd (row dev e s))"
begin

lemma while_rows:
  "while_parse parse (row dev) rs s = Some (t, s') \<Longrightarrow>
   \<exists>xs. t = comma_list (is_first s) xs \<and> (is_first s' \<longleftrightarrow> is_first s \<and> xs = []) \<and>
        (\<forall>x \<in> set xs. \<exists>r e s. parse r = Some e \<and> x = object dev e s)"
proof (induction rs arbitrary: s t)
  case (Cons r rs)
  show ?case
  proof (cases "parse r")
    case None
    with Cons.prems show ?thesis by (intro exI [of _ "[]"]) simp
  next
    case (Some e)
    obtain s1 where row: "row dev e s = (comma (is_first s) @ object dev e s, s1)" "\<not> is_first s1"
      using row_text [of dev e s] row_next [of dev e s] by (metis prod.collapse)
    with Cons.prems Some obtain ts where ts: "while_parse parse (row dev) rs s1 = Some (ts, s')"
        "t = comma (is_first s) @ object dev e s @ ts"
      by (auto split: Option.bind_splits)
    from Cons.IH [OF ts(1)] row(2) obtain xs where
      "ts = comma_list False xs" "\<not> is_first s'"
      "\<forall>x \<in> set xs. \<exists>r e s. parse r = Some e \<and> x = object dev e s"
      by auto
    then show ?thesis
      using Some by (intro exI [of _ "object dev e s # xs"]) (auto simp: ts(2))
  qed
qed simp

lemma comma_list_append_first:
  "comma_list f xs @ comma_list (f \<and> xs = []) ys = comma_list f (xs @ ys)"
  by (cases xs) (simp_all add: comma_list_append)

lemma foreach_rows:
  "foreach_region M K dl name (\<lambda>_. []) (\<lambda>dev rg. while_parse (parse dev) (row dev) (raw rg)) devs s k =
     Some (t, s', k') \<Longrightarrow>
   \<exists>xs. t = comma_list (is_first s) xs \<and>
        (\<forall>x \<in> set xs. \<exists>dev \<in> set devs. \<exists>r e s. parse dev r = Some e \<and> x = object dev e s)"
proof (induction devs arbitrary: s k t)
  case Nil
  then show ?case by (intro exI [of _ "[]"]) simp
next
  case (Cons dev devs)
  obtain err rg k1 where rg: "devlink_region_get K dl (d_devlink dev) name (devlink_region_dup_cb M) [] k =
      Some (err, rg, k1)"
    using Cons.prems by (cases "devlink_region_get K dl (d_devlink dev) name (devlink_region_dup_cb M) [] k") auto
  show ?case
  proof (cases "err = 0")
    case False
    with Cons.prems rg show ?thesis by (intro exI [of _ "[]"]) simp
  next
    case True
    with Cons.prems rg obtain t1 s1 ts where 1: "while_parse (parse dev) (row dev) (raw rg) s = Some (t1, s1)"
      and 2: "foreach_region M K dl name (\<lambda>_. []) (\<lambda>dev rg. while_parse (parse dev) (row dev) (raw rg))
          devs s1 k1 = Some (ts, s', k')" and t: "t = t1 @ ts"
      by (auto split: Option.bind_splits)
    obtain xs where xs: "t1 = comma_list (is_first s) xs" "is_first s1 \<longleftrightarrow> is_first s \<and> xs = []"
        "\<forall>x \<in> set xs. \<exists>r e s. parse dev r = Some e \<and> x = object dev e s"
      using while_rows [OF 1] by blast
    obtain ys where ys: "ts = comma_list (is_first s1) ys"
        "\<forall>x \<in> set ys. \<exists>dev \<in> set devs. \<exists>r e s. parse dev r = Some e \<and> x = object dev e s"
      using Cons.IH [OF 2] by blast
    show ?thesis
      by (rule exI [of _ "xs @ ys"]) (use xs ys comma_list_append_first in \<open>auto simp: t\<close>)
  qed
qed

lemma listing_member:
  assumes "foreach_region M K dl name (\<lambda>_. []) (\<lambda>dev rg. while_parse (parse dev) (row dev) (raw rg)) devs s k =
     Some (t, s', k')"
    and "is_first s" and "plain key" 
    and "\<And>dev r e s. dev \<in> set devs \<Longrightarrow> parse dev r = Some e \<Longrightarrow> is_json (object dev e s)"
  shows "is_member key (quoted key @ '':['' @ t @ '']'')"
proof -
  obtain xs where "t = comma_list True xs" "\<forall>x \<in> set xs. is_json x"
    using foreach_rows [OF assms(1)] assms(2,4) by fastforce
  then show ?thesis
    using is_memberI [OF assms(3) is_json_arr [of xs]] by simp
qed

end

interpretation atu_rows: json_rows json_atu_entry "\<lambda>first. first"
  "\<lambda>dev e _. fst (json_atu_entry dev e True)"
  by unfold_locales (simp_all add: json_atu_entry_def comma_def)

interpretation vtu_rows: json_rows json_vtu_entry fst
  "\<lambda>dev e s. json_vtu_object dev e (vtu_add_masks e (snd s))"
  by unfold_locales (auto simp: json_vtu_entry_def Let_def split: prod.splits)

interpretation stu_rows: json_rows json_stu_entry fst
  "\<lambda>dev e s. json_stu_object dev e (stu_add_masks e (snd s))"
  by unfold_locales (auto simp: json_stu_entry_def Let_def split: prod.splits)

section \<open>The objects\<close>

lemma plain_keys:
  "plain ''netdev''" "plain ''dev''" "plain ''port''" "plain ''state''" "plain ''frame-mode''"
  "plain ''egress-mode''" "plain ''802.1q''" "plain ''pvid''" "plain ''fid''" "plain ''lag''"
  "plain ''flood-unicast''" "plain ''flood-multicast''" "plain ''allow-untagged''"
  "plain ''allow-tagged''" "plain ''address''" "plain ''queue-prio-override''"
  "plain ''frame-prio-override''" "plain ''ports''" "plain ''vid''" "plain ''sid''" "plain ''policy''"
  "plain ''unmodified''" "plain ''untagged''" "plain ''tagged''" "plain ''disabled''"
  "plain ''blocking''" "plain ''learning''" "plain ''forwarding''" "plain ''vtu''" "plain ''stu''"
  "plain ''atu''"
  by (simp_all add: plain_def)

lemma json_portvec_comma_list:
  "json_portvec_from is first v = comma_list first (map dec (filter (reg_bit v) is))"
  by (induction "is" first v rule: json_portvec_from.induct) simp_all

lemma is_tail_portvec [json_intros]: "plain name \<Longrightarrow> is_tail (json_print_portvec name v)"
proof -
  assume "plain name"
  moreover have "is_json (''['' @ json_portvec_from [0 ..< 11] True v @ '']'')"
    unfolding json_portvec_comma_list by (rule is_json_arr) (auto intro: is_json_dec)
  ultimately show ?thesis
    using is_tail_value(1) by (fastforce simp: json_print_portvec_def)
qed

lemma is_tail_override [json_intros]: "plain name \<Longrightarrow> is_tail (json_override name p)"
  unfolding json_override_def by (intro json_intros)

lemma is_rest_parts [json_intros]:
  "plain name \<Longrightarrow> is_rest r \<Longrightarrow> is_rest (json_print_portvec name v @ r)"
  "plain name \<Longrightarrow> is_rest r \<Longrightarrow> is_rest (json_override name p @ r)"
  by (simp_all add: is_rest_tail is_tail_portvec is_tail_override)

lemma is_json_vtu_object: "is_json (json_vtu_object dev e masks)"
  unfolding json_vtu_object_def by (intro json_intros plain_keys)

lemma is_json_stu_object: "is_json (json_stu_object dev e masks)"
proof -
  obtain dis blk lrn fwd where masks: "masks = (dis, blk, lrn, fwd)" by (cases masks)
  show ?thesis
    unfolding json_stu_object_def masks prod.case by (intro json_intros plain_keys)
qed

lemma plain_append [simp]: "plain (s @ t) \<longleftrightarrow> plain s \<and> plain t"
  by (simp add: plain_def)

lemma plain_digits: "plain (digits_in 16 n)"
proof -
  have "c \<noteq> CHR 0x22 \<and> c \<noteq> CHR 0x5C \<and> 32 \<le> (of_char c :: nat)" if "is_digit 16 c" for c
    using that by (auto simp: is_digit_def digit_of_def Let_def split: if_splits)
  then show ?thesis
    using digits_in_digits [of 16 _ n] by (auto simp: plain_def list_all_iff)
qed

lemma plain_mac: "plain (mac_str bs)"
proof (induction bs rule: mac_str.induct)
  have hex: "plain (hex_pad 2 n)" for n
    using plain_digits [of n] by (simp add: hex_pad_def Let_def) (simp add: plain_def list_all_iff)
  show "plain (mac_str [b])" for b by (simp add: hex)
  show "plain (mac_str (b # b' # bs))" if "plain (mac_str (b' # bs))" for b b' bs
    using that hex by (simp add: plain_def)
qed (simp add: plain_def)

lemma less_16_nth:
  assumes "list_all plain ss" and "length ss = 16" and "n < 16"
  shows "plain (ss ! n)"
  using assms by (simp add: list_all_length)

lemma plain_atu_state:
  assumes "dev_atu_parse h k = Some e"
  shows "plain (atu_state_str json_atu_mc_str json_atu_uc_str e)"
proof -
  have "a_state e = take_bit 4 (ka_data k)"
    using assms by (auto simp: dev_atu_parse_def Let_def reg_bits_0 split: if_splits)
  then have "unat (a_state e) < 16"
    using take_bit_nat_less_exp [of 4 "unat (ka_data k)"] by (simp add: unsigned_take_bit_eq)
  moreover have "list_all plain json_atu_mc_str" "list_all plain json_atu_uc_str"
    "length json_atu_mc_str = 16" "length json_atu_uc_str = 16"
    by (simp_all add: json_atu_mc_str_def json_atu_uc_str_def plain_def)
  ultimately show ?thesis
    unfolding atu_state_str_def by (simp add: less_16_nth)
qed

lemma is_json_atu_object:
  assumes "dev_atu_parse h k = Some e"
  shows "is_json (fst (json_atu_entry dev e True))"
  unfolding json_atu_entry_def fst_conv comma_def if_True append_Nil
  by (intro json_intros plain_keys plain_mac plain_atu_state [OF assms])

lemma is_json_port:
  assumes "json_port dev port = Some t" and "plain (p_netdev port)"
  shows "is_json t"
proof -
  have table: "plain (ss ! unat (reg_bits r b 2))" if "list_all plain ss" "length ss = 4" for ss r b
  proof -
    have "unat (reg_bits r b 2) < 4"
      using take_bit_nat_less_exp [of 2 "unat (drop_bit b r)"]
      by (simp add: reg_bits_def flip: take_bit_eq_mask) (simp add: unsigned_take_bit_eq)
    then show ?thesis using that by (simp add: list_all_length)
  qed
  have lists: "list_all plain port_state" "length port_state = 4" "list_all plain port_fmode"
    "length port_fmode = 4" "list_all plain port_emode" "length port_emode = 4"
    "list_all plain port_8021q" "length port_8021q = 4"
    by (simp_all add: port_state_def port_fmode_def port_emode_def port_8021q_def plain_def)
  have tables: "plain (port_state ! unat (reg_bits r b 2))" "plain (port_fmode ! unat (reg_bits r b 2))"
    "plain (port_emode ! unat (reg_bits r b 2))" "plain (port_8021q ! unat (reg_bits r b 2))" for r b
    by (intro table lists)+
  show ?thesis
    using assms(1) unfolding json_port_def
    by (auto simp del: append_Cons append_Nil append.simps split: Option.bind_splits
        intro!: json_intros plain_keys tables assms(2))
qed

lemma json_ports_rows:
  "json_ports M K dl dev ports first k = Some (t, ports', first', k') \<Longrightarrow>
   (\<And>port. port \<in> set ports \<Longrightarrow> plain (p_netdev port)) \<Longrightarrow>
   \<exists>xs. t = comma_list first xs \<and> (\<forall>x \<in> set xs. is_json x) \<and> (first' \<longleftrightarrow> first \<and> xs = [])"
proof (induction ports arbitrary: first k t ports')
  case (Cons port ports)
  obtain err port1 k1 x ts ports1 where
    load: "port_load_regs M K dl dev port k = Some (err, port1, k1)"
    and x: "json_port dev port1 = Some x"
    and ts: "json_ports M K dl dev ports False k1 = Some (ts, ports1, first', k')"
    and t: "t = comma first @ x @ ts"
    using Cons.prems(1) by (auto split: Option.bind_splits)
  have "p_netdev port1 = p_netdev port"
    using load by (auto simp: port_load_regs_def split: if_splits Option.bind_splits)
  then have "is_json x"
    using is_json_port [OF x] Cons.prems(2) by simp
  moreover obtain xs where "ts = comma_list False xs" "\<forall>x \<in> set xs. is_json x" "\<not> first'"
    using Cons.IH [OF ts] Cons.prems(2) by auto
  ultimately show ?case
    by (intro exI [of _ "x # xs"]) (simp add: t)
qed (simp add: exI [of _ "[]"])

lemma json_ports_devs_rows:
  "json_ports_devs M K dl devs first k = Some (t, devs', k') \<Longrightarrow>
   (\<And>dev port. dev \<in> set devs \<Longrightarrow> port \<in> set (d_ports dev) \<Longrightarrow> plain (p_netdev port)) \<Longrightarrow>
   \<exists>xs. t = comma_list first xs \<and> (\<forall>x \<in> set xs. is_json x)"
proof (induction devs arbitrary: first k t devs')
  case (Cons dev devs)
  obtain t1 ports first1 k1 ts devs1 where
    1: "json_ports M K dl dev (d_ports dev) first k = Some (t1, ports, first1, k1)"
    and 2: "json_ports_devs M K dl devs first1 k1 = Some (ts, devs1, k')" and t: "t = t1 @ ts"
    using Cons.prems(1) by (auto split: Option.bind_splits)
  obtain xs where xs: "t1 = comma_list first xs" "\<forall>x \<in> set xs. is_json x" "first1 \<longleftrightarrow> first \<and> xs = []"
    using json_ports_rows [OF 1] Cons.prems(2) by force
  obtain ys where ys: "ts = comma_list first1 ys" "\<forall>x \<in> set ys. is_json x"
    using Cons.IH [OF 2] Cons.prems(2) by force
  have "t = comma_list first (xs @ ys)"
    unfolding t xs ys by (cases xs) (simp_all add: comma_list_append)
  with xs ys show ?case by (intro exI [of _ "xs @ ys"]) auto
qed (simp add: exI [of _ "[]"])

end
