(* ===== verification/Mvls_Tool.thy ===== *)
theory Mvls_Tool
  imports Mvls_Show Mvls_Json_Correct
begin

text \<open>
  The printers of \<^verbatim>\<open>mvls.h\<close> and the \<^verbatim>\<open>main\<close> function of \<^verbatim>\<open>src/mvls/mvls.c\<close>.
\<close>

section \<open>Printers\<close>

text \<open>A listing that a printer does not have prints nothing; the calls return \<^verbatim>\<open>-ENOENT\<close> then.\<close>

definition ENOENT :: int where "ENOENT = 2"

type_synonym 'k listing = "env \<Rightarrow> 'k \<Rightarrow> (string \<times> env \<times> 'k) option"

record 'k printer =
  pr_ports :: "'k listing option"
  pr_atu :: "'k listing option"
  pr_vtu :: "'k listing option"
  pr_stu :: "'k listing option"
  pr_pvt :: "'k listing option"
  pr_dev_pvt :: "(devlink \<Rightarrow> dev \<Rightarrow> 'k \<Rightarrow> (string \<times> dev \<times> 'k) option) option"
  pr_prologue :: "string option"
  pr_join :: "string option"
  pr_epilogue :: "string option"

definition print_listing :: "'k listing option \<Rightarrow> env \<Rightarrow> 'k \<Rightarrow> (int \<times> string \<times> env \<times> 'k) option" where
  "print_listing f env k =
     (case f of
        None \<Rightarrow> Some (- ENOENT, [], env, k)
      | Some f \<Rightarrow> map_option (\<lambda>r. (0, r)) (f env k))"

definition env_print_ports where "env_print_ports p = print_listing (pr_ports p)"
definition env_print_atu where "env_print_atu p = print_listing (pr_atu p)"
definition env_print_vtu where "env_print_vtu p = print_listing (pr_vtu p)"
definition env_print_stu where "env_print_stu p = print_listing (pr_stu p)"
definition env_print_pvt where "env_print_pvt p = print_listing (pr_pvt p)"

definition dev_print_pvt ::
  "'k printer \<Rightarrow> devlink \<Rightarrow> dev \<Rightarrow> 'k \<Rightarrow> (int \<times> string \<times> dev \<times> 'k) option" where
  "dev_print_pvt p dl dev k =
     (case pr_dev_pvt p of
        None \<Rightarrow> Some (- ENOENT, [], dev, k)
      | Some f \<Rightarrow> map_option (\<lambda>r. (0, r)) (f dl dev k))"

definition print_text :: "string option \<Rightarrow> int \<times> string" where
  "print_text t = (case t of None \<Rightarrow> (- ENOENT, []) | Some t \<Rightarrow> (0, t))"

definition print_prologue where "print_prologue p = print_text (pr_prologue p)"
definition print_join where "print_join p = print_text (pr_join p)"
definition print_epilogue where "print_epilogue p = print_text (pr_epilogue p)"

lemmas print_defs = env_print_ports_def env_print_atu_def env_print_vtu_def env_print_stu_def
  env_print_pvt_def print_listing_def print_prologue_def print_join_def print_epilogue_def
  print_text_def dev_print_pvt_def

definition printer_show :: "'a mnl \<Rightarrow> ('k, 'a) dl_kernel \<Rightarrow> 'k printer" where
  "printer_show M K =
     \<lparr>pr_ports = Some (env_show_ports M K), pr_atu = Some (env_show_atu M K),
      pr_vtu = Some (env_show_vtu M K), pr_stu = Some (env_show_stu M K),
      pr_pvt = Some (env_show_pvt M K), pr_dev_pvt = Some (dev_show_pvt M K),
      pr_prologue = None, pr_join = Some show_join, pr_epilogue = None\<rparr>"

definition printer_json :: "'a mnl \<Rightarrow> ('k, 'a) dl_kernel \<Rightarrow> 'k printer" where
  "printer_json M K =
     \<lparr>pr_ports = Some (env_json_ports M K), pr_atu = Some (env_json_atu M K),
      pr_vtu = Some (env_json_vtu M K), pr_stu = Some (env_json_stu M K),
      pr_pvt = None, pr_dev_pvt = None,
      pr_prologue = Some json_prologue, pr_join = Some json_join, pr_epilogue = Some json_epilogue\<rparr>"

section \<open>The main function\<close>

text \<open>The options as \<^verbatim>\<open>getopt\<close> delivers them, and what the tool writes to the standard output.\<close>

datatype mvls_opt = Mvls_h | Mvls_j | Mvls_v | Mvls_unknown

datatype mvls_out = Mvls_Usage | Mvls_Version | Mvls_Text string

fun mvls_opts :: "mvls_opt list \<Rightarrow> bool \<Rightarrow> (int \<times> mvls_out) + bool" where
  "mvls_opts [] json = Inr json"
| "mvls_opts (c # cs) json =
     (case c of
        Mvls_h \<Rightarrow> Inl (0, Mvls_Usage)
      | Mvls_j \<Rightarrow> mvls_opts cs True
      | Mvls_v \<Rightarrow> Inl (0, Mvls_Version)
      | Mvls_unknown \<Rightarrow> Inl (1, Mvls_Usage))"

definition to_int32 :: "int \<Rightarrow> int" where
  "to_int32 i = sint (word_of_int i :: 32 word)"

text \<open>What is printed between prologue and epilogue, and the exit status when it ends the program.\<close>

definition mvls_all :: "'k printer \<Rightarrow> env \<Rightarrow> 'k \<Rightarrow> (string \<times> 'k) option" where
  "mvls_all p env k = do {
     (_, t1, env, k) \<leftarrow> env_print_vtu p env k;
     (_, t2, env, k) \<leftarrow> env_print_stu p env k;
     (_, t3, env, k) \<leftarrow> env_print_atu p env k;
     (_, t4, env, k) \<leftarrow> env_print_ports p env k;
     let join = snd (print_join p);
     Some (t1 @ join @ t2 @ join @ t3 @ join @ t4, k)
   }"

definition mvls_pvt :: "'k printer \<Rightarrow> env \<Rightarrow> string list \<Rightarrow> 'k \<Rightarrow> (int option \<times> string \<times> 'k) option" where
  "mvls_pvt p env args k =
     (case args of
        [] \<Rightarrow> do {
          (_, t, env, k) \<leftarrow> env_print_pvt p env k;
          Some (None, t, k)
        }
      | arg # _ \<Rightarrow>
          (case env_dev_get env (to_int32 (fst (strtol arg))) of
             Inl _ \<Rightarrow> Some (Some 1, [], k)
           | Inr dev \<Rightarrow> do {
               (_, t, dev, k) \<leftarrow> dev_print_pvt p (e_dl env) dev k;
               Some (None, t, k)
             }))"

definition mvls_command ::
  "'k printer \<Rightarrow> env \<Rightarrow> string list \<Rightarrow> 'k \<Rightarrow> (int option \<times> string \<times> 'k) option" where
  "mvls_command p env args k =
     (case args of
        [] \<Rightarrow> map_option (\<lambda>(t, k). (None, t, k)) (mvls_all p env k)
      | cmd # args \<Rightarrow>
          if cmd = ''port'' then map_option (\<lambda>(_, t, _, k). (None, t, k)) (env_print_ports p env k)
          else if cmd = ''atu'' then map_option (\<lambda>(_, t, _, k). (None, t, k)) (env_print_atu p env k)
          else if cmd = ''vtu'' then map_option (\<lambda>(_, t, _, k). (None, t, k)) (env_print_vtu p env k)
          else if cmd = ''stu'' then map_option (\<lambda>(_, t, _, k). (None, t, k)) (env_print_stu p env k)
          else if cmd = ''pvt'' then mvls_pvt p env args k
          else Some (None, [], k))"

definition mvls_main ::
  "genl_uapi \<Rightarrow> 'a mnl \<Rightarrow> ('k, 'a) dl_kernel \<Rightarrow> nl_socket \<Rightarrow> env \<Rightarrow> mvls_opt list \<Rightarrow> string list \<Rightarrow> 'k \<Rightarrow>
   (int \<times> mvls_out \<times> 'k) option" where
  "mvls_main G M K sk env opts args k =
     (case mvls_opts opts False of
        Inl (rc, out) \<Rightarrow> Some (rc, out, k)
      | Inr json \<Rightarrow> do {
          let p = (if json then printer_json M K else printer_show M K);
          (err, env, k) \<leftarrow> env_init G M K sk env k;
          if err \<noteq> 0 then Some (1, Mvls_Text [], k)
          else do {
            (ended, t, k) \<leftarrow> mvls_command p env args k;
            Some (case ended of
                Some rc \<Rightarrow> (rc, Mvls_Text (snd (print_prologue p) @ t), k)
              | None \<Rightarrow> (0, Mvls_Text (snd (print_prologue p) @ t @ snd (print_epilogue p)), k))
          }
        })"

end
