(* ===== verification/Mvls_Tool_Correct.thy ===== *)
theory Mvls_Tool_Correct
  imports Mvls_Tool
begin

text \<open>
  What the tool \<^verbatim>\<open>mvls\<close> guarantees: which ports its JSON listing of VLANs names, and that its JSON
  output as a whole is well formed.
\<close>

section \<open>The port lists of the VLAN listing\<close>

lemma bit_fold_vtu_mask:
  fixes e :: vtu_entry and "is" :: "nat list"
  assumes "i < 16"
  shows "bit (fst (fold (vtu_mask_step e) is m)) i \<longleftrightarrow>
           bit (fst m) i \<or> i \<in> set is \<and> v_member e ! i = VTU_UNMODIFIED"
    and "bit (fst (snd (fold (vtu_mask_step e) is m))) i \<longleftrightarrow>
           bit (fst (snd m)) i \<or> i \<in> set is \<and> v_member e ! i = VTU_UNTAGGED"
    and "bit (snd (snd (fold (vtu_mask_step e) is m))) i \<longleftrightarrow>
           bit (snd (snd m)) i \<or> i \<in> set is \<and> v_member e ! i = VTU_TAGGED"
proof (induction "is" arbitrary: m)
  case (Cons j "is")
  {
    case 1
    show ?case using Cons(1) [of "vtu_mask_step e j m"] assms
      by (auto simp: vtu_mask_step_def bit_simps split: prod.splits vtu_member.splits)
  next
    case 2
    show ?case using Cons(2) [of "vtu_mask_step e j m"] assms
      by (auto simp: vtu_mask_step_def bit_simps split: prod.splits vtu_member.splits)
  next
    case 3
    show ?case using Cons(3) [of "vtu_mask_step e j m"] assms
      by (auto simp: vtu_mask_step_def bit_simps split: prod.splits vtu_member.splits)
  }
qed simp_all

definition listed_masks :: "vtu_entry list \<Rightarrow> vtu_masks" where
  "listed_masks es = fold vtu_add_masks es (0, 0, 0)"

lemma bit_fold_add_masks:
  assumes "i < 11"
  shows "bit (fst (fold vtu_add_masks es m)) i \<longleftrightarrow>
           bit (fst m) i \<or> (\<exists>e \<in> set es. v_member e ! i = VTU_UNMODIFIED)"
    and "bit (fst (snd (fold vtu_add_masks es m))) i \<longleftrightarrow>
           bit (fst (snd m)) i \<or> (\<exists>e \<in> set es. v_member e ! i = VTU_UNTAGGED)"
    and "bit (snd (snd (fold vtu_add_masks es m))) i \<longleftrightarrow>
           bit (snd (snd m)) i \<or> (\<exists>e \<in> set es. v_member e ! i = VTU_TAGGED)"
  by (induction es arbitrary: m)
     (use assms in \<open>auto simp: vtu_add_masks_def bit_fold_vtu_mask simp del: upt_rec_numeral\<close>)

lemma while_vtu_rows:
  "map parse rs = map Some es \<Longrightarrow> parse r = None \<Longrightarrow>
   while_parse parse (json_vtu_entry dev) (rs @ r # rest) (first, m) =
   Some (comma_list first
           (map (\<lambda>n. json_vtu_object dev (es ! n) (fold vtu_add_masks (take (Suc n) es) m)) [0 ..< length es]),
         first \<and> es = [], fold vtu_add_masks es m)"
proof (induction es arbitrary: rs first m)
  case (Cons e es)
  then obtain q qs where rs: "rs = q # qs" "parse q = Some e" "map parse qs = map Some es" by auto
  have list: "map (\<lambda>n. json_vtu_object dev ((e # es) ! n) (fold vtu_add_masks (take (Suc n) (e # es)) m))
      [0 ..< length (e # es)] =
    json_vtu_object dev e (vtu_add_masks e m) #
    map (\<lambda>n. json_vtu_object dev (es ! n) (fold vtu_add_masks (take (Suc n) es) (vtu_add_masks e m)))
      [0 ..< length es]"
    unfolding list.size add_Suc_right add_0_right map_upt_Suc by simp
  have row: "json_vtu_entry dev e (first, m) =
      (comma first @ json_vtu_object dev e (vtu_add_masks e m), False, vtu_add_masks e m)"
    by (simp add: json_vtu_entry_def Let_def)
  show ?case
    unfolding list using Cons.IH [OF rs(3) Cons.prems(2), of False "vtu_add_masks e m"] rs row
    by simp
qed simp

text \<open>
  C25. The JSON listing of the VLANs of a device is its valid entries in order, but the port lists
  accumulate: the lists \<^verbatim>\<open>unmodified\<close>, \<^verbatim>\<open>untagged\<close> and \<^verbatim>\<open>tagged\<close> of an entry name every port
  that has this membership in the entry or in any entry before it, because the port vectors are
  never cleared. Only the first entry is right for certain.
\<close>

theorem json_vtu_lists_accumulate:
  assumes "map parse rs = map Some es" and "parse r = None"
  shows "map_option fst (while_parse parse (json_vtu_entry dev) (rs @ r # rest) (True, 0, 0, 0)) =
           Some (comma_list True
             (map (\<lambda>n. json_vtu_object dev (es ! n) (listed_masks (take (Suc n) es))) [0 ..< length es])) \<and>
         (\<forall>n i. i < 11 \<longrightarrow>
            (bit (fst (listed_masks (take n es))) i \<longleftrightarrow>
               (\<exists>e \<in> set (take n es). v_member e ! i = VTU_UNMODIFIED)) \<and>
            (bit (fst (snd (listed_masks (take n es)))) i \<longleftrightarrow>
               (\<exists>e \<in> set (take n es). v_member e ! i = VTU_UNTAGGED)) \<and>
            (bit (snd (snd (listed_masks (take n es)))) i \<longleftrightarrow>
               (\<exists>e \<in> set (take n es). v_member e ! i = VTU_TAGGED)))"
  unfolding listed_masks_def while_vtu_rows [OF assms] by (simp add: bit_fold_add_masks)

text \<open>Two VLANs: port 0 is an untagged member of the first and not a member of the second.\<close>

definition x_vlan :: "u16 \<Rightarrow> u16 \<Rightarrow> vtu_kentry" where
  "x_vlan vid ports = \<lparr>kv_fid = 1, kv_sid = 0, kv_op = 0, kv_vid = vid, kv_data = [ports, 0xffff, 0x333], kv_resvd = 0\<rparr>"

theorem json_vtu_lists_accumulate_witness:
  "\<exists>e1 e2 t. map_option fst (while_parse opal_dev_vtu_parse (json_vtu_entry (x_dev 0))
       [x_vlan 0x1001 0x3331, x_vlan 0x1002 0x3333, x_vlan 0 0] (True, 0, 0, 0)) = Some t \<and>
     t = comma_list True [json_vtu_object (x_dev 0) e1 (listed_masks [e1]),
                          json_vtu_object (x_dev 0) e2 (listed_masks [e1, e2])] \<and>
     v_member e1 ! 0 = VTU_UNTAGGED \<and> v_member e2 ! 0 = VTU_NOT_MEMBER \<and>
     bit (fst (snd (listed_masks [e1, e2]))) 0"
proof -
  obtain e1 e2 where e: "opal_dev_vtu_parse (x_vlan 0x1001 0x3331) = Some e1"
      "opal_dev_vtu_parse (x_vlan 0x1002 0x3333) = Some e2"
    by (simp add: opal_dev_vtu_parse_def dev_vtu_parse_def x_vlan_def reg_bit_eq)
  have m: "v_member e1 ! 0 = VTU_UNTAGGED" "v_member e2 ! 0 = VTU_NOT_MEMBER"
    using e by (auto simp: opal_dev_vtu_parse_def dev_vtu_parse_def x_vlan_def reg_bit_eq
        reg_bits_0 vtu_member_of_def)
  have none: "opal_dev_vtu_parse (x_vlan 0 0) = None"
    by (simp add: opal_dev_vtu_parse_def dev_vtu_parse_def x_vlan_def reg_bit_eq)
  have parsed: "map opal_dev_vtu_parse [x_vlan 0x1001 0x3331, x_vlan 0x1002 0x3333] = map Some [e1, e2]"
    using e by simp
  from json_vtu_lists_accumulate [OF parsed none, of "x_dev 0" "[]"]
  have l: "map_option fst (while_parse opal_dev_vtu_parse (json_vtu_entry (x_dev 0))
        [x_vlan 0x1001 0x3331, x_vlan 0x1002 0x3333, x_vlan 0 0] (True, 0, 0, 0)) =
      Some (comma_list True (map (\<lambda>n. json_vtu_object (x_dev 0) ([e1, e2] ! n) (listed_masks (take (Suc n) [e1, e2])))
        [0 ..< length [e1, e2]]))"
    and b: "bit (fst (snd (listed_masks (take 2 [e1, e2])))) 0 \<longleftrightarrow>
        (\<exists>e \<in> set (take 2 [e1, e2]). v_member e ! 0 = VTU_UNTAGGED)"
    by (simp_all only: append.simps)
  have "map (\<lambda>n. json_vtu_object (x_dev 0) ([e1, e2] ! n) (listed_masks (take (Suc n) [e1, e2]))) [0 ..< length [e1, e2]] =
      [json_vtu_object (x_dev 0) e1 (listed_masks [e1]), json_vtu_object (x_dev 0) e2 (listed_masks [e1, e2])]"
    by (simp add: upt_rec)
  moreover have "bit (fst (snd (listed_masks [e1, e2]))) 0"
    using b m by simp
  ultimately show ?thesis
    using l m by metis
qed

section \<open>The JSON output\<close>

text \<open>The devices that the tool finds have a known chip.\<close>

definition known_chips :: "env \<Rightarrow> bool" where
  "known_chips env \<longleftrightarrow> (\<forall>dev \<in> set (e_devs env). d_chip dev \<in> set chips)"

lemma recv_run_invariant:
  assumes "recv_run (Some cb) evs d = Some (err, d')" and "P d"
    and "\<And>msg d r d'. cb msg d = Some (r, d') \<Longrightarrow> P d \<Longrightarrow> P d'"
  shows "P d'"
  using assms
proof (induction "Some cb" evs d rule: recv_run.induct)
  case (3 m evs d)
  then obtain r d1 where 1: "cb_dispatch (Some cb) m d = Some (r, d1)" by (auto split: Option.bind_splits)
  have "P d1"
    using 1 3(3,4) by (auto simp: cb_dispatch_def split: nlmsg.splits)
  then show ?case
    using 1 3 by (auto split: if_splits)
qed auto

lemma query_invariant:
  assumes "devlink_query K rq (Some cb) d k = Some (err, d', k')" and "P d"
    and "\<And>msg d r d'. cb msg d = Some (r, d') \<Longrightarrow> P d \<Longrightarrow> P d'"
  shows "P d'"
proof -
  obtain sent evs k1 where K: "K rq k = (sent, evs, k1)" by (metis prod.collapse)
  show ?thesis
  proof (cases "sent < 0")
    case True
    then show ?thesis using assms(1,2) K by (simp add: devlink_query_def)
  next
    case False
    then have "recv_run (Some cb) evs d = Some (err, d')"
      using assms(1) K by (auto simp: devlink_query_def split: Option.bind_splits)
    then show ?thesis by (rule recv_run_invariant) (fact assms(2), fact assms(3))
  qed
qed

lemma dev_cb_known:
  assumes "env_init_dev_cb M msg env = Some (r, env')" and "known_chips env"
  shows "known_chips env'"
proof -
  have add: "known_chips (snd (env_dev_add M env a b d))" for a b d
    using assms(2)
    by (auto simp: known_chips_def env_dev_add_def Let_def find_Some_iff in_set_conv_nth split: option.splits)
  show ?thesis
    using assms add
    by (auto simp: env_init_dev_cb_def Let_def split: Option.bind_splits option.splits if_splits prod.splits)
       (metis snd_conv)+
qed

lemma port_cb_known:
  assumes "env_init_port_cb M msg env = Some (r, env')" and "known_chips env"
  shows "known_chips env'"
proof -
  have upd: "\<forall>dev \<in> set (update_first P (\<lambda>dev. dev\<lparr>d_ports := f dev\<rparr>) devs). d_chip dev \<in> set chips"
    if "\<forall>dev \<in> set devs. d_chip dev \<in> set chips" for P f devs
    using that by (induction devs) auto
  show ?thesis
    using assms
    by (auto simp: env_init_port_cb_def known_chips_def Let_def upd
        split: Option.bind_splits option.splits if_splits sum.splits)
qed

lemma dev_init_all_known:
  "dev_init_all M K dl devs k = Some (err, devs', k') \<Longrightarrow>
   \<forall>dev \<in> set devs. d_chip dev \<in> set chips \<Longrightarrow> \<forall>dev \<in> set devs'. d_chip dev \<in> set chips"
proof (induction devs arbitrary: k err devs')
  case (Cons dev devs)
  obtain e dev1 k1 where 1: "dev_init M K dl dev k = Some (e, dev1, k1)"
    using Cons.prems(1) by (auto split: Option.bind_splits)
  have "d_chip dev1 = d_chip dev"
    using 1 by (auto simp: dev_init_def Let_def split: Option.bind_splits if_splits)
  then show ?case
    using Cons 1 by (auto split: Option.bind_splits if_splits)
qed simp

lemma sort_set: "set (e_devs (env_init_dev_sort env)) = set (e_devs env)"
proof (cases "e_devs env")
  case (Cons dev rest)
  then show ?thesis
    using arg_cong [OF dev_sort_from_mset [of "[]" dev rest], of set_mset] by simp
qed simp

lemma env_init_known:
  assumes "env_init G M K sk env0 k = Some (0, env, k')"
  shows "known_chips env"
proof -
  let ?env0 = "env0\<lparr>e_devs := []\<rparr>"
  obtain fam b1 b2 k0 where 0: "devlink_open G M K sk (dl_family (e_dl ?env0)) k = Some (0, fam, b1, b2, k0)"
    using assms by (auto simp: env_init_def Let_def split: Option.bind_splits if_splits)
  let ?env = "?env0\<lparr>e_dl := \<lparr>dl_family = fam\<rparr>\<rparr>"
  obtain env1 k1 env2 k2 devs where
    1: "devlink_query K (devlink_msg_prepare (e_dl ?env) DEVLINK_CMD_INFO_GET
         [NLM_F_REQUEST, NLM_F_ACK, NLM_F_DUMP]) (Some (env_init_dev_cb M)) ?env k0 = Some (0, env1, k1)"
    and 2: "devlink_query K (devlink_msg_prepare (e_dl env1) DEVLINK_CMD_PORT_GET
         [NLM_F_REQUEST, NLM_F_ACK, NLM_F_DUMP]) (Some (env_init_port_cb M)) env1 k1 = Some (0, env2, k2)"
    and 3: "dev_init_all M K (e_dl env2) (e_devs env2) k2 = Some (0, devs, k')"
    and env: "env = env_init_dev_sort (env2\<lparr>e_devs := devs\<rparr>)"
    using assms 0
    by (auto simp: env_init_def Let_def simp del: env_init_dev_sort.simps
        split: Option.bind_split_asm if_split_asm prod.split_asm)
  have "known_chips ?env" by (simp add: known_chips_def)
  then have "known_chips env1" by (rule query_invariant [OF 1]) (rule dev_cb_known)
  then have "known_chips env2" by (rule query_invariant [OF 2]) (rule port_cb_known)
  then have "\<forall>dev \<in> set devs. d_chip dev \<in> set chips"
    using dev_init_all_known [OF 3] by (simp add: known_chips_def)
  then show ?thesis
    unfolding env known_chips_def sort_set by simp
qed

lemma known_atu_parse:
  assumes "d_chip dev \<in> set chips"
  shows "\<exists>h. atu_parse (dev_family dev) = dev_atu_parse h"
  using assms
  by (auto simp: chips_def dev_family_def opal_family_def peridot_family_def amethyst_family_def
      opal_dev_atu_parse_def peridot_dev_atu_parse_def)

lemma json_vtu_member:
  assumes "env_json_vtu M K env k = Some (t, env', k')"
  shows "is_member ''vtu'' t" and "env' = env"
  using assms vtu_rows.listing_member [OF _ _ plain_keys(29) is_json_vtu_object]
  by (auto simp: env_json_vtu_def split: Option.bind_splits)

lemma json_stu_member:
  assumes "env_json_stu M K env k = Some (t, env', k')"
  shows "is_member ''stu'' t" and "env' = env"
  using assms stu_rows.listing_member [OF _ _ plain_keys(30) is_json_stu_object]
  by (auto simp: env_json_stu_def split: Option.bind_splits)

lemma json_atu_member:
  assumes "env_json_atu M K env k = Some (t, env', k')" and "known_chips env"
  shows "is_member ''atu'' t" and "env' = env"
proof -
  have obj: "is_json (fst (json_atu_entry dev e True))"
    if "dev \<in> set (e_devs env)" "atu_parse (dev_family dev) r = Some e" for dev r e
    using known_atu_parse [of dev] that assms(2) is_json_atu_object by (fastforce simp: known_chips_def)
  show "is_member ''atu'' t" "env' = env"
    using assms(1) atu_rows.listing_member [OF _ _ plain_keys(31) obj]
    by (auto simp: env_json_atu_def split: Option.bind_splits)
qed

definition plain_netdevs :: "env \<Rightarrow> bool" where
  "plain_netdevs env \<longleftrightarrow> (\<forall>dev \<in> set (e_devs env). \<forall>port \<in> set (d_ports dev). plain (p_netdev port))"

lemma json_ports_member:
  assumes "env_json_ports M K env k = Some (t, env', k')" and "plain_netdevs env"
  shows "is_member ''ports'' t"
proof -
  obtain rows devs where rows: "json_ports_devs M K (e_dl env) (e_devs env) True k = Some (rows, devs, k')"
    and t: "t = quoted ''ports'' @ '':['' @ rows @ '']''"
    using assms(1) by (auto simp: env_json_ports_def split: Option.bind_splits)
  obtain xs where "rows = comma_list True xs" "\<forall>x \<in> set xs. is_json x"
    using json_ports_devs_rows [OF rows] assms(2) by (auto simp: plain_netdevs_def)
  then show ?thesis
    using is_memberI [OF plain_keys(18) is_json_arr [of xs]] by (simp add: t)
qed

lemma json_members:
  assumes "list_all2 is_member ks ts"
  shows "\<exists>ms. map fst ms = ks \<and> json_text (J_Obj ms) (json_prologue @ comma_list True ts @ json_epilogue)"
  using json_obj [OF assms] by (simp add: json_prologue_def json_epilogue_def)

text \<open>The calls through the JSON printer.\<close>

lemma json_calls:
  "env_print_ports (printer_json M K) env k = map_option (\<lambda>r. (0, r)) (env_json_ports M K env k)"
  "env_print_atu (printer_json M K) env k = map_option (\<lambda>r. (0, r)) (env_json_atu M K env k)"
  "env_print_vtu (printer_json M K) env k = map_option (\<lambda>r. (0, r)) (env_json_vtu M K env k)"
  "env_print_stu (printer_json M K) env k = map_option (\<lambda>r. (0, r)) (env_json_stu M K env k)"
  "env_print_pvt (printer_json M K) env k = Some (- ENOENT, [], env, k)"
  "print_join (printer_json M K) = (0, '','')"
  by (simp_all add: print_defs printer_json_def json_join_def)

lemma mvls_all_json:
  assumes "mvls_all (printer_json M K) env k = Some (t, k')" and "known_chips env" and "plain_netdevs env"
  shows "\<exists>ts. list_all2 is_member [''vtu'', ''stu'', ''atu'', ''ports''] ts \<and> t = comma_list True ts"
proof -
  obtain t1 t2 t3 t4 env1 env2 env3 env4 k1 k2 k3 where
    t: "env_json_vtu M K env k = Some (t1, env1, k1)" "env_json_stu M K env1 k1 = Some (t2, env2, k2)"
       "env_json_atu M K env2 k2 = Some (t3, env3, k3)" "env_json_ports M K env3 k3 = Some (t4, env4, k')"
    and printed: "t = comma_list True [t1, t2, t3, t4]"
    using assms(1) unfolding mvls_all_def json_calls
    by (auto simp: comma_def split: Option.bind_split_asm)
  have 1: "is_member ''vtu'' t1" "env1 = env" by (rule json_vtu_member [OF t(1)])+
  have 2: "is_member ''stu'' t2" "env2 = env" using json_stu_member [OF t(2)] 1(2) by auto
  have 3: "is_member ''atu'' t3" "env3 = env"
    using json_atu_member [OF t(3)] 2(2) assms(2) by auto
  have 4: "is_member ''ports'' t4" using json_ports_member [OF t(4)] 3(2) assms(3) by auto
  have "list_all2 is_member [''vtu'', ''stu'', ''atu'', ''ports''] [t1, t2, t3, t4]"
    by (simp only: list_all2_Cons list_all2_Nil 1 2 3 4)
  with printed show ?thesis by blast
qed

definition json_keys :: "string list \<Rightarrow> string list" where
  "json_keys args =
     (if args = [] then [''vtu'', ''stu'', ''atu'', ''ports'']
      else if hd args = ''port'' then [''ports'']
      else if hd args \<in> {''atu'', ''vtu'', ''stu''} then [hd args] else [])"

lemma mvls_command_json:
  assumes "mvls_command (printer_json M K) env args k = Some (ended, t, k')"
    and "known_chips env" and "plain_netdevs env" and "tl args = []"
  shows "ended = None \<and> (\<exists>ts. list_all2 is_member (json_keys args) ts \<and> t = comma_list True ts)"
proof (cases args)
  case Nil
  then show ?thesis
    using assms(1) mvls_all_json [OF _ assms(2,3)] by (auto simp: mvls_command_def json_keys_def)
next
  case (Cons cmd rest)
  with assms(4) have args: "args = [cmd]" by simp
  have one: ?thesis if "json_keys args = [key]" "is_member key t" "ended = None" for key
    using that by (intro conjI exI [of _ "[t]"]) (simp_all add: comma_def)
  have none: ?thesis if "json_keys args = []" "t = []" "ended = None"
    using that by (intro conjI exI [of _ "[]"]) simp_all
  consider "cmd = ''port''" | "cmd = ''atu''" | "cmd = ''vtu''" | "cmd = ''stu''" | "cmd = ''pvt''"
    | "cmd \<notin> {''port'', ''atu'', ''vtu'', ''stu'', ''pvt''}" by blast
  then show ?thesis
  proof cases
    case 1
    then show ?thesis
      using assms(1) json_ports_member [OF _ assms(3)]
      by (intro one [of "''ports''"]) (auto simp: args json_keys_def mvls_command_def json_calls)
  next
    case 2
    then show ?thesis
      using assms(1) json_atu_member(1) [OF _ assms(2)]
      by (intro one [of "''atu''"]) (auto simp: args json_keys_def mvls_command_def json_calls)
  next
    case 3
    then show ?thesis
      using assms(1) json_vtu_member(1)
      by (intro one [of "''vtu''"]) (auto simp: args json_keys_def mvls_command_def json_calls)
  next
    case 4
    then show ?thesis
      using assms(1) json_stu_member(1)
      by (intro one [of "''stu''"]) (auto simp: args json_keys_def mvls_command_def json_calls)
  next
    case 5
    then show ?thesis
      using assms(1)
      by (intro none) (auto simp: args json_keys_def mvls_command_def mvls_pvt_def json_calls)
  next
    case 6
    then show ?thesis
      using assms(1) by (intro none) (simp_all add: args json_keys_def mvls_command_def)
  qed
qed


lemma x_env_init:
  "case env_init x_genl x_mnl x_switch x_sock x_env0 () of
     None \<Rightarrow> False | Some (err, env, k) \<Rightarrow> err = 0 \<and> plain_netdevs env"
  by code_simp

lemma x_main_returns:
  "case mvls_main x_genl x_mnl x_switch x_sock x_env0 [Mvls_j] [''vtu''] () of
     None \<Rightarrow> False | Some _ \<Rightarrow> True"
  by code_simp


end
