(* ===== verification/Tail_Queue.thy ===== *)
theory Tail_Queue
  imports Mdio_Prelude "HOL-Library.Monad_Syntax"
begin

text \<open>
  \<^verbatim>\<open>src/mvls/queue.h\<close>: the tail queues of the tool \<^verbatim>\<open>mvls\<close>, with their pointers. An element holds
  a pointer to the next element and the address of the pointer that leads to it, the head a
  pointer to the first element and the address of the last of these pointers. A queue stands for
  the list of its elements (\<open>tailq\<close>); every macro does to this list what its name says, and leaves
  the queues alone that share no element with it.
\<close>

section \<open>The store\<close>

text \<open>
  The address of a pointer to an element: the field \<^verbatim>\<open>tqh_first\<close> of a head or the field \<^verbatim>\<open>tqe_next\<close> of
  an element. \<open>slot\<close> is what these pointers hold, \<open>None\<close> being the null pointer; \<open>tail\<close> is the field
  \<^verbatim>\<open>tqh_last\<close> of a head and \<open>prev\<close> the field \<^verbatim>\<open>tqe_prev\<close> of an element.
\<close>

datatype ('q, 'e) slot_addr = First_Of 'q | Next_Of 'e

record ('q, 'e) qstore =
  slot :: "('q, 'e) slot_addr \<Rightarrow> 'e option"
  tail :: "'q \<Rightarrow> ('q, 'e) slot_addr"
  prev :: "'e \<Rightarrow> ('q, 'e) slot_addr"

definition set_slot ::
  "('q, 'e) slot_addr \<Rightarrow> 'e option \<Rightarrow> ('q, 'e) qstore \<Rightarrow> ('q, 'e) qstore" where
  "set_slot a v s = s\<lparr>slot := (slot s)(a := v)\<rparr>"

definition set_tail ::
  "'q \<Rightarrow> ('q, 'e) slot_addr \<Rightarrow> ('q, 'e) qstore \<Rightarrow> ('q, 'e) qstore" where
  "set_tail q a s = s\<lparr>tail := (tail s)(q := a)\<rparr>"

definition set_prev ::
  "'e \<Rightarrow> ('q, 'e) slot_addr \<Rightarrow> ('q, 'e) qstore \<Rightarrow> ('q, 'e) qstore" where
  "set_prev e a s = s\<lparr>prev := (prev s)(e := a)\<rparr>"

lemma store_simps [simp]:
  "slot (set_slot a v s) = (slot s)(a := v)" "slot (set_tail q a s) = slot s"
  "slot (set_prev e a s) = slot s"
  "tail (set_slot a v s) = tail s" "tail (set_tail q a s) = (tail s)(q := a)"
  "tail (set_prev e a s) = tail s"
  "prev (set_slot a v s) = prev s" "prev (set_tail q a s) = prev s"
  "prev (set_prev e a s) = (prev s)(e := a)"
  by (simp_all add: set_slot_def set_tail_def set_prev_def)

section \<open>Access\<close>

definition TAILQ_FIRST :: "'q \<Rightarrow> ('q, 'e) qstore \<Rightarrow> 'e option" where
  "TAILQ_FIRST q s = slot s (First_Of q)"

definition TAILQ_NEXT :: "'e \<Rightarrow> ('q, 'e) qstore \<Rightarrow> 'e option" where
  "TAILQ_NEXT e s = slot s (Next_Of e)"

definition TAILQ_EMPTY :: "'q \<Rightarrow> ('q, 'e) qstore \<Rightarrow> bool" where
  "TAILQ_EMPTY q s \<longleftrightarrow> TAILQ_FIRST q s = None"

text \<open>
  The cast in \<^verbatim>\<open>TAILQ_LAST\<close> and \<^verbatim>\<open>TAILQ_PREV\<close>: a head and the entry of an element have the same layout,
  so that the word behind a pointer to an element is the address of the pointer before it.
\<close>

definition as_head_last :: "('q, 'e) slot_addr \<Rightarrow> ('q, 'e) qstore \<Rightarrow> ('q, 'e) slot_addr" where
  "as_head_last a s = (case a of First_Of q \<Rightarrow> tail s q | Next_Of e \<Rightarrow> prev s e)"

definition TAILQ_LAST :: "'q \<Rightarrow> ('q, 'e) qstore \<Rightarrow> 'e option" where
  "TAILQ_LAST q s = slot s (as_head_last (tail s q) s)"

definition TAILQ_PREV :: "'e \<Rightarrow> ('q, 'e) qstore \<Rightarrow> 'e option" where
  "TAILQ_PREV e s = slot s (as_head_last (prev s e) s)"

text \<open>
  The elements that \<^verbatim>\<open>TAILQ_FOREACH\<close> and \<^verbatim>\<open>TAILQ_FOREACH_REVERSE\<close> visit when the body does not change the
  queue; \<open>None\<close> is a loop that does not end.
\<close>

partial_function (option) foreach_from :: "('q, 'e) qstore \<Rightarrow> 'e option \<Rightarrow> 'e list option" where
  "foreach_from s var =
     (case var of
        None \<Rightarrow> Some []
      | Some e \<Rightarrow> do { es \<leftarrow> foreach_from s (TAILQ_NEXT e s); Some (e # es) })"

partial_function (option) foreach_reverse_from :: "('q, 'e) qstore \<Rightarrow> 'e option \<Rightarrow> 'e list option" where
  "foreach_reverse_from s var =
     (case var of
        None \<Rightarrow> Some []
      | Some e \<Rightarrow> do { es \<leftarrow> foreach_reverse_from s (TAILQ_PREV e s); Some (e # es) })"

definition TAILQ_FOREACH :: "'q \<Rightarrow> ('q, 'e) qstore \<Rightarrow> 'e list option" where
  "TAILQ_FOREACH q s = foreach_from s (TAILQ_FIRST q s)"

definition TAILQ_FOREACH_REVERSE :: "'q \<Rightarrow> ('q, 'e) qstore \<Rightarrow> 'e list option" where
  "TAILQ_FOREACH_REVERSE q s = foreach_reverse_from s (TAILQ_LAST q s)"

section \<open>Changes\<close>

definition TAILQ_INIT :: "'q \<Rightarrow> ('q, 'e) qstore \<Rightarrow> ('q, 'e) qstore" where
  "TAILQ_INIT q s =
     (let s = set_slot (First_Of q) None s in
      set_tail q (First_Of q) s)"

definition TAILQ_INSERT_HEAD :: "'q \<Rightarrow> 'e \<Rightarrow> ('q, 'e) qstore \<Rightarrow> ('q, 'e) qstore" where
  "TAILQ_INSERT_HEAD q elm s =
     (let s = set_slot (Next_Of elm) (slot s (First_Of q)) s;
          s = (case slot s (First_Of q) of
                 Some e \<Rightarrow> set_prev e (Next_Of elm) s
               | None \<Rightarrow> set_tail q (Next_Of elm) s);
          s = set_slot (First_Of q) (Some elm) s in
      set_prev elm (First_Of q) s)"

definition TAILQ_INSERT_TAIL :: "'q \<Rightarrow> 'e \<Rightarrow> ('q, 'e) qstore \<Rightarrow> ('q, 'e) qstore" where
  "TAILQ_INSERT_TAIL q elm s =
     (let s = set_slot (Next_Of elm) None s;
          s = set_prev elm (tail s q) s;
          s = set_slot (tail s q) (Some elm) s in
      set_tail q (Next_Of elm) s)"

definition TAILQ_INSERT_AFTER :: "'q \<Rightarrow> 'e \<Rightarrow> 'e \<Rightarrow> ('q, 'e) qstore \<Rightarrow> ('q, 'e) qstore" where
  "TAILQ_INSERT_AFTER q listelm elm s =
     (let s = set_slot (Next_Of elm) (slot s (Next_Of listelm)) s;
          s = (case slot s (Next_Of elm) of
                 Some e \<Rightarrow> set_prev e (Next_Of elm) s
               | None \<Rightarrow> set_tail q (Next_Of elm) s);
          s = set_slot (Next_Of listelm) (Some elm) s in
      set_prev elm (Next_Of listelm) s)"

definition TAILQ_INSERT_BEFORE :: "'e \<Rightarrow> 'e \<Rightarrow> ('q, 'e) qstore \<Rightarrow> ('q, 'e) qstore" where
  "TAILQ_INSERT_BEFORE listelm elm s =
     (let s = set_prev elm (prev s listelm) s;
          s = set_slot (Next_Of elm) (Some listelm) s;
          s = set_slot (prev s listelm) (Some elm) s in
      set_prev listelm (Next_Of elm) s)"

text \<open>\<^verbatim>\<open>_Q_INVALIDATE\<close> is empty unless debugging is on: the pointers of a removed element stay.\<close>

definition TAILQ_REMOVE :: "'q \<Rightarrow> 'e \<Rightarrow> ('q, 'e) qstore \<Rightarrow> ('q, 'e) qstore" where
  "TAILQ_REMOVE q elm s =
     (let s = (case slot s (Next_Of elm) of
                 Some e \<Rightarrow> set_prev e (prev s elm) s
               | None \<Rightarrow> set_tail q (prev s elm) s) in
      set_slot (prev s elm) (slot s (Next_Of elm)) s)"

definition TAILQ_REPLACE :: "'q \<Rightarrow> 'e \<Rightarrow> 'e \<Rightarrow> ('q, 'e) qstore \<Rightarrow> ('q, 'e) qstore" where
  "TAILQ_REPLACE q elm elm2 s =
     (let s = set_slot (Next_Of elm2) (slot s (Next_Of elm)) s;
          s = (case slot s (Next_Of elm2) of
                 Some e \<Rightarrow> set_prev e (Next_Of elm2) s
               | None \<Rightarrow> set_tail q (Next_Of elm2) s);
          s = set_prev elm2 (prev s elm) s in
      set_slot (prev s elm2) (Some elm2) s)"

definition TAILQ_CONCAT :: "'q \<Rightarrow> 'q \<Rightarrow> ('q, 'e) qstore \<Rightarrow> ('q, 'e) qstore" where
  "TAILQ_CONCAT q1 q2 s =
     (case TAILQ_FIRST q2 s of
        None \<Rightarrow> s
      | Some e \<Rightarrow>
          let s = set_slot (tail s q1) (Some e) s;
              s = set_prev e (tail s q1) s;
              s = set_tail q1 (tail s q2) s in
          TAILQ_INIT q2 s)"

section \<open>Queues as lists\<close>

text \<open>The pointer at address \<open>a\<close> leads through \<open>xs\<close> to the pointer at address \<open>b\<close>.\<close>

fun linked ::
  "('q, 'e) qstore \<Rightarrow> ('q, 'e) slot_addr \<Rightarrow> 'e list \<Rightarrow> ('q, 'e) slot_addr \<Rightarrow> bool" where
  "linked s a [] b \<longleftrightarrow> b = a"
| "linked s a (x # xs) b \<longleftrightarrow> slot s a = Some x \<and> prev s x = a \<and> linked s (Next_Of x) xs b"

definition tailq :: "('q, 'e) qstore \<Rightarrow> 'q \<Rightarrow> 'e list \<Rightarrow> bool" where
  "tailq s q xs \<longleftrightarrow>
     distinct xs \<and> linked s (First_Of q) xs (tail s q) \<and> slot s (tail s q) = None"

text \<open>The address of the last pointer of a chain.\<close>

definition last_slot :: "('q, 'e) slot_addr \<Rightarrow> 'e list \<Rightarrow> ('q, 'e) slot_addr" where
  "last_slot a xs = (if xs = [] then a else Next_Of (last xs))"

lemma last_slot_simps [simp]:
  "last_slot a [] = a" "last_slot a (x # xs) = last_slot (Next_Of x) xs"
  "last_slot a (xs @ [x]) = Next_Of x" "last_slot a (xs @ x # ys) = last_slot (Next_Of x) ys"
  by (simp_all add: last_slot_def)

lemma last_slot_cases: "last_slot a xs = a \<and> xs = [] \<or> (\<exists>x \<in> set xs. last_slot a xs = Next_Of x)"
  by (cases "xs = []") (auto simp: last_slot_def)

lemma linked_end: "linked s a xs b \<Longrightarrow> b = last_slot a xs"
  by (induction xs arbitrary: a) auto

lemma linked_append [simp]:
  "linked s a (xs @ ys) b \<longleftrightarrow> linked s a xs (last_slot a xs) \<and> linked s (last_slot a xs) ys b"
  by (induction xs arbitrary: a) auto

lemma linked_cong:
  assumes "linked s a xs b"
    and "xs \<noteq> [] \<Longrightarrow> slot s' a = slot s a"
    and "\<And>x. x \<in> set (butlast xs) \<Longrightarrow> slot s' (Next_Of x) = slot s (Next_Of x)"
    and "\<And>x. x \<in> set xs \<Longrightarrow> prev s' x = prev s x"
  shows "linked s' a xs b"
  using assms
proof (induction xs arbitrary: a)
  case (Cons x xs)
  then show ?case by (cases xs) auto
qed simp

text \<open>A queue keeps its list when the pointers of its head and its elements stay.\<close>

lemma tailq_frame:
  assumes "tailq s q xs" and "tail s' q = tail s q" and "slot s' (First_Of q) = slot s (First_Of q)"
    and "\<And>x. x \<in> set xs \<Longrightarrow> slot s' (Next_Of x) = slot s (Next_Of x) \<and> prev s' x = prev s x"
  shows "tailq s' q xs"
proof -
  from assms(1) have t: "tail s q = last_slot (First_Of q) xs" by (auto simp: tailq_def dest: linked_end)
  have "linked s' (First_Of q) xs (tail s q)"
    by (rule linked_cong [of s]) (use assms in \<open>auto simp: tailq_def dest: in_set_butlastD\<close>)
  moreover have "slot s' (tail s q) = slot s (tail s q)"
    using last_slot_cases [of "First_Of q" xs] assms(3,4) by (auto simp: t)
  ultimately show ?thesis using assms(1,2) by (simp add: tailq_def)
qed

lemma tailq_tail: "tailq s q xs \<Longrightarrow> tail s q = last_slot (First_Of q) xs"
  by (auto simp: tailq_def dest: linked_end)

lemma tailq_at:
  assumes "tailq s q (xs @ e # ys)"
  shows "prev s e = last_slot (First_Of q) xs" and "slot s (last_slot (First_Of q) xs) = Some e"
    and "slot s (Next_Of e) = (case ys of [] \<Rightarrow> None | y # _ \<Rightarrow> Some y)"
    and "tail s q = last_slot (Next_Of e) ys"
proof -
  from assms have l: "slot s (last_slot (First_Of q) xs) = Some e" "prev s e = last_slot (First_Of q) xs"
      "linked s (Next_Of e) ys (tail s q)" "slot s (tail s q) = None"
    by (simp_all add: tailq_def)
  show "tail s q = last_slot (Next_Of e) ys" by (rule linked_end [OF l(3)])
  show "slot s (Next_Of e) = (case ys of [] \<Rightarrow> None | y # _ \<Rightarrow> Some y)"
    using l(3,4) by (cases ys) auto
qed (use assms in \<open>simp_all add: tailq_def\<close>)

section \<open>Access on lists\<close>

lemma tailq_first: "tailq s q xs \<Longrightarrow> TAILQ_FIRST q s = (case xs of [] \<Rightarrow> None | x # _ \<Rightarrow> Some x)"
  by (cases xs) (auto simp: TAILQ_FIRST_def tailq_def)

lemma tailq_next:
  "tailq s q (xs @ e # ys) \<Longrightarrow> TAILQ_NEXT e s = (case ys of [] \<Rightarrow> None | y # _ \<Rightarrow> Some y)"
  unfolding TAILQ_NEXT_def by (rule tailq_at(3))

lemma tailq_empty: "tailq s q xs \<Longrightarrow> TAILQ_EMPTY q s \<longleftrightarrow> xs = []"
  by (simp add: TAILQ_EMPTY_def tailq_first split: list.split)

lemma as_head_last_slot:
  assumes "tailq s q (xs @ ys)"
  shows "slot s (as_head_last (last_slot (First_Of q) xs) s) = (if xs = [] then None else Some (last xs))"
proof (cases xs rule: rev_cases)
  case Nil
  then show ?thesis using assms by (simp add: as_head_last_def tailq_def)
next
  case (snoc zs z)
  then have "tailq s q (zs @ z # ys)" using assms by simp
  from tailq_at(1,2) [OF this] show ?thesis by (simp add: snoc as_head_last_def)
qed

lemma tailq_last: "tailq s q xs \<Longrightarrow> TAILQ_LAST q s = (if xs = [] then None else Some (last xs))"
  using as_head_last_slot [of s q xs "[]"] by (simp add: TAILQ_LAST_def tailq_tail)

lemma tailq_prev:
  "tailq s q (xs @ e # ys) \<Longrightarrow> TAILQ_PREV e s = (if xs = [] then None else Some (last xs))"
  using as_head_last_slot [of s q xs "e # ys"] by (simp add: TAILQ_PREV_def tailq_at(1))

lemma foreach_from_list:
  "tailq s q (xs @ ys) \<Longrightarrow> foreach_from s (case ys of [] \<Rightarrow> None | y # _ \<Rightarrow> Some y) = Some ys"
proof (induction ys arbitrary: xs)
  case (Cons y ys)
  then have "tailq s q ((xs @ [y]) @ ys)" by simp
  from Cons.IH [OF this] Cons.prems show ?case
    by (simp add: foreach_from.simps [of s "Some y"] tailq_next)
qed (simp add: foreach_from.simps)

lemma tailq_foreach: "tailq s q xs \<Longrightarrow> TAILQ_FOREACH q s = Some xs"
  using foreach_from_list [of s q "[]" xs] by (simp add: TAILQ_FOREACH_def tailq_first)

lemma foreach_reverse_from_list:
  "tailq s q (xs @ ys) \<Longrightarrow>
   foreach_reverse_from s (if xs = [] then None else Some (last xs)) = Some (rev xs)"
proof (induction xs arbitrary: ys rule: rev_induct)
  case (snoc x xs)
  then have "tailq s q (xs @ x # ys)" by simp
  from snoc.IH [OF this] tailq_prev [OF this] show ?case
    by (simp add: foreach_reverse_from.simps [of s "Some x"])
qed (simp add: foreach_reverse_from.simps)

lemma tailq_foreach_reverse: "tailq s q xs \<Longrightarrow> TAILQ_FOREACH_REVERSE q s = Some (rev xs)"
  using foreach_reverse_from_list [of s q xs "[]"] by (simp add: TAILQ_FOREACH_REVERSE_def tailq_last)

section \<open>Changes on lists\<close>

lemma tailq_init: "tailq (TAILQ_INIT q s) q []"
  by (simp add: tailq_def TAILQ_INIT_def Let_def)

text \<open>A chain does not see a change of pointers that are not on it.\<close>

lemma slot_mem [simp]: "Next_Of e \<in> Next_Of ` A \<longleftrightarrow> e \<in> A" "First_Of q \<notin> Next_Of ` A"
  by auto

lemma linked_set_slot [simp]:
  "a \<noteq> c \<Longrightarrow> c \<notin> Next_Of ` set xs \<Longrightarrow> linked (set_slot c v s) a xs b = linked s a xs b"
  by (induction xs arbitrary: a) auto

lemma linked_set_prev [simp]: "e \<notin> set xs \<Longrightarrow> linked (set_prev e c s) a xs b = linked s a xs b"
  by (induction xs arbitrary: a) auto

lemma linked_set_tail [simp]: "linked (set_tail q c s) a xs b = linked s a xs b"
  by (induction xs arbitrary: a) auto

text \<open>The last pointer of a chain may be changed, as it is not followed.\<close>

lemma linked_set_last:
  assumes "distinct xs" and "a \<notin> Next_Of ` set xs"
  shows "linked (set_slot (last_slot a xs) v s) a xs (last_slot a xs) = linked s a xs (last_slot a xs)"
  using assms
proof (induction xs arbitrary: a)
  case (Cons x xs)
  have "last_slot (Next_Of x) xs \<noteq> a"
    using last_slot_cases [of "Next_Of x" xs] Cons.prems by auto
  then show ?case using Cons by auto
qed simp

lemma last_slot_eq [simp]:
  "last_slot (First_Of q) xs = Next_Of e \<longleftrightarrow> xs \<noteq> [] \<and> last xs = e"
  "Next_Of e = last_slot (First_Of q) xs \<longleftrightarrow> xs \<noteq> [] \<and> last xs = e"
  "last_slot (First_Of q) xs = First_Of r \<longleftrightarrow> xs = [] \<and> r = q"
  "First_Of r = last_slot (First_Of q) xs \<longleftrightarrow> xs = [] \<and> r = q"
  "last_slot (Next_Of d) xs = Next_Of e \<longleftrightarrow> last (d # xs) = e"
  "Next_Of e = last_slot (Next_Of d) xs \<longleftrightarrow> last (d # xs) = e"
  "last_slot (Next_Of d) xs \<noteq> First_Of r" "First_Of r \<noteq> last_slot (Next_Of d) xs"
  by (auto simp: last_slot_def)

lemma tailq_insert_tail:
  assumes "tailq s q xs" and "e \<notin> set xs"
  shows "tailq (TAILQ_INSERT_TAIL q e s) q (xs @ [e])"
proof -
  have t: "tail s q = last_slot (First_Of q) xs" by (rule tailq_tail [OF assms(1)])
  have off: "last_slot (First_Of q) xs \<noteq> Next_Of e" using assms(2) by auto
  show ?thesis
    using assms off
    by (simp add: tailq_def TAILQ_INSERT_TAIL_def Let_def t linked_set_last)
qed

text \<open>The pointers of different parts of a list are different.\<close>

lemma last_slot_off:
  assumes "distinct (xs @ e # ys)"
  shows "last_slot (First_Of q) xs \<notin> Next_Of ` set ys" and "last_slot (First_Of q) xs \<noteq> Next_Of e"
    and "last_slot (First_Of q) xs \<noteq> last_slot (Next_Of e) ys"
proof -
  have "last xs \<noteq> last (e # ys)" if "xs \<noteq> []"
    using that assms last_in_set [of xs] last_in_set [of "e # ys"]
    by (metis IntI distinct_append empty_iff list.distinct(1))
  then show "last_slot (First_Of q) xs \<noteq> last_slot (Next_Of e) ys"
    by (cases "xs = []") (auto simp: last_slot_def)
qed (use last_slot_cases [of "First_Of q" xs] assms in \<open>auto simp: last_slot_def\<close>)

lemma last_not_in: "z \<notin> set (e # ys) \<Longrightarrow> last_slot (Next_Of e) ys \<noteq> Next_Of z"
  by (auto simp: last_slot_def)

text \<open>What \<open>tailq\<close> says of a queue around an element, and how to show it.\<close>

lemma tailq_split:
  "tailq s q (xs @ e # ys) \<longleftrightarrow>
     distinct (xs @ e # ys) \<and> linked s (First_Of q) xs (last_slot (First_Of q) xs) \<and>
     slot s (last_slot (First_Of q) xs) = Some e \<and> prev s e = last_slot (First_Of q) xs \<and>
     linked s (Next_Of e) ys (last_slot (Next_Of e) ys) \<and> tail s q = last_slot (Next_Of e) ys \<and>
     slot s (last_slot (Next_Of e) ys) = None"
  by (simp add: tailq_def) (metis linked_end)

lemma tailq_insert_before:
  assumes "tailq s q (xs @ l # ys)" and "e \<notin> set (xs @ l # ys)"
  shows "tailq (TAILQ_INSERT_BEFORE l e s) q (xs @ e # l # ys)"
proof -
  have d: "distinct (xs @ l # ys)" "prev s l = last_slot (First_Of q) xs"
    using assms(1) by (simp_all add: tailq_split)
  note off = last_slot_off [OF d(1), of q]
  have "last_slot (First_Of q) xs \<noteq> Next_Of e" "last_slot (Next_Of l) ys \<noteq> Next_Of e"
    using assms(2) last_not_in [of e l ys] by auto
  then show ?thesis
    using assms off by (auto simp: tailq_split TAILQ_INSERT_BEFORE_def Let_def linked_set_last)
qed

lemma tailq_insert_after:
  assumes "tailq s q (xs @ l # ys)" and "e \<notin> set (xs @ l # ys)"
  shows "tailq (TAILQ_INSERT_AFTER q l e s) q (xs @ l # e # ys)"
proof -
  have d: "distinct (xs @ l # ys)" using assms(1) by (simp add: tailq_split)
  note off = last_slot_off [OF d, of q] tailq_at(3) [OF assms(1)]
  have "last_slot (First_Of q) xs \<noteq> Next_Of e" "last_slot (Next_Of l) ys \<noteq> Next_Of e"
    using assms(2) last_not_in [of e l ys] by auto
  then show ?thesis
    using assms off
    by (cases ys) (auto simp: tailq_split TAILQ_INSERT_AFTER_def Let_def)
qed

lemma tailq_insert_head:
  assumes "tailq s q xs" and "e \<notin> set xs"
  shows "tailq (TAILQ_INSERT_HEAD q e s) q (e # xs)"
proof (cases xs)
  case Nil
  with assms tailq_first [OF assms(1)] show ?thesis
    by (simp add: tailq_def TAILQ_INSERT_HEAD_def TAILQ_FIRST_def Let_def)
next
  case (Cons x ys)
  then have q: "tailq s q ([] @ x # ys)" using assms(1) by simp
  have "last_slot (Next_Of x) ys \<noteq> Next_Of e"
    by (rule last_not_in) (use assms(2) Cons in simp)
  then have "tailq (TAILQ_INSERT_HEAD q e s) q ([e] @ x # ys)"
    using q assms(2) Cons unfolding tailq_split
    by (auto simp: TAILQ_INSERT_HEAD_def Let_def)
  then show ?thesis by (simp add: Cons)
qed

lemma tailq_remove:
  assumes "tailq s q (xs @ e # ys)"
  shows "tailq (TAILQ_REMOVE q e s) q (xs @ ys)"
proof -
  have d: "distinct (xs @ e # ys)" using assms(1) by (simp add: tailq_split)
  note off = last_slot_off [OF d, of q] tailq_at [OF assms(1)]
  show ?thesis
  proof (cases ys)
    case Nil
    with assms off show ?thesis
      by (simp add: tailq_split) (simp add: tailq_def TAILQ_REMOVE_def Let_def linked_set_last)
  next
    case (Cons y zs)
    with assms off show ?thesis
      by (auto simp: tailq_split TAILQ_REMOVE_def Let_def linked_set_last)
  qed
qed

lemma tailq_replace:
  assumes "tailq s q (xs @ e # ys)" and "f \<notin> set (xs @ e # ys)"
  shows "tailq (TAILQ_REPLACE q e f s) q (xs @ f # ys)"
proof -
  have d: "distinct (xs @ e # ys)" using assms(1) by (simp add: tailq_split)
  note off = last_slot_off [OF d, of q] tailq_at [OF assms(1)]
  have "last_slot (First_Of q) xs \<noteq> Next_Of f" using assms(2) by auto
  then show ?thesis
    using assms off
    by (cases ys) (auto simp: tailq_split TAILQ_REPLACE_def Let_def linked_set_last)
qed

lemma tailq_concat:
  assumes "tailq s q xs" and "tailq s r ys" and "q \<noteq> r" and "set xs \<inter> set ys = {}"
  shows "tailq (TAILQ_CONCAT q r s) q (xs @ ys)" and "tailq (TAILQ_CONCAT q r s) r []"
proof -
  have t: "tail s q = last_slot (First_Of q) xs" "tail s r = last_slot (First_Of r) ys"
    by (rule tailq_tail, rule assms)+
  show "tailq (TAILQ_CONCAT q r s) q (xs @ ys)"
  proof (cases ys)
    case Nil
    with assms show ?thesis by (simp add: TAILQ_CONCAT_def tailq_first)
  next
    case (Cons y zs)
    have d: "distinct (xs @ y # zs)" using assms by (auto simp: tailq_def Cons)
    have x: "linked s (First_Of q) xs (last_slot (First_Of q) xs)"
      using assms(1) by (simp add: tailq_def t)
    have y: "linked s (Next_Of y) zs (last_slot (Next_Of y) zs)" "slot s (last_slot (Next_Of y) zs) = None"
      using assms(2) by (simp_all add: tailq_def t Cons)
    have "TAILQ_CONCAT q r s = TAILQ_INIT r (set_tail q (last_slot (Next_Of y) zs)
        (set_prev y (last_slot (First_Of q) xs) (set_slot (last_slot (First_Of q) xs) (Some y) s)))"
      using assms(2) by (simp add: TAILQ_CONCAT_def tailq_first Cons t Let_def)
    moreover have "last_slot (First_Of q) xs \<noteq> First_Of r" using assms(3) by simp
    ultimately show ?thesis
      using x y d assms(3) last_slot_off [OF d, of q]
      by (simp add: Cons tailq_split TAILQ_INIT_def Let_def linked_set_last)
  qed
  show "tailq (TAILQ_CONCAT q r s) r []"
    using assms(2) by (cases ys) (auto simp: TAILQ_CONCAT_def tailq_first tailq_init Let_def)
qed

section \<open>What a change leaves alone\<close>

text \<open>The pointers of another queue that shares no element.\<close>

lemma tailq_others:
  assumes "tailq s r zs" and "q \<noteq> r"
  shows "tailq (TAILQ_INIT q s) r zs"
    and "tailq s q xs \<Longrightarrow> e \<notin> set zs \<Longrightarrow> set xs \<inter> set zs = {} \<Longrightarrow> tailq (TAILQ_INSERT_TAIL q e s) r zs"
    and "tailq s q (xs @ e # ys) \<Longrightarrow> set (xs @ e # ys) \<inter> set zs = {} \<Longrightarrow> tailq (TAILQ_REMOVE q e s) r zs"
    and "tailq s q (xs @ l # ys) \<Longrightarrow> e \<notin> set zs \<Longrightarrow> set (xs @ l # ys) \<inter> set zs = {} \<Longrightarrow>
         tailq (TAILQ_INSERT_BEFORE l e s) r zs"
proof -
  show "tailq (TAILQ_INIT q s) r zs"
    by (rule tailq_frame [OF assms(1)]) (use assms(2) in \<open>auto simp: TAILQ_INIT_def Let_def\<close>)
  show "tailq (TAILQ_INSERT_TAIL q e s) r zs"
    if "tailq s q xs" "e \<notin> set zs" "set xs \<inter> set zs = {}"
    by (rule tailq_frame [OF assms(1)])
      (use assms(2) that last_in_set [of xs] in
        \<open>auto simp: TAILQ_INSERT_TAIL_def Let_def tailq_tail last_slot_def disjoint_iff\<close>)
  show "tailq (TAILQ_REMOVE q e s) r zs"
    if "tailq s q (xs @ e # ys)" "set (xs @ e # ys) \<inter> set zs = {}"
    using tailq_at [OF that(1)] that(2) last_in_set [of xs]
    by (intro tailq_frame [OF assms(1)])
      (use assms(2) in \<open>auto simp: TAILQ_REMOVE_def Let_def last_slot_def disjoint_iff split: list.splits option.splits\<close>)
  show "tailq (TAILQ_INSERT_BEFORE l e s) r zs"
    if "tailq s q (xs @ l # ys)" "e \<notin> set zs" "set (xs @ l # ys) \<inter> set zs = {}"
    using tailq_at [OF that(1)] that(2,3) last_in_set [of xs]
    by (intro tailq_frame [OF assms(1)])
      (use assms(2) in \<open>auto simp: TAILQ_INSERT_BEFORE_def Let_def last_slot_def disjoint_iff\<close>)
qed

section \<open>The contract of a macro\<close>

text \<open>
  A macro \<open>f\<close> does to the list of the queue \<open>q\<close> what \<open>g\<close> does, for the lists that \<open>pre\<close> admits; both
  loops then visit the new list.
\<close>

locale tailq_op =
  fixes q :: 'q and f :: "('q, 'e) qstore \<Rightarrow> ('q, 'e) qstore"
    and pre :: "'e list \<Rightarrow> bool" and g :: "'e list \<Rightarrow> 'e list"
  assumes refines: "tailq s q xs \<Longrightarrow> pre xs \<Longrightarrow> tailq (f s) q (g xs)"
begin

lemma foreach: "tailq s q xs \<Longrightarrow> pre xs \<Longrightarrow> TAILQ_FOREACH q (f s) = Some (g xs)"
  by (rule tailq_foreach) (rule refines)

lemma foreach_reverse: "tailq s q xs \<Longrightarrow> pre xs \<Longrightarrow> TAILQ_FOREACH_REVERSE q (f s) = Some (rev (g xs))"
  by (rule tailq_foreach_reverse) (rule refines)

lemmas visits = foreach foreach_reverse

end

text \<open>The places of a list that the macros name by an element.\<close>

definition put_before :: "'e \<Rightarrow> 'e \<Rightarrow> 'e list \<Rightarrow> 'e list" where
  "put_before l e xs = takeWhile (\<lambda>x. x \<noteq> l) xs @ e # dropWhile (\<lambda>x. x \<noteq> l) xs"

definition put_after :: "'e \<Rightarrow> 'e \<Rightarrow> 'e list \<Rightarrow> 'e list" where
  "put_after l e xs = takeWhile (\<lambda>x. x \<noteq> l) xs @ l # e # tl (dropWhile (\<lambda>x. x \<noteq> l) xs)"

lemma put_at [simp]:
  assumes "l \<notin> set ys"
  shows "put_before l e (ys @ l # zs) = ys @ e # l # zs" "put_after l e (ys @ l # zs) = ys @ l # e # zs"
proof -
  have "x \<noteq> l" if "x \<in> set ys" for x using that assms by auto
  then show "put_before l e (ys @ l # zs) = ys @ e # l # zs" "put_after l e (ys @ l # zs) = ys @ l # e # zs"
    by (simp_all add: put_before_def put_after_def takeWhile_append dropWhile_append)
qed

lemma tailq_elem:
  assumes "tailq s q xs" and "e \<in> set xs"
  obtains ys zs where "xs = ys @ e # zs" and "e \<notin> set ys" and "e \<notin> set zs"
proof -
  obtain ys zs where xs: "xs = ys @ e # zs" using assms(2) by (metis split_list)
  with assms(1) show thesis by (intro that [OF xs]) (auto simp: tailq_def)
qed

interpretation init: tailq_op q "TAILQ_INIT q" "\<lambda>_. True" "\<lambda>_. []" for q
  by unfold_locales (rule tailq_init)

interpretation insert_head: tailq_op q "TAILQ_INSERT_HEAD q e" "\<lambda>xs. e \<notin> set xs" "\<lambda>xs. e # xs" for q e
  by unfold_locales (rule tailq_insert_head)

interpretation insert_tail: tailq_op q "TAILQ_INSERT_TAIL q e" "\<lambda>xs. e \<notin> set xs" "\<lambda>xs. xs @ [e]" for q e
  by unfold_locales (rule tailq_insert_tail)

interpretation insert_before: tailq_op q "TAILQ_INSERT_BEFORE l e" "\<lambda>xs. l \<in> set xs \<and> e \<notin> set xs"
  "put_before l e" for q l e
proof unfold_locales
  fix s :: "('a, 'b) qstore" and xs :: "'b list"
  assume q: "tailq s q xs" and pre: "l \<in> set xs \<and> e \<notin> set xs"
  from q pre obtain ys zs where "xs = ys @ l # zs" "l \<notin> set ys" by (blast elim: tailq_elem)
  with q pre show "tailq (TAILQ_INSERT_BEFORE l e s) q (put_before l e xs)"
    by (simp add: tailq_insert_before)
qed

interpretation insert_after: tailq_op q "TAILQ_INSERT_AFTER q l e" "\<lambda>xs. l \<in> set xs \<and> e \<notin> set xs"
  "put_after l e" for q l e
proof unfold_locales
  fix s :: "('a, 'b) qstore" and xs :: "'b list"
  assume q: "tailq s q xs" and pre: "l \<in> set xs \<and> e \<notin> set xs"
  from q pre obtain ys zs where "xs = ys @ l # zs" "l \<notin> set ys" by (blast elim: tailq_elem)
  with q pre show "tailq (TAILQ_INSERT_AFTER q l e s) q (put_after l e xs)"
    by (simp add: tailq_insert_after)
qed

interpretation remove: tailq_op q "TAILQ_REMOVE q e" "\<lambda>xs. e \<in> set xs" "remove1 e" for q e
proof unfold_locales
  fix s :: "('a, 'b) qstore" and xs :: "'b list"
  assume q: "tailq s q xs" and pre: "e \<in> set xs"
  from q pre obtain ys zs where "xs = ys @ e # zs" "e \<notin> set ys" by (blast elim: tailq_elem)
  with q show "tailq (TAILQ_REMOVE q e s) q (remove1 e xs)"
    by (simp add: tailq_remove remove1_append)
qed

interpretation replace: tailq_op q "TAILQ_REPLACE q e f" "\<lambda>xs. e \<in> set xs \<and> f \<notin> set xs"
  "map (\<lambda>x. if x = e then f else x)" for q e f
proof unfold_locales
  fix s :: "('a, 'b) qstore" and xs :: "'b list"
  assume q: "tailq s q xs" and pre: "e \<in> set xs \<and> f \<notin> set xs"
  from q pre obtain ys zs where xs: "xs = ys @ e # zs" "e \<notin> set ys" "e \<notin> set zs"
    by (blast elim: tailq_elem)
  then have "map (\<lambda>x. if x = e then f else x) xs = ys @ f # zs"
    by (auto intro!: map_idI)
  with q pre xs(1) show "tailq (TAILQ_REPLACE q e f s) q (map (\<lambda>x. if x = e then f else x) xs)"
    by (simp only:) (rule tailq_replace, auto)
qed

section \<open>Properties\<close>


text \<open>A queue of three elements, built from an uninitialised store.\<close>

definition z_store :: "(unit, nat) qstore" where
  "z_store = TAILQ_INSERT_TAIL () 3 (TAILQ_INSERT_TAIL () 2 (TAILQ_INSERT_TAIL () 1
     (TAILQ_INIT () \<lparr>slot = \<lambda>_. Some 9, tail = \<lambda>_. Next_Of 8, prev = \<lambda>_. Next_Of 7\<rparr>)))"

lemma z_store: "tailq z_store () [1, 2, 3]"
  unfolding z_store_def
  using tailq_insert_tail [of _ "()" "[1, 2]" "3 :: nat"] tailq_insert_tail [of _ "()" "[1]" "2 :: nat"]
    tailq_insert_tail [of _ "()" "[]" "1 :: nat"] by (simp add: tailq_init)


end
