(* ===== verification/Mvls_Heap.thy ===== *)
theory Mvls_Heap
  imports Mvls_Env Tail_Queue
begin

text \<open>
  The environment of \<^verbatim>\<open>mvls\<close> as the code keeps it: devices and ports are objects in memory, linked
  into tail queues, with pointers from a port to its device. \<open>Mvls_Env\<close>, where the queues are lists
  and the devices contain their ports, is what this memory represents; every operation that
  changes the environment does the same on both, the whole of \<^verbatim>\<open>env_init\<close> included.
\<close>

section \<open>Memory\<close>

text \<open>
  \<open>h_devs\<close> and \<open>h_ports\<close> are the links of the devices and of the ports; a device is also the head of
  its own queue of ports. The field \<open>d_ports\<close> of the objects in \<open>h_dev\<close> is not used. \<open>h_used\<close> are the
  pointers that \<^verbatim>\<open>calloc\<close> has returned.
\<close>

type_synonym ptr = nat

record env_heap =
  h_devs :: "(unit, ptr) qstore"
  h_ports :: "(ptr, ptr) qstore"
  h_dev :: "ptr \<Rightarrow> dev"
  h_port :: "ptr \<Rightarrow> port"
  h_port_dev :: "ptr \<Rightarrow> ptr"
  h_multichip :: bool
  h_dl :: devlink
  h_used :: "ptr list"

text \<open>A loop over a queue that returns the first element with a property.\<close>

partial_function (option) find_from ::
  "('e \<Rightarrow> bool) \<Rightarrow> ('q, 'e) qstore \<Rightarrow> 'e option \<Rightarrow> 'e option option" where
  "find_from P s var =
     (case var of
        None \<Rightarrow> Some None
      | Some e \<Rightarrow> if P e then Some (Some e) else find_from P s (TAILQ_NEXT e s))"

definition heap_dev_find :: "env_heap \<Rightarrow> string \<Rightarrow> string \<Rightarrow> ptr option option" where
  "heap_dev_find H busid devid =
     find_from (\<lambda>p. is_dev busid devid (h_dev H p)) (h_devs H) (TAILQ_FIRST () (h_devs H))"

definition heap_dev_get :: "env_heap \<Rightarrow> int \<Rightarrow> ptr option option" where
  "heap_dev_get H index =
     find_from (\<lambda>p. int (d_index (h_dev H p)) = index) (h_devs H) (TAILQ_FIRST () (h_devs H))"

definition heap_add_port :: "ptr \<Rightarrow> ptr \<Rightarrow> port \<Rightarrow> env_heap \<Rightarrow> env_heap" where
  "heap_add_port dev p port H = H
     \<lparr>h_used := p # h_used H, h_port := (h_port H)(p := port),
      h_port_dev := (h_port_dev H)(p := dev),
      h_ports := TAILQ_INSERT_TAIL dev p (h_ports H)\<rparr>"

definition heap_port_cb :: "(ptr list \<Rightarrow> ptr option) \<Rightarrow> 'a mnl \<Rightarrow> ('a, env_heap) mnl_cb" where
  "heap_port_cb calloc M msg H = do {
     tb \<leftarrow> devlink_parse M msg (\<lambda>_. None);
     (case (tb DEVLINK_ATTR_BUS_NAME, tb DEVLINK_ATTR_DEV_NAME, tb DEVLINK_ATTR_PORT_INDEX,
            tb DEVLINK_ATTR_PORT_FLAVOUR) of
        (Some b, Some d, Some i, Some f) \<Rightarrow> do {
          found \<leftarrow> heap_dev_find H (attr_str M b) (attr_str M d);
          Some (case found of
            None \<Rightarrow> (CB_OK, H)
          | Some dev \<Rightarrow>
              (case calloc (h_used H) of
                 None \<Rightarrow> (CB_ERROR, H)
               | Some p \<Rightarrow>
                   (CB_OK, heap_add_port dev p
                      \<lparr>p_index = attr_u32 M i,
                       p_netdev = port_netdev M (tb DEVLINK_ATTR_PORT_NETDEV_NAME) (attr_u16 M f),
                       p_flavor = attr_u16 M f, p_regs = []\<rparr> H)))
        }
      | _ \<Rightarrow> Some (CB_ERROR, H))
   }"

definition heap_add_dev :: "ptr \<Rightarrow> dev \<Rightarrow> env_heap \<Rightarrow> env_heap" where
  "heap_add_dev p dev H =
     (let H = H\<lparr>h_used := p # h_used H, h_dev := (h_dev H)(p := dev),
                h_ports := TAILQ_INIT p (h_ports H)\<rparr>;
          H = (if TAILQ_FIRST () (h_devs H) \<noteq> None then H\<lparr>h_multichip := True\<rparr> else H) in
      H\<lparr>h_devs := TAILQ_INSERT_TAIL () p (h_devs H)\<rparr>)"

definition heap_dev_add ::
  "(ptr list \<Rightarrow> ptr option) \<Rightarrow> env_heap \<Rightarrow> string \<Rightarrow> string \<Rightarrow> string \<Rightarrow> int \<times> env_heap" where
  "heap_dev_add calloc H asicid busid devid =
     (case List.find (\<lambda>chip. chip_id chip = asicid) chips of
        None \<Rightarrow> (ENOSYS, H)
      | Some chip \<Rightarrow>
          (case calloc (h_used H) of
             None \<Rightarrow> (ENOMEM, H)
           | Some p \<Rightarrow>
               (0, heap_add_dev p
                  \<lparr>d_devlink = \<lparr>da_bus = busid, da_dev = devid\<rparr>, d_chip = chip, d_index = 0,
                   d_ports = [], d_global1 = [], d_pvt = []\<rparr> H)))"

definition heap_dev_cb :: "(ptr list \<Rightarrow> ptr option) \<Rightarrow> 'a mnl \<Rightarrow> ('a, env_heap) mnl_cb" where
  "heap_dev_cb calloc M msg H = do {
     tb \<leftarrow> devlink_parse M msg (\<lambda>_. None);
     case (tb DEVLINK_ATTR_BUS_NAME, tb DEVLINK_ATTR_DEV_NAME, tb DEVLINK_ATTR_INFO_DRIVER_NAME) of
       (Some _, Some _, Some drv) \<Rightarrow>
         if take 6 (attr_str M drv) \<noteq> ''mv88e6'' then Some (CB_OK, H)
         else do {
           (asic, tb) \<leftarrow> find_asic_id M msg tb;
           case asic of
             None \<Rightarrow> Some (CB_OK, H)
           | Some asicid \<Rightarrow> do {
               b \<leftarrow> tb DEVLINK_ATTR_BUS_NAME;
               d \<leftarrow> tb DEVLINK_ATTR_DEV_NAME;
               let (err, H) = heap_dev_add calloc H asicid (attr_str M b) (attr_str M d);
               Some (if err \<noteq> 0 then CB_ERROR else CB_OK, H)
             }
         }
     | _ \<Rightarrow> Some (CB_ERROR, H)
   }"

section \<open>Sorting\<close>

partial_function (option) heap_sort_from ::
  "(ptr \<Rightarrow> nat) \<Rightarrow> (unit, ptr) qstore \<Rightarrow> ptr option \<Rightarrow> (unit, ptr) qstore option" where
  "heap_sort_from index s var =
     (case var of
        None \<Rightarrow> Some s
      | Some dev \<Rightarrow>
          (case TAILQ_NEXT dev s of
             None \<Rightarrow> Some s
           | Some next \<Rightarrow>
               if index next > index dev then heap_sort_from index s (Some next)
               else do {
                 insert \<leftarrow> find_from (\<lambda>i. \<not> index i < index dev) s (Some next);
                 let s = TAILQ_REMOVE () dev s;
                 let s = (case insert of
                            Some i \<Rightarrow> TAILQ_INSERT_BEFORE i dev s
                          | None \<Rightarrow> TAILQ_INSERT_TAIL () dev s);
                 heap_sort_from index s (Some next)
               }))"

definition heap_dev_sort :: "env_heap \<Rightarrow> env_heap option" where
  "heap_dev_sort H = do {
     s \<leftarrow> heap_sort_from (\<lambda>p. d_index (h_dev H p)) (h_devs H) (TAILQ_FIRST () (h_devs H));
     Some (H\<lparr>h_devs := s\<rparr>)
   }"

section \<open>Initialisation\<close>

text \<open>The loop over the devices that calls \<^verbatim>\<open>dev_init\<close> and returns the first error.\<close>

partial_function (option) heap_init_from ::
  "'a mnl \<Rightarrow> ('k, 'a) dl_kernel \<Rightarrow> env_heap \<Rightarrow> ptr option \<Rightarrow> 'k \<Rightarrow> (int \<times> env_heap \<times> 'k) option" where
  "heap_init_from M K H var k =
     (case var of
        None \<Rightarrow> Some (0, H, k)
      | Some p \<Rightarrow> do {
          r \<leftarrow> dev_init M K (h_dl H) (h_dev H p) k;
          (case r of
             (err, dev, k) \<Rightarrow>
               if err \<noteq> 0 then Some (err, H\<lparr>h_dev := (h_dev H)(p := dev)\<rparr>, k)
               else heap_init_from M K (H\<lparr>h_dev := (h_dev H)(p := dev)\<rparr>) (TAILQ_NEXT p (h_devs H)) k)
        })"

definition heap_env_init ::
  "(ptr list \<Rightarrow> ptr option) \<Rightarrow> genl_uapi \<Rightarrow> 'a mnl \<Rightarrow> ('k, 'a) dl_kernel \<Rightarrow> nl_socket \<Rightarrow> env_heap \<Rightarrow> 'k \<Rightarrow>
   (int \<times> env_heap \<times> 'k) option" where
  "heap_env_init calloc G M K sk H k = do {
     let H = H\<lparr>h_devs := TAILQ_INIT () (h_devs H)\<rparr>;
     (err, fam, _, _, k) \<leftarrow> devlink_open G M K sk (dl_family (h_dl H)) k;
     let H = H\<lparr>h_dl := \<lparr>dl_family = fam\<rparr>\<rparr>;
     if err \<noteq> 0 then Some (err, H, k)
     else do {
       (err, H, k) \<leftarrow> devlink_query K
         (devlink_msg_prepare (h_dl H) DEVLINK_CMD_INFO_GET [NLM_F_REQUEST, NLM_F_ACK, NLM_F_DUMP])
         (Some (heap_dev_cb calloc M)) H k;
       if err \<noteq> 0 then Some (err, H, k)
       else do {
         (err, H, k) \<leftarrow> devlink_query K
           (devlink_msg_prepare (h_dl H) DEVLINK_CMD_PORT_GET [NLM_F_REQUEST, NLM_F_ACK, NLM_F_DUMP])
           (Some (heap_port_cb calloc M)) H k;
         if err \<noteq> 0 then Some (err, H, k)
         else if TAILQ_EMPTY () (h_devs H) then Some (- 1, H, k)
         else do {
           (err, H, k) \<leftarrow> heap_init_from M K H (TAILQ_FIRST () (h_devs H)) k;
           if err \<noteq> 0 then Some (err, H, k)
           else do {
             H \<leftarrow> heap_dev_sort H;
             Some (0, H, k)
           }
         }
       }
     }
   }"

section \<open>What the memory represents\<close>

definition dev_at :: "env_heap \<Rightarrow> (ptr \<Rightarrow> ptr list) \<Rightarrow> ptr \<Rightarrow> dev" where
  "dev_at H pss d = (h_dev H d)\<lparr>d_ports := map (h_port H) (pss d)\<rparr>"

text \<open>\<open>ps\<close> are the devices in their order, \<open>pss d\<close> the ports of the device \<open>d\<close>.\<close>

definition represents_by :: "env_heap \<Rightarrow> ptr list \<Rightarrow> (ptr \<Rightarrow> ptr list) \<Rightarrow> env \<Rightarrow> bool" where
  "represents_by H ps pss env \<longleftrightarrow>
     tailq (h_devs H) () ps \<and> set ps \<subseteq> set (h_used H) \<and>
     (\<forall>d \<in> set ps. tailq (h_ports H) d (pss d) \<and> set (pss d) \<subseteq> set (h_used H) \<and>
        (\<forall>p \<in> set (pss d). h_port_dev H p = d)) \<and>
     env = \<lparr>multichip = h_multichip H, e_dl = h_dl H, e_devs = map (dev_at H pss) ps\<rparr>"

definition represents :: "env_heap \<Rightarrow> env \<Rightarrow> bool" where
  "represents H env \<longleftrightarrow> (\<exists>ps pss. represents_by H ps pss env)"

lemma representsI: "represents_by H ps pss env \<Longrightarrow> represents H env"
  by (auto simp: represents_def)

text \<open>The contract of \<^verbatim>\<open>calloc\<close>: it fails as the model says, and what it returns is not in use.\<close>

definition alloc_ok :: "(ptr list \<Rightarrow> ptr option) \<Rightarrow> 'a mnl \<Rightarrow> bool" where
  "alloc_ok calloc M \<longleftrightarrow>
     (\<forall>used. case calloc used of None \<Rightarrow> \<not> m_calloc M | Some p \<Rightarrow> m_calloc M \<and> p \<notin> set used)"

section \<open>Looking up\<close>

lemma find_from_list:
  "tailq s q (xs @ ys) \<Longrightarrow>
   find_from P s (case ys of [] \<Rightarrow> None | y # _ \<Rightarrow> Some y) = Some (List.find P ys)"
proof (induction ys arbitrary: xs)
  case (Cons y ys)
  then have "tailq s q ((xs @ [y]) @ ys)" by simp
  from Cons.IH [OF this] Cons.prems show ?case
    by (simp add: find_from.simps [of P s "Some y"] tailq_next)
qed (simp add: find_from.simps)

lemma find_from_first: "tailq s q xs \<Longrightarrow> find_from P s (TAILQ_FIRST q s) = Some (List.find P xs)"
  using find_from_list [of s q "[]" xs P] by (simp add: tailq_first)

lemma find_map: "List.find P (map f xs) = map_option f (List.find (P \<circ> f) xs)"
  by (induction xs) auto

lemma find_Some: "List.find P xs = Some x \<Longrightarrow> x \<in> set xs \<and> P x"
  by (induction xs) (auto split: if_splits)

lemma dev_at_sel [simp]:
  "d_devlink (dev_at H pss d) = d_devlink (h_dev H d)" "d_index (dev_at H pss d) = d_index (h_dev H d)"
  by (simp_all add: dev_at_def)

lemma is_dev_at [simp]: "is_dev b i (dev_at H pss d) = is_dev b i (h_dev H d)"
  by (simp add: is_dev_def)

lemma heap_dev_find:
  assumes "represents_by H ps pss env"
  obtains p where "heap_dev_find H b i = Some (Some p)" "p \<in> set ps" "env_dev_find env b i = Inr (dev_at H pss p)"
      "List.find (\<lambda>p. is_dev b i (h_dev H p)) ps = Some p"
    | "heap_dev_find H b i = Some None" "env_dev_find env b i = Inl ENODEV"
proof -
  have f: "heap_dev_find H b i = Some (List.find (\<lambda>p. is_dev b i (h_dev H p)) ps)"
    using assms by (simp add: heap_dev_find_def represents_by_def find_from_first)
  moreover have e: "List.find (is_dev b i) (e_devs env) =
      map_option (dev_at H pss) (List.find (\<lambda>p. is_dev b i (h_dev H p)) ps)"
    using assms by (auto simp: represents_by_def find_map o_def)
  show thesis
  proof (cases "List.find (\<lambda>p. is_dev b i (h_dev H p)) ps")
    case None
    with f e show ?thesis by (intro that(2)) (simp_all add: env_dev_find_def)
  next
    case (Some p)
    then have "p \<in> set ps" by (auto dest: find_Some)
    with Some f e show ?thesis by (intro that(1) [of p]) (simp_all add: env_dev_find_def)
  qed
qed

text \<open>\<open>env_dev_get\<close> finds the same device on both.\<close>

lemma heap_dev_get:
  assumes "represents_by H ps pss env"
  shows "(case heap_dev_get H index of
            Some (Some p) \<Rightarrow> p \<in> set ps \<and> env_dev_get env index = Inr (dev_at H pss p)
          | Some None \<Rightarrow> env_dev_get env index = Inl EINVAL
          | None \<Rightarrow> False)"
proof -
  have "heap_dev_get H index = Some (List.find (\<lambda>p. int (d_index (h_dev H p)) = index) ps)"
    using assms by (simp add: heap_dev_get_def represents_by_def find_from_first)
  moreover have "List.find (\<lambda>dev. int (d_index dev) = index) (e_devs env) =
      map_option (dev_at H pss) (List.find (\<lambda>p. int (d_index (h_dev H p)) = index) ps)"
    using assms by (auto simp: represents_by_def find_map o_def)
  ultimately show ?thesis
    by (auto simp: env_dev_get_def split: option.splits dest: find_Some)
qed

section \<open>Adding\<close>

lemma map_update_first:
  assumes "distinct ps" and "List.find (P \<circ> f) ps = Some p"
    and "\<And>x. x \<in> set ps \<Longrightarrow> x \<noteq> p \<Longrightarrow> g x = f x" and "g p = u (f p)"
  shows "map g ps = update_first P u (map f ps)"
  using assms
proof (induction ps)
  case (Cons x ps)
  show ?case
  proof (cases "P (f x)")
    case True
    with Cons.prems have "p = x" by simp
    with Cons.prems show ?thesis by (auto simp: True)
  next
    case False
    with Cons.prems(2) have p: "List.find (P \<circ> f) ps = Some p" by (simp add: o_def)
    then have "p \<in> set ps" by (auto dest: find_Some)
    with Cons.prems have "x \<noteq> p" by auto
    with Cons.prems Cons.IH [OF _ p] show ?thesis by (simp add: False)
  qed
qed simp

lemma represents_add_port:
  assumes R: "represents_by H ps pss env" and d: "List.find (\<lambda>p. is_dev b i (h_dev H p)) ps = Some d"
    and fresh: "p \<notin> set (h_used H)"
  shows "represents_by (heap_add_port d p port H) ps (pss(d := pss d @ [p]))
           (env\<lparr>e_devs := update_first (is_dev b i) (\<lambda>dev. dev\<lparr>d_ports := d_ports dev @ [port]\<rparr>) (e_devs env)\<rparr>)"
proof -
  let ?H = "heap_add_port d p port H" and ?pss = "pss(d := pss d @ [p])"
  have dps: "d \<in> set ps" using d by (auto dest: find_Some)
  have dist: "distinct ps" using R by (simp add: represents_by_def tailq_def)
  have old: "p \<notin> set (pss x)" if "x \<in> set ps" for x
    using R fresh that by (auto simp: represents_by_def)
  have apart: "set (pss d) \<inter> set (pss x) = {}" if "x \<in> set ps" "x \<noteq> d" for x
  proof -
    have "h_port_dev H y = d" if "y \<in> set (pss d)" for y using R dps that by (simp add: represents_by_def)
    moreover have "h_port_dev H y = x" if "y \<in> set (pss x)" for y
      using R \<open>x \<in> set ps\<close> that by (simp add: represents_by_def)
    ultimately show ?thesis using that(2) by force
  qed
  have obj: "map (h_port ?H) (pss x) = map (h_port H) (pss x)" if "x \<in> set ps" for x
    using old [OF that] by (auto simp: heap_add_port_def)
  have "map (dev_at ?H ?pss) ps = update_first (is_dev b i)
      (\<lambda>dev. dev\<lparr>d_ports := d_ports dev @ [port]\<rparr>) (map (dev_at H pss) ps)"
  proof (rule map_update_first [OF dist, of _ _ d])
    show "List.find (is_dev b i \<circ> dev_at H pss) ps = Some d" using d by (simp add: o_def)
    show "dev_at ?H ?pss x = dev_at H pss x" if "x \<in> set ps" "x \<noteq> d" for x
      using obj [OF that(1)] that(2) by (simp add: dev_at_def) (simp add: heap_add_port_def)
    show "dev_at ?H ?pss d = (dev_at H pss d)\<lparr>d_ports := d_ports (dev_at H pss d) @ [port]\<rparr>"
      using obj [OF dps] by (simp add: dev_at_def) (simp add: heap_add_port_def)
  qed
  moreover have "tailq (h_ports ?H) x (?pss x)" if "x \<in> set ps" for x
  proof (cases "x = d")
    case True
    then show ?thesis
      using R old [OF dps] dps by (simp add: heap_add_port_def represents_by_def insert_tail.refines)
  next
    case False
    then show ?thesis
      using R that dps old [OF that] apart [OF that]
      by (simp add: heap_add_port_def represents_by_def) (metis tailq_others(2))
  qed
  ultimately show ?thesis
    using R old by (auto simp: represents_by_def heap_add_port_def)
qed

lemma represents_add_dev:
  assumes R: "represents_by H ps pss env" and fresh: "p \<notin> set (h_used H)" and "d_ports dev = []"
  shows "represents_by (heap_add_dev p dev H) (ps @ [p]) (pss(p := []))
           ((if e_devs env \<noteq> [] then env\<lparr>multichip := True\<rparr> else env)\<lparr>e_devs := e_devs env @ [dev]\<rparr>)"
proof -
  let ?H = "heap_add_dev p dev H" and ?pss = "pss(p := [])"
  have old: "p \<notin> set ps" using R fresh by (auto simp: represents_by_def)
  have H: "h_devs ?H = TAILQ_INSERT_TAIL () p (h_devs H)" "h_ports ?H = TAILQ_INIT p (h_ports H)"
      "h_dev ?H = (h_dev H)(p := dev)" "h_port ?H = h_port H" "h_port_dev ?H = h_port_dev H"
      "h_used ?H = p # h_used H" "h_dl ?H = h_dl H"
      "h_multichip ?H = (h_multichip H \<or> TAILQ_FIRST () (h_devs H) \<noteq> None)"
    by (simp_all add: heap_add_dev_def Let_def)
  have "TAILQ_FIRST () (h_devs H) \<noteq> None \<longleftrightarrow> e_devs env \<noteq> []"
    using R by (auto simp: represents_by_def tailq_first split: list.split)
  moreover have "map (dev_at ?H ?pss) (ps @ [p]) = map (dev_at H pss) ps @ [dev]"
    using old assms(3) by (auto simp: dev_at_def H)
  moreover have "tailq (h_devs ?H) () (ps @ [p])"
    using R old by (simp add: represents_by_def H insert_tail.refines)
  moreover have "tailq (h_ports ?H) x (?pss x)" if "x \<in> set (ps @ [p])" for x
  proof (cases "x = p")
    case True
    then show ?thesis by (simp add: H init.refines [of _ _ undefined] tailq_init)
  next
    case False
    then show ?thesis using R that by (auto simp: represents_by_def H intro: tailq_others(1))
  qed
  ultimately show ?thesis
    using R by (auto simp: represents_by_def H)
qed

section \<open>Sorting\<close>

text \<open>One iteration that moves \<open>d\<close> behind \<open>small\<close>, which may be empty.\<close>

lemma sort_move:
  assumes q: "tailq s () (ps @ d # small @ others)" and ne: "small @ others \<noteq> []"
  shows "tailq (case others of
             o1 # _ \<Rightarrow> TAILQ_INSERT_BEFORE o1 d (TAILQ_REMOVE () d s)
           | [] \<Rightarrow> TAILQ_INSERT_TAIL () d (TAILQ_REMOVE () d s)) () (ps @ small @ d # others)"
proof -
  have dist: "distinct (ps @ d # small @ others)" using q by (simp add: tailq_def)
  have r: "tailq (TAILQ_REMOVE () d s) () ((ps @ small) @ others)"
    using tailq_remove [OF q] by simp
  show ?thesis
  proof (cases others)
    case Nil
    then show ?thesis using tailq_insert_tail [of _ _ "ps @ small" d] r dist by simp
  next
    case (Cons o1 os)
    then show ?thesis using tailq_insert_before [of _ _ "ps @ small" o1 os d] r dist by simp
  qed
qed

lemma find_dropWhile:
  "List.find (\<lambda>i. \<not> P i) xs = (case dropWhile P xs of [] \<Rightarrow> None | x # _ \<Rightarrow> Some x)"
  by (induction xs) auto

lemma heap_sort_from_refines:
  fixes D :: "ptr \<Rightarrow> dev"
  assumes "tailq s () (ps @ d # qs)"
  defines "index \<equiv> \<lambda>p. d_index (D p)"
  shows "\<exists>s' ps'. heap_sort_from index s (Some d) = Some s' \<and> tailq s' () ps' \<and>
           mset ps' = mset (ps @ d # qs) \<and> map D ps' = dev_sort_from (map D ps) (D d) (map D qs)"
  using assms(1)
proof (induction "(d, qs)" arbitrary: ps d qs s
    rule: wf_induct_rule [OF wf_measures [of "[\<lambda>(d, qs). length qs, \<lambda>(d, qs). index d]"]])
  case 1
  note IH = 1(1) and q = 1(2)
  have ix: "index p = d_index (D p)" for p by (simp add: index_def)
  show ?case
  proof (cases qs)
    case Nil
    with q show ?thesis by (subst heap_sort_from.simps) (auto simp: tailq_next)
  next
    case (Cons n rest)
    have nx: "TAILQ_NEXT d s = Some n" using q by (simp add: tailq_next Cons)
    show ?thesis
    proof (cases "index d < index n")
      case True
      have q': "tailq s () ((ps @ [d]) @ n # rest)" using q by (simp add: Cons)
      have "dev_sort_from (map D ps) (D d) (map D qs) = dev_sort_from (map D (ps @ [d])) (D n) (map D rest)"
        using True by (simp add: Cons ix)
      with IH [OF _ q'] show ?thesis
        by (subst heap_sort_from.simps) (simp add: nx True Cons)
    next
      case False
      let ?P = "\<lambda>i. index i < index d"
      define small others where "small = takeWhile ?P qs" and "others = dropWhile ?P qs"
      have lo: "qs = small @ others" by (simp add: small_def others_def)
      have f: "find_from (\<lambda>i. \<not> ?P i) s (Some n) = Some (case others of [] \<Rightarrow> None | i # _ \<Rightarrow> Some i)"
        using find_from_list [of s "()" "ps @ [d]" qs "\<lambda>i. \<not> ?P i"] q
        by (simp add: Cons others_def find_dropWhile del: dropWhile.simps)
      define s2 where "s2 = (case others of
             o1 # _ \<Rightarrow> TAILQ_INSERT_BEFORE o1 d (TAILQ_REMOVE () d s)
           | [] \<Rightarrow> TAILQ_INSERT_TAIL () d (TAILQ_REMOVE () d s))"
      have s2: "tailq s2 () (ps @ small @ d # others)"
        unfolding s2_def by (rule sort_move) (use q lo Cons in auto)
      have step: "heap_sort_from index s (Some d) = heap_sort_from index s2 (Some n)"
        using False f by (subst heap_sort_from.simps) (simp add: nx s2_def Let_def split: list.split)
      have maps: "map D small = takeWhile (\<lambda>x. d_index x < d_index (D d)) (map D qs)"
          "map D others = dropWhile (\<lambda>x. d_index x < d_index (D d)) (map D qs)"
        by (simp_all add: small_def others_def takeWhile_map dropWhile_map o_def ix)
      show ?thesis
      proof (cases small)
        case Nil
        then have qs: "others = n # rest" using lo Cons by simp
        have "dev_sort_from (map D ps) (D d) (map D qs) = dev_sort_from (map D (ps @ [d])) (D n) (map D rest)"
          using False Nil maps(1) unfolding Cons
          by (simp add: ix Let_def del: takeWhile.simps)
        with IH [of n rest s2 "ps @ [d]"] s2 show ?thesis
          by (simp add: step Nil qs Cons)
      next
        case (Cons m l')
        with lo \<open>qs = n # rest\<close> have m: "m = n" and rest: "rest = l' @ others" by auto
        have nd: "index n < index d"
          using Cons small_def \<open>qs = n # rest\<close> m by (auto split: if_splits)
        have "dev_sort_from (map D ps) (D d) (map D qs) =
            dev_sort_from (map D ps) (D n) (map D (l' @ d # others))"
          using False Cons m maps nd unfolding \<open>qs = n # rest\<close>
          unfolding list.map by (subst dev_sort_from.simps) (simp add: ix Let_def)
        with IH [of n "l' @ d # others" s2 ps] s2 nd show ?thesis
          by (simp add: step Cons m rest \<open>qs = n # rest\<close> ix union_ac)
      qed
    qed
  qed
qed

lemma heap_dev_sort_refines:
  assumes "represents H env"
  obtains H' where "heap_dev_sort H = Some H'" and "represents H' (env_init_dev_sort env)"
proof -
  from assms obtain ps pss where R: "represents_by H ps pss env" by (auto simp: represents_def)
  define index where "index = (\<lambda>p. d_index (h_dev H p))"
  have q: "tailq (h_devs H) () ps" using R by (simp add: represents_by_def)
  obtain s' ps' where s': "heap_sort_from index (h_devs H) (TAILQ_FIRST () (h_devs H)) = Some s'"
      "tailq s' () ps'" "mset ps' = mset ps"
      "map (dev_at H pss) ps' = e_devs (env_init_dev_sort env)"
  proof (cases ps)
    case Nil
    with q R show ?thesis
      by (intro that [of "h_devs H" "[]"])
        (simp_all add: tailq_first heap_sort_from.simps represents_by_def)
  next
    case (Cons d qs)
    with heap_sort_from_refines [of "h_devs H" "[]" d qs "dev_at H pss"] q R show ?thesis
      by (auto simp: tailq_first index_def represents_by_def intro: that)
  qed
  have set: "set ps' = set ps" using s'(3) by (metis set_mset_mset)
  have "multichip (env_init_dev_sort env) = multichip env" "e_dl (env_init_dev_sort env) = e_dl env"
    by (auto split: list.split)
  then have "env_init_dev_sort env =
      \<lparr>multichip = h_multichip H, e_dl = h_dl H, e_devs = map (dev_at H pss) ps'\<rparr>"
    using R s'(4) by (intro env.equality) (simp_all add: represents_by_def del: env_init_dev_sort.simps)
  moreover have "dev_at (H\<lparr>h_devs := s'\<rparr>) pss = dev_at H pss" by (simp add: fun_eq_iff dev_at_def)
  ultimately have "represents_by (H\<lparr>h_devs := s'\<rparr>) ps' pss (env_init_dev_sort env)"
    using R s'(2) by (simp add: represents_by_def set del: env_init_dev_sort.simps)
  then show thesis
    using s'(1) by (intro that) (auto simp: heap_dev_sort_def index_def represents_def)
qed

section \<open>Callbacks\<close>

text \<open>The same result, and memory that represents the environment.\<close>

abbreviation sim :: "(int \<times> env_heap) option \<Rightarrow> (int \<times> env) option \<Rightarrow> bool" where
  "sim \<equiv> rel_option (rel_prod (=) represents)"

lemma sim_bind:
  "(\<And>x. m = Some x \<Longrightarrow> rel_option R (f x) (g x)) \<Longrightarrow> rel_option R (m \<bind> f) (m \<bind> g)"
  by (cases m) auto

lemma sim_bind2:
  "rel_option A m m' \<Longrightarrow> (\<And>x y. A x y \<Longrightarrow> rel_option B (f x) (g y)) \<Longrightarrow>
   rel_option B (m \<bind> f) (m' \<bind> g)"
  by (erule option.rel_cases) auto

lemma heap_dev_add_sim:
  assumes "represents H env" and "alloc_ok calloc M"
  obtains err H' env' where "heap_dev_add calloc H asic b i = (err, H')"
    and "env_dev_add M env asic b i = (err, env')" and "represents H' env'"
proof -
  from assms(1) obtain ps pss where R: "represents_by H ps pss env" by (auto simp: represents_def)
  have al: "case calloc (h_used H) of None \<Rightarrow> \<not> m_calloc M | Some p \<Rightarrow> m_calloc M \<and> p \<notin> set (h_used H)"
    using assms(2) by (simp add: alloc_ok_def)
  show thesis
  proof (cases "List.find (\<lambda>chip. chip_id chip = asic) chips")
    case None
    then show ?thesis
      by (intro that [of ENOSYS H env]) (simp_all add: heap_dev_add_def env_dev_add_def assms(1))
  next
    case (Some chip)
    show ?thesis
    proof (cases "calloc (h_used H)")
      case None
      with al Some show ?thesis
        by (intro that [of ENOMEM H env]) (simp_all add: heap_dev_add_def env_dev_add_def assms(1))
    next
      case (Some p)
      let ?dev = "\<lparr>d_devlink = \<lparr>da_bus = b, da_dev = i\<rparr>, d_chip = chip, d_index = 0,
        d_ports = [], d_global1 = [], d_pvt = []\<rparr>"
      have "represents (heap_add_dev p ?dev H)
          ((if e_devs env \<noteq> [] then env\<lparr>multichip := True\<rparr> else env)\<lparr>e_devs := e_devs env @ [?dev]\<rparr>)"
        by (rule representsI, rule represents_add_dev [OF R]) (use al Some in auto)
      with al Some \<open>List.find (\<lambda>chip. chip_id chip = asic) chips = Some chip\<close> show ?thesis
        by (intro that) (auto simp: heap_dev_add_def env_dev_add_def Let_def)
    qed
  qed
qed

lemma heap_dev_cb_sim:
  assumes "represents H env" and "alloc_ok calloc M"
  shows "sim (heap_dev_cb calloc M msg H) (env_init_dev_cb M msg env)"
proof -
  have add: "sim (let (err, H) = heap_dev_add calloc H a b i in Some (if err \<noteq> 0 then CB_ERROR else CB_OK, H))
      (let (err, env) = env_dev_add M env a b i in Some (if err \<noteq> 0 then CB_ERROR else CB_OK, env))" for a b i
    by (rule heap_dev_add_sim [OF assms, of a b i]) (simp add: Let_def)
  note add = add [unfolded Let_def]
  show ?thesis
    unfolding heap_dev_cb_def env_init_dev_cb_def
    by (intro sim_bind) (auto simp: assms(1) intro!: sim_bind add split: option.split)
qed

lemma heap_port_cb_sim:
  fixes M :: "'a mnl"
  assumes "represents H env" and "alloc_ok calloc M"
  shows "sim (heap_port_cb calloc M msg H) (env_init_port_cb M msg env)"
proof -
  from assms(1) obtain ps pss where R: "represents_by H ps pss env" by (auto simp: represents_def)
  have al: "case calloc (h_used H) of None \<Rightarrow> \<not> m_calloc M | Some p \<Rightarrow> m_calloc M \<and> p \<notin> set (h_used H)"
    using assms(2) by (simp add: alloc_ok_def)
  have add: "sim (do {
        found \<leftarrow> heap_dev_find H b d;
        Some (case found of
          None \<Rightarrow> (CB_OK, H)
        | Some dev \<Rightarrow>
            (case calloc (h_used H) of
               None \<Rightarrow> (CB_ERROR, H)
             | Some p \<Rightarrow> (CB_OK, heap_add_port dev p port H)))
      })
      (Some (case env_dev_find env b d of
         Inl _ \<Rightarrow> (CB_OK, env)
       | Inr dev \<Rightarrow>
           if \<not> m_calloc M then (CB_ERROR, env)
           else (CB_OK, env\<lparr>e_devs := update_first (is_dev b d)
                   (\<lambda>dev. dev\<lparr>d_ports := d_ports dev @ [port]\<rparr>) (e_devs env)\<rparr>)))" for b d port
  proof (rule heap_dev_find [OF R, of b d])
    fix p
    assume "heap_dev_find H b d = Some (Some p)" "env_dev_find env b d = Inr (dev_at H pss p)"
      and f: "List.find (\<lambda>p. is_dev b d (h_dev H p)) ps = Some p"
    moreover have "represents (heap_add_port p x port H) (env\<lparr>e_devs := update_first (is_dev b d)
          (\<lambda>dev. dev\<lparr>d_ports := d_ports dev @ [port]\<rparr>) (e_devs env)\<rparr>)" if "x \<notin> set (h_used H)" for x
      by (rule representsI) (rule represents_add_port [OF R f that])
    ultimately show ?thesis
      using al assms(1) by (auto split: option.splits)
  qed (simp add: assms(1))
  show ?thesis
    unfolding heap_port_cb_def env_init_port_cb_def
  proof (rule sim_bind)
    fix tb :: "'a tb"
    let ?a = "tb DEVLINK_ATTR_BUS_NAME" and ?b = "tb DEVLINK_ATTR_DEV_NAME"
      and ?c = "tb DEVLINK_ATTR_PORT_INDEX" and ?d = "tb DEVLINK_ATTR_PORT_FLAVOUR"
    show "sim
       (case (?a, ?b, ?c, ?d) of
          (Some b, Some d, Some i, Some f) \<Rightarrow> do {
            found \<leftarrow> heap_dev_find H (attr_str M b) (attr_str M d);
            Some (case found of
              None \<Rightarrow> (CB_OK, H)
            | Some dev \<Rightarrow>
                (case calloc (h_used H) of
                   None \<Rightarrow> (CB_ERROR, H)
                 | Some p \<Rightarrow>
                     (CB_OK, heap_add_port dev p
                        \<lparr>p_index = attr_u32 M i,
                         p_netdev = port_netdev M (tb DEVLINK_ATTR_PORT_NETDEV_NAME) (attr_u16 M f),
                         p_flavor = attr_u16 M f, p_regs = []\<rparr> H)))
          }
        | _ \<Rightarrow> Some (CB_ERROR, H))
       (Some (case (?a, ?b, ?c, ?d) of
          (Some b, Some d, Some i, Some f) \<Rightarrow>
            (case env_dev_find env (attr_str M b) (attr_str M d) of
               Inl _ \<Rightarrow> (CB_OK, env)
             | Inr dev \<Rightarrow>
                 if \<not> m_calloc M then (CB_ERROR, env)
                 else
                   let port = \<lparr>p_index = attr_u32 M i,
                               p_netdev = port_netdev M (tb DEVLINK_ATTR_PORT_NETDEV_NAME) (attr_u16 M f),
                               p_flavor = attr_u16 M f, p_regs = []\<rparr> in
                   (CB_OK, env\<lparr>e_devs :=
                      update_first (is_dev (attr_str M b) (attr_str M d))
                        (\<lambda>dev. dev\<lparr>d_ports := d_ports dev @ [port]\<rparr>) (e_devs env)\<rparr>))
        | _ \<Rightarrow> (CB_ERROR, env)))"
      using assms(1)
      by (cases ?a; cases ?b; cases ?c; cases ?d)
        (simp_all only: Let_def option.case prod.case add option.rel_inject rel_prod_inject)
  qed
qed

section \<open>Initialisation\<close>

text \<open>Two callbacks that keep a relation of their states keep it over a whole reception.\<close>

lemma recv_run_sim:
  assumes cb: "\<And>msg d d'. R d d' \<Longrightarrow> rel_option (rel_prod (=) R) (f msg d) (g msg d')" and "R d d'"
  shows "rel_option (rel_prod (=) R) (recv_run (Some f) evs d) (recv_run (Some g) evs d')"
  using assms(2)
proof (induction "Some f" evs d arbitrary: d' rule: recv_run.induct)
  case (3 m evs d)
  have "rel_option (rel_prod (=) R) (cb_dispatch (Some f) m d) (cb_dispatch (Some g) m d')"
    using cb 3(2) by (cases m) (auto simp: cb_dispatch_def)
  then show ?case
    by (cases rule: option.rel_cases) (auto intro: 3(1))
qed simp_all

lemma devlink_query_sim:
  assumes "\<And>msg d d'. R d d' \<Longrightarrow> rel_option (rel_prod (=) R) (f msg d) (g msg d')" and "R d d'"
  shows "rel_option (rel_prod (=) (rel_prod R (=)))
           (devlink_query K rq (Some f) d k) (devlink_query K rq (Some g) d' k)"
proof -
  obtain sent evs k' where q: "K rq k = (sent, evs, k')" by (cases "K rq k")
  have "rel_option (rel_prod (=) R) (recv_run (Some f) evs d) (recv_run (Some g) evs d')"
    by (rule recv_run_sim) (use assms in auto)
  then show ?thesis
    using assms(2) by (cases rule: option.rel_cases) (auto simp: devlink_query_def q)
qed

lemma dev_init_ports:
  "dev_init M K dl (dev\<lparr>d_ports := x\<rparr>) k =
     map_option (\<lambda>(err, dev, k). (err, dev\<lparr>d_ports := x\<rparr>, k)) (dev_init M K dl dev k)"
  by (auto simp: dev_init_def map_option_bind Let_def split: bind_splits prod.splits intro!: bind_option_cong)

lemma represents_by_set_dev:
  assumes "represents_by H (ps @ p # qs) pss env"
  shows "represents_by (H\<lparr>h_dev := (h_dev H)(p := dev)\<rparr>) (ps @ p # qs) pss
           (env\<lparr>e_devs := map (dev_at H pss) ps @ dev\<lparr>d_ports := map (h_port H) (pss p)\<rparr> #
                          map (dev_at H pss) qs\<rparr>)"
  using assms by (auto simp: represents_by_def dev_at_def tailq_def)

lemma heap_init_from_sim:
  assumes "represents_by H (ps @ qs) pss env" and "e_dl env = dl"
  shows "rel_option
           (\<lambda>(err, H', k') (err', devs, k''). err' = err \<and> k'' = k' \<and> 
              represents_by H' (ps @ qs) pss (env\<lparr>e_devs := map (dev_at H pss) ps @ devs\<rparr>))
           (heap_init_from M K H (case qs of [] \<Rightarrow> None | p # _ \<Rightarrow> Some p) k)
           (dev_init_all M K dl (map (dev_at H pss) qs) k)"
  using assms
proof (induction qs arbitrary: ps H env k)
  case Nil
  then show ?case by (auto simp: heap_init_from.simps represents_by_def)
next
  case (Cons p qs)
  have dl: "h_dl H = dl" using Cons.prems by (auto simp: represents_by_def)
  have at: "dev_init M K dl (dev_at H pss p) k = map_option
      (\<lambda>(err, dev, k). (err, dev\<lparr>d_ports := map (h_port H) (pss p)\<rparr>, k)) (dev_init M K dl (h_dev H p) k)"
    unfolding dev_at_def by (rule dev_init_ports)
  show ?case
  proof (cases "dev_init M K dl (h_dev H p) k")
    case None
    then show ?thesis by (simp add: heap_init_from.simps [of M K H "Some p"] dl at)
  next
    case (Some r)
    obtain err dev k1 where r: "r = (err, dev, k1)" by (cases r)
    let ?H = "H\<lparr>h_dev := (h_dev H)(p := dev)\<rparr>" and ?dev = "dev\<lparr>d_ports := map (h_port H) (pss p)\<rparr>"
    let ?env = "env\<lparr>e_devs := map (dev_at H pss) ps @ ?dev # map (dev_at H pss) qs\<rparr>"
    have R: "represents_by ?H (ps @ p # qs) pss ?env" by (rule represents_by_set_dev [OF Cons.prems(1)])
    have dist: "distinct (ps @ p # qs)" using Cons.prems(1) by (simp add: represents_by_def tailq_def)
    have maps: "map (dev_at ?H pss) (ps @ [p]) = map (dev_at H pss) ps @ [?dev]"
        "map (dev_at ?H pss) qs = map (dev_at H pss) qs"
      using dist by (auto simp: dev_at_def)
    have nx: "TAILQ_NEXT p (h_devs H) = (case qs of [] \<Rightarrow> None | q # _ \<Rightarrow> Some q)"
      by (rule tailq_next [of _ "()" ps]) (use Cons.prems(1) in \<open>simp add: represents_by_def\<close>)
    show ?thesis
    proof (cases "err = 0")
      case False
      then show ?thesis
        using R by (simp add: heap_init_from.simps [of M K H "Some p"] dl at Some r)
    next
      case True
      have "represents_by ?H ((ps @ [p]) @ qs) pss ?env" "e_dl ?env = dl" using R Cons.prems(2) by simp_all
      from Cons.IH [OF this, of k1] show ?thesis
        unfolding maps
        by (cases rule: option.rel_cases)
          (auto simp: heap_init_from.simps [of M K H "Some p"] dl at Some r True nx)
    qed
  qed
qed

text \<open>The same result, the same kernel afterwards, and a memory that represents the environment.\<close>

definition same_outcome where
  "same_outcome = (\<lambda>(err, H', k') (err', env', k''). err' = err \<and> k'' = k' \<and> represents H' env')"

lemma same_outcome_simp [simp]:
  "same_outcome (err, H', k') (err', env', k'') \<longleftrightarrow> err' = err \<and> k'' = k' \<and> represents H' env'"
  by (simp add: same_outcome_def)

lemma represents_init:
  "represents (H\<lparr>h_devs := TAILQ_INIT () (h_devs H), h_dl := dl\<rparr>)
     \<lparr>multichip = h_multichip H, e_dl = dl, e_devs = []\<rparr>"
  by (rule representsI [of _ "[]" "\<lambda>_. []"]) (simp add: represents_by_def tailq_init)

lemma represents_dl: "represents H env \<Longrightarrow> h_dl H = e_dl env"
  by (auto simp: represents_def represents_by_def)

lemma represents_empty: "represents H env \<Longrightarrow> TAILQ_EMPTY () (h_devs H) \<longleftrightarrow> e_devs env = []"
  by (auto simp: represents_def represents_by_def tailq_empty)

text \<open>The last part of \<^verbatim>\<open>env_init\<close>: the loading of the devices and the sort.\<close>

lemma heap_init_sort_sim:
  assumes "represents H env"
  shows "rel_option same_outcome
      (do {
         (err, H, k) \<leftarrow> heap_init_from M K H (TAILQ_FIRST () (h_devs H)) k;
         if err \<noteq> 0 then Some (err, H, k) else do { H \<leftarrow> heap_dev_sort H; Some (0, H, k) }
       })
      (do {
         (err, devs, k) \<leftarrow> dev_init_all M K (e_dl env) (e_devs env) k;
         let env = env\<lparr>e_devs := devs\<rparr>;
         Some (if err \<noteq> 0 then (err, env, k) else (0, env_init_dev_sort env, k))
       })"
proof -
  from assms obtain ps pss where R: "represents_by H ps pss env" by (auto simp: represents_def)
  then have first: "TAILQ_FIRST () (h_devs H) = (case ps of [] \<Rightarrow> None | p # _ \<Rightarrow> Some p)"
      and env: "e_devs env = map (dev_at H pss) ps"
    by (simp_all add: represents_by_def tailq_first)
  from R have "represents_by H ([] @ ps) pss env" by simp
  from heap_init_from_sim [OF this refl, of M K k] show ?thesis
  proof (cases rule: option.rel_cases)
    case (Some a b)
    obtain err H' k' devs where a: "a = (err, H', k')" "b = (err, devs, k')"
        and R': "represents H' (env\<lparr>e_devs := devs\<rparr>)"
      using Some(3) by (cases a; cases b) (auto intro: representsI)
    obtain H2 where "heap_dev_sort H' = Some H2"
        "represents H2 (env_init_dev_sort (env\<lparr>e_devs := devs\<rparr>))"
      by (rule heap_dev_sort_refines [OF R'])
    with R' Some(1,2) show ?thesis by (simp add: a first env Let_def del: env_init_dev_sort.simps)
  qed (simp add: first env)
qed

text \<open>All of it after the socket has been opened.\<close>

lemma heap_discover_sim:
  assumes "represents H env" and "alloc_ok calloc M"
  shows "rel_option same_outcome
      (do {
         (err, H, k) \<leftarrow> devlink_query K
           (devlink_msg_prepare (h_dl H) DEVLINK_CMD_INFO_GET [NLM_F_REQUEST, NLM_F_ACK, NLM_F_DUMP])
           (Some (heap_dev_cb calloc M)) H k;
         if err \<noteq> 0 then Some (err, H, k)
         else do {
           (err, H, k) \<leftarrow> devlink_query K
             (devlink_msg_prepare (h_dl H) DEVLINK_CMD_PORT_GET [NLM_F_REQUEST, NLM_F_ACK, NLM_F_DUMP])
             (Some (heap_port_cb calloc M)) H k;
           if err \<noteq> 0 then Some (err, H, k)
           else if TAILQ_EMPTY () (h_devs H) then Some (- 1, H, k)
           else do {
             (err, H, k) \<leftarrow> heap_init_from M K H (TAILQ_FIRST () (h_devs H)) k;
             if err \<noteq> 0 then Some (err, H, k) else do { H \<leftarrow> heap_dev_sort H; Some (0, H, k) }
           }
         }
       })
      (do {
         (err, env, k) \<leftarrow> devlink_query K
           (devlink_msg_prepare (e_dl env) DEVLINK_CMD_INFO_GET [NLM_F_REQUEST, NLM_F_ACK, NLM_F_DUMP])
           (Some (env_init_dev_cb M)) env k;
         if err \<noteq> 0 then Some (err, env, k)
         else do {
           (err, env, k) \<leftarrow> devlink_query K
             (devlink_msg_prepare (e_dl env) DEVLINK_CMD_PORT_GET [NLM_F_REQUEST, NLM_F_ACK, NLM_F_DUMP])
             (Some (env_init_port_cb M)) env k;
           if err \<noteq> 0 then Some (err, env, k)
           else if e_devs env = [] then Some (- 1, env, k)
           else do {
             (err, devs, k) \<leftarrow> dev_init_all M K (e_dl env) (e_devs env) k;
             let env = env\<lparr>e_devs := devs\<rparr>;
             Some (if err \<noteq> 0 then (err, env, k) else (0, env_init_dev_sort env, k))
           }
         }
       })"
proof -
  note devs = devlink_query_sim [where R = represents, OF heap_dev_cb_sim [OF _ assms(2)]]
  note ports = devlink_query_sim [where R = represents, OF heap_port_cb_sim [OF _ assms(2)]]
  show ?thesis
    unfolding represents_dl [OF assms(1)]
    by (rule sim_bind2 [OF devs [OF _ assms(1)]], assumption)
      (auto simp: represents_dl represents_empty simp del: env_init_dev_sort.simps
        intro!: sim_bind2 [OF ports] heap_init_sort_sim)
qed

text \<open>
  C28. The environment in memory, with devices and ports linked by pointers into tail queues, is the
  one of nested lists: with a \<^verbatim>\<open>calloc\<close> that returns unused memory, \<^verbatim>\<open>env_init\<close> on the memory returns
  exactly when it does on the lists, with the same result after the same requests, and if that is
  a success the memory it leaves represents the devices, in their order after sorting, each with
  its own ports, whose back pointers lead to it.
\<close>

theorem env_init_in_memory:
  assumes "alloc_ok calloc M"
  shows "rel_option (\<lambda>(err, H', k') (err', env', k''). err' = err \<and> k'' = k' \<and> represents H' env')
           (heap_env_init calloc G M K sk H k)
           (env_init G M K sk \<lparr>multichip = h_multichip H, e_dl = h_dl H, e_devs = []\<rparr> k)"
  unfolding same_outcome_def [symmetric]
proof (cases "devlink_open G M K sk (dl_family (h_dl H)) k")
  case None
  then show "rel_option same_outcome (heap_env_init calloc G M K sk H k)
      (env_init G M K sk \<lparr>multichip = h_multichip H, e_dl = h_dl H, e_devs = []\<rparr> k)"
    by (simp add: heap_env_init_def env_init_def)
next
  case (Some x)
  obtain err fam a b k1 where x: "x = (err, fam, a, b, k1)" by (cases x)
  note init = represents_init [where H = H and dl = "\<lparr>dl_family = fam\<rparr>"]
  show "rel_option same_outcome (heap_env_init calloc G M K sk H k)
      (env_init G M K sk \<lparr>multichip = h_multichip H, e_dl = h_dl H, e_devs = []\<rparr> k)"
    using heap_discover_sim [OF init assms, where K = K and k = k1] init
    by (simp add: heap_env_init_def env_init_def Some x Let_def del: env_init_dev_sort.simps)
qed

text \<open>Two switches with the indices 3 and 1 and a port each, and memory that holds anything.\<close>

definition z_addr :: "string \<Rightarrow> xattr list" where
  "z_addr name = [X_Str DEVLINK_ATTR_BUS_NAME ''mdio_bus'', X_Str DEVLINK_ATTR_DEV_NAME name]"

definition z_switches :: "(unit, xattr list) dl_kernel" where
  "z_switches = x_kernel (\<lambda>rq.
     if rq_cmd rq = 3 then [[X_Num 1 20]]
     else if rq_cmd rq = DEVLINK_CMD_INFO_GET then
       map (\<lambda>name. z_addr name @ [X_Str DEVLINK_ATTR_INFO_DRIVER_NAME ''mv88e6085'',
          X_Nest DEVLINK_ATTR_INFO_VERSION_FIXED
            [X_Str DEVLINK_ATTR_INFO_VERSION_NAME ''asic.id'',
             X_Str DEVLINK_ATTR_INFO_VERSION_VALUE ''Marvell 88E6352'']]) [''sw0'', ''sw1'']
     else if rq_cmd rq = DEVLINK_CMD_PORT_GET then
       map (\<lambda>name. z_addr name @ [X_Num DEVLINK_ATTR_PORT_INDEX 0, X_Num DEVLINK_ATTR_PORT_FLAVOUR 0,
          X_Str DEVLINK_ATTR_PORT_NETDEV_NAME ''eth0'']) [''sw1'', ''sw0'']
     else if rq_cmd rq = DEVLINK_CMD_REGION_READ then
       [x_addr @ [X_Nest DEVLINK_ATTR_REGION_CHUNKS
          [X_Nest 94
             [X_Bytes DEVLINK_ATTR_REGION_CHUNK_DATA
                (replicate 56 0 @
                   [if (DEVLINK_ATTR_DEV_NAME, Str ''sw0'') \<in> set (rq_attrs rq) then 3 else 1, 0]),
              X_Num DEVLINK_ATTR_REGION_CHUNK_ADDR 0]]]]
     else [])"

definition z_heap :: env_heap where
  "z_heap =
     \<lparr>h_devs = \<lparr>slot = \<lambda>_. Some 9, tail = \<lambda>_. Next_Of 8, prev = \<lambda>_. Next_Of 7\<rparr>,
      h_ports = \<lparr>slot = \<lambda>_. Some 6, tail = \<lambda>_. Next_Of 5, prev = \<lambda>_. Next_Of 4\<rparr>,
      h_dev = \<lambda>_. undefined, h_port = \<lambda>_. undefined, h_port_dev = \<lambda>_. 0, h_multichip = False,
      h_dl = \<lparr>dl_family = 0\<rparr>, h_used = []\<rparr>"

definition z_calloc :: "ptr list \<Rightarrow> ptr option" where
  "z_calloc used = Some (Suc (foldr max used 0))"

lemma z_alloc: "alloc_ok z_calloc x_mnl"
proof -
  have "n \<le> foldr max used 0" if "n \<in> set used" for n and used :: "ptr list"
    using that by (induction used) (auto intro: le_max_iff_disj [THEN iffD2])
  then show ?thesis by (force simp: alloc_ok_def z_calloc_def x_mnl_def)
qed

lemma z_env_init:
  "case env_init x_genl x_mnl z_switches x_sock \<lparr>multichip = False, e_dl = \<lparr>dl_family = 0\<rparr>, e_devs = []\<rparr> () of
     None \<Rightarrow> False
   | Some (err, env, k) \<Rightarrow>
       err = 0 \<and> map (\<lambda>d. (d_index d, map p_netdev (d_ports d))) (e_devs env) = [(1, [''eth0'']), (3, [''eth0''])]"
  by code_simp

theorem env_init_in_memory_witness:
  "\<exists>H env. heap_env_init z_calloc x_genl x_mnl z_switches x_sock z_heap () = Some (0, H, ()) \<and>
     represents H env \<and>
     map (\<lambda>d. (d_index d, map p_netdev (d_ports d))) (e_devs env) = [(1, [''eth0'']), (3, [''eth0''])]"
proof -
  have z: "h_multichip z_heap = False" "h_dl z_heap = \<lparr>dl_family = 0\<rparr>" by (simp_all add: z_heap_def)
  obtain env where env:
      "env_init x_genl x_mnl z_switches x_sock \<lparr>multichip = False, e_dl = \<lparr>dl_family = 0\<rparr>, e_devs = []\<rparr> () =
         Some (0, env, ())"
      "map (\<lambda>d. (d_index d, map p_netdev (d_ports d))) (e_devs env) = [(1, [''eth0'']), (3, [''eth0''])]"
    using z_env_init by (auto split: option.splits)
  obtain H where "heap_env_init z_calloc x_genl x_mnl z_switches x_sock z_heap () = Some (0, H, ())"
      "represents H env"
    using env_init_in_memory [OF z_alloc, of x_genl z_switches x_sock z_heap "()"]
    unfolding z env(1) by (cases rule: option.rel_cases) auto
  with env(2) show ?thesis by (intro exI conjI)
qed

end
