(* ===== verification/Mvls_Memory.thy ===== *)
theory Mvls_Memory
  imports Mvls_Json
begin

text \<open>
  The memory behind the regions of \<^verbatim>\<open>mvls\<close>. In \<open>Mvls_Devlink\<close> a region is the list of its bytes;
  here it is what \<^verbatim>\<open>struct devlink_region\<close> is, a pointer to an allocated block and a size, with
  \<^verbatim>\<open>realloc\<close>, \<^verbatim>\<open>free\<close> and \<^verbatim>\<open>memcpy\<close> on a heap. \<open>None\<close> is also the use of a block that is not
  allocated: a second \<^verbatim>\<open>free\<close>, or an access through a dangling pointer.
\<close>

section \<open>Heap and regions\<close>

type_synonym heap = "nat \<Rightarrow> u8 list option"

record mem_region =
  mr_data :: "nat option"
  mr_size :: u64

definition null_region :: mem_region where
  "null_region = \<lparr>mr_data = None, mr_size = 0\<rparr>"

definition c_free :: "nat option \<Rightarrow> heap \<Rightarrow> heap option" where
  "c_free p h =
     (case p of
        None \<Rightarrow> Some h
      | Some a \<Rightarrow> if h a = None then None else Some (h(a := None)))"

text \<open>
  The block behind a pointer, none at all behind the null pointer. \<^verbatim>\<open>realloc\<close> fails without
  touching the block, or moves its contents (\<open>m_realloc\<close>) to the address that the allocator gives,
  which can be the old one.
\<close>

definition block :: "nat option \<Rightarrow> heap \<Rightarrow> u8 list option" where
  "block p h = (case p of None \<Rightarrow> Some [] | Some a \<Rightarrow> h a)"

definition c_realloc ::
  "'a mnl \<Rightarrow> (heap \<Rightarrow> nat) \<Rightarrow> nat option \<Rightarrow> nat \<Rightarrow> heap \<Rightarrow> (nat option \<times> heap) option" where
  "c_realloc M new p n h = do {
     old \<leftarrow> block p h;
     case m_realloc M old n of
       None \<Rightarrow> Some (None, h)
     | Some bytes \<Rightarrow> do {
         h' \<leftarrow> c_free p h;
         Some (Some (new h'), h'(new h' \<mapsto> bytes))
       }
   }"

definition devlink_region_free :: "heap \<times> mem_region \<Rightarrow> (heap \<times> mem_region) option" where
  "devlink_region_free hr = do {
     h \<leftarrow> c_free (mr_data (snd hr)) (fst hr);
     Some (h, null_region)
   }"

section \<open>The copy of a region\<close>

text \<open>The copy into the block; through the null pointer nothing can be copied but no bytes.\<close>

definition c_memcpy :: "nat option \<Rightarrow> nat \<Rightarrow> u8 list \<Rightarrow> heap \<Rightarrow> heap option" where
  "c_memcpy p offs bytes h = do {
     old \<leftarrow> block p h;
     if length old < offs + length bytes then None
     else case p of
       None \<Rightarrow> Some h
     | Some a \<Rightarrow> Some (h(a \<mapsto> take offs old @ bytes @ drop (offs + length bytes) old))
   }"

text \<open>The part of the loop body that makes the region large enough; a null pointer says that it failed.\<close>

definition mem_grow ::
  "'a mnl \<Rightarrow> (heap \<Rightarrow> nat) \<Rightarrow> u64 \<Rightarrow> heap \<times> mem_region \<Rightarrow> (bool \<times> heap \<times> mem_region) option" where
  "mem_grow M new need hr =
     (case hr of (h, region) \<Rightarrow>
        if mr_size region < need then do {
          (buf, h) \<leftarrow> c_realloc M new (mr_data region) (unat need) h;
          case buf of
            None \<Rightarrow> do {
              h \<leftarrow> c_free (mr_data region) h;
              Some (False, h, null_region)
            }
          | Some a \<Rightarrow> Some (True, h, \<lparr>mr_data = Some a, mr_size = need\<rparr>)
        }
        else Some (True, h, region))"

definition mem_dup_chunk ::
  "'a mnl \<Rightarrow> (heap \<Rightarrow> nat) \<Rightarrow> 'a \<Rightarrow> 'a tb \<Rightarrow> heap \<times> mem_region \<Rightarrow>
   (int \<times> 'a option \<times> 'a tb \<times> heap \<times> mem_region) option" where
  "mem_dup_chunk M new attr tbc hr = do {
     (err, tbc) \<leftarrow> mnl_attr_parse (devlink_attr_cb M) (attr_nested M attr) tbc;
     if err \<noteq> CB_OK then Some (CB_ERROR, Some attr, tbc, hr)
     else case tbc DEVLINK_ATTR_REGION_CHUNK_DATA of
       None \<Rightarrow> Some (CB_OK, None, tbc, hr)
     | Some data_attr \<Rightarrow>
         (case tbc DEVLINK_ATTR_REGION_CHUNK_ADDR of
            None \<Rightarrow> Some (CB_OK, None, tbc, hr)
          | Some addr_attr \<Rightarrow>
              let chunk = attr_payload M data_attr;
                  len = word_of_nat (length chunk);
                  offs = attr_u64 M addr_attr in
              do {
                (ok, hr) \<leftarrow> mem_grow M new (offs + len) hr;
                if \<not> ok then Some (CB_ERROR, Some addr_attr, tbc, hr)
                else do {
                  h \<leftarrow> c_memcpy (mr_data (snd hr)) (unat offs) chunk (fst hr);
                  Some (CB_OK, Some addr_attr, tbc, h, snd hr)
                }
              })
   }"

partial_function (option) mem_dup_chunks ::
  "'a mnl \<Rightarrow> (heap \<Rightarrow> nat) \<Rightarrow> 'a \<Rightarrow> 'a \<Rightarrow> 'a tb \<Rightarrow> heap \<times> mem_region \<Rightarrow>
   (int \<times> heap \<times> mem_region) option" where
  "mem_dup_chunks M new nest attr tbc hr =
     (if \<not> nest_ok M nest attr then Some (CB_OK, hr)
      else do {
        (err, attr, tbc, hr) \<leftarrow> mem_dup_chunk M new attr tbc hr;
        if err \<noteq> CB_OK then Some (CB_ERROR, hr)
        else case attr of
          None \<Rightarrow> None
        | Some a \<Rightarrow> mem_dup_chunks M new nest (attr_next M a) tbc hr
      })"

declare mem_dup_chunks.simps [code]

definition mem_region_dup_cb :: "'a mnl \<Rightarrow> (heap \<Rightarrow> nat) \<Rightarrow> ('a, heap \<times> mem_region) mnl_cb" where
  "mem_region_dup_cb M new msg hr = do {
     tb \<leftarrow> devlink_parse M msg (\<lambda>_. None);
     if tb DEVLINK_ATTR_BUS_NAME = None \<or> tb DEVLINK_ATTR_DEV_NAME = None then Some (CB_ERROR, hr)
     else case tb DEVLINK_ATTR_REGION_CHUNKS of
       None \<Rightarrow> Some (CB_ERROR, hr)
     | Some nest \<Rightarrow> mem_dup_chunks M new nest (nest_first M nest) (\<lambda>_. None) hr
   }"

section \<open>A listing\<close>

text \<open>
  The loop over the devices of \<^verbatim>\<open>json_atu\<close>, \<^verbatim>\<open>env_show_atu\<close> and their like, with one variable for the
  regions of all devices. The entries are read through the pointer.
\<close>

fun mem_foreach_region ::
  "'a mnl \<Rightarrow> (heap \<Rightarrow> nat) \<Rightarrow> ('k, 'a) dl_kernel \<Rightarrow> devlink \<Rightarrow> string \<Rightarrow> (dev \<Rightarrow> string) \<Rightarrow>
   (dev \<Rightarrow> devlink_region \<Rightarrow> 's \<Rightarrow> (string \<times> 's) option) \<Rightarrow> dev list \<Rightarrow> 's \<Rightarrow> heap \<times> mem_region \<Rightarrow> 'k \<Rightarrow>
   (string \<times> 's \<times> (heap \<times> mem_region) \<times> 'k) option" where
  "mem_foreach_region M new K dl name head body [] s hr k = Some ([], s, hr, k)"
| "mem_foreach_region M new K dl name head body (dev # devs) s hr k = do {
     (err, hr, k) \<leftarrow> devlink_region_get K dl (d_devlink dev) name (mem_region_dup_cb M new) hr k;
     if err \<noteq> 0 then Some (head dev, s, hr, k)
     else do {
       bytes \<leftarrow> block (mr_data (snd hr)) (fst hr);
       (t, s) \<leftarrow> body dev bytes s;
       hr \<leftarrow> devlink_region_free hr;
       (ts, s, hr, k) \<leftarrow> mem_foreach_region M new K dl name head body devs s hr k;
       Some (head dev @ t @ ts, s, hr, k)
     }
   }"

section \<open>Ownership\<close>

text \<open>
  A heap and a region variable that owns the bytes \<open>region\<close>: besides the blocks of \<open>h0\<close>, the heap has
  the block of the region and no other.
\<close>

definition owns :: "heap \<Rightarrow> devlink_region \<Rightarrow> heap \<times> mem_region \<Rightarrow> bool" where
  "owns h0 region hr \<longleftrightarrow>
     mr_size (snd hr) = word_of_nat (length region) \<and>
     (case mr_data (snd hr) of
        None \<Rightarrow> fst hr = h0 \<and> region = []
      | Some a \<Rightarrow> h0 a = None \<and> fst hr = h0(a \<mapsto> region))"

text \<open>What the allocator promises: blocks of the requested size, at an address that is not in use.\<close>

definition allocator_ok :: "'a mnl \<Rightarrow> (heap \<Rightarrow> nat) \<Rightarrow> bool" where
  "allocator_ok M new \<longleftrightarrow>
     (\<forall>old n bytes. m_realloc M old n = Some bytes \<longrightarrow> length bytes = n) \<and>
     (\<forall>h. finite (dom h) \<longrightarrow> h (new h) = None)"

lemma owns_null [simp]: "owns h0 [] (h0, null_region)"
  by (simp add: owns_def null_region_def)

lemma owns_finite: "owns h0 region hr \<Longrightarrow> finite (dom h0) \<Longrightarrow> finite (dom (fst hr))"
  by (auto simp: owns_def split: option.splits)

lemma owns_block: "owns h0 region hr \<Longrightarrow> block (mr_data (snd hr)) (fst hr) = Some region"
  by (auto simp: owns_def block_def split: option.splits)

text \<open>At most the block of the region variable has been added to the heap.\<close>

definition one_block_more :: "heap \<Rightarrow> heap \<times> mem_region \<Rightarrow> bool" where
  "one_block_more h0 hr \<longleftrightarrow>
     hr = (h0, null_region) \<or>
     (\<exists>a bytes. h0 a = None \<and> fst hr = h0(a \<mapsto> bytes) \<and> mr_data (snd hr) = Some a)"

lemma owns_one_block:
  assumes "owns h0 region hr"
  shows "one_block_more h0 hr"
  using assms
  by (cases hr; cases "mr_data (snd hr)")
     (auto simp: owns_def one_block_more_def null_region_def intro: mem_region.equality)

lemma owns_free:
  assumes "owns h0 region hr"
  shows "c_free (mr_data (snd hr)) (fst hr) = Some h0"
proof (cases "mr_data (snd hr)")
  case (Some a)
  then have "fst hr = h0(a \<mapsto> region)" "h0 a = None" using assms by (simp_all add: owns_def)
  then show ?thesis using Some by (simp add: c_free_def fun_upd_idem)
qed (use assms in \<open>simp add: owns_def c_free_def\<close>)

section \<open>The copy in memory is the copy of lists\<close>

lemma memcpy_owns:
  assumes "owns h0 region (h, r)" and "offs + length bytes \<le> length region"
  shows "\<exists>h'. c_memcpy (mr_data r) offs bytes h = Some h' \<and>
              owns h0 (take offs region @ bytes @ drop (offs + length bytes) region) (h', r)"
  using assms by (auto simp: owns_def c_memcpy_def block_def split: option.splits)

lemma grow_owns:
  assumes "allocator_ok M new" and "finite (dom h0)" and "owns h0 region hr"
  shows "case (if word_of_nat (length region) < need then m_realloc M region (unat need) else Some region) of
           None \<Rightarrow> mem_grow M new need hr = Some (False, h0, null_region)
         | Some buf \<Rightarrow> \<exists>hr'. mem_grow M new need hr = Some (True, hr') \<and> owns h0 buf hr'"
proof (cases "word_of_nat (length region) < need")
  case True
  obtain h r where hr: "hr = (h, r)" by (cases hr)
  have size: "mr_size r < need" using True assms(3) by (simp add: owns_def hr)
  have old: "block (mr_data r) h = Some region" "c_free (mr_data r) h = Some h0"
    using owns_block [OF assms(3)] owns_free [OF assms(3)] by (simp_all add: hr)
  show ?thesis
  proof (cases "m_realloc M region (unat need)")
    case None
    then show ?thesis
      using True size old by (simp add: hr mem_grow_def c_realloc_def c_free_def [of None])
  next
    case (Some bytes)
    then have "length bytes = unat need" "h0 (new h0) = None"
      using assms(1,2) by (auto simp: allocator_ok_def)
    then show ?thesis
      using Some True size old by (simp add: hr mem_grow_def c_realloc_def owns_def)
  qed
next
  case False
  then show ?thesis using assms(3) by (cases hr) (auto simp: mem_grow_def owns_def)
qed

lemma dup_chunk_owns:
  assumes "allocator_ok M new" and "finite (dom h0)" and o: "owns h0 region hr"
    and "dup_chunk M attr tbc region = Some (err, attr', tbc', region')"
  shows "\<exists>hr'. mem_dup_chunk M new attr tbc hr = Some (err, attr', tbc', hr') \<and> owns h0 region' hr'"
proof -
  obtain e t where p: "mnl_attr_parse (devlink_attr_cb M) (attr_nested M attr) tbc = Some (e, t)"
    using assms(4) by (auto simp: dup_chunk_def split: Option.bind_splits)
  show ?thesis
  proof (cases "e = CB_OK \<and> t DEVLINK_ATTR_REGION_CHUNK_DATA \<noteq> None \<and> t DEVLINK_ATTR_REGION_CHUNK_ADDR \<noteq> None")
    case False
    then show ?thesis
      using assms(4) o p
      by (cases hr) (auto simp: dup_chunk_def mem_dup_chunk_def split: if_splits option.splits)
  next
    case True
    then obtain da aa where at: "e = CB_OK" "t DEVLINK_ATTR_REGION_CHUNK_DATA = Some da"
        "t DEVLINK_ATTR_REGION_CHUNK_ADDR = Some aa" by auto
    let ?chunk = "attr_payload M da" and ?offs = "attr_u64 M aa"
    let ?need = "?offs + word_of_nat (length ?chunk)"
    let ?buf = "if word_of_nat (length region) < ?need then m_realloc M region (unat ?need) else Some region"
    note grow = grow_owns [OF assms(1-3), of ?need]
    show ?thesis
    proof (cases ?buf)
      case None
      have "err = CB_ERROR" "attr' = Some aa" "tbc' = t" "region' = []"
        using None assms(4) p at by (auto simp: dup_chunk_def Let_def)
      moreover have "mem_grow M new ?need hr = Some (False, h0, null_region)" using None grow by simp
      ultimately show ?thesis using p at by (simp add: mem_dup_chunk_def Let_def)
    next
      case (Some buf)
      then obtain h r where g: "mem_grow M new ?need hr = Some (True, h, r)" "owns h0 buf (h, r)"
        using grow by auto
      have fits: "unat ?offs + length ?chunk \<le> length buf"
        and res: "err = CB_OK" "attr' = Some aa" "tbc' = t"
          "region' = take (unat ?offs) buf @ ?chunk @ drop (unat ?offs + length ?chunk) buf"
        using Some assms(4) p at by (auto simp: dup_chunk_def Let_def split: if_splits)
      show ?thesis
        using memcpy_owns [OF g(2) fits] p at g(1) by (auto simp: mem_dup_chunk_def Let_def res)
    qed
  qed
qed

lemma dup_chunks_owns:
  assumes fin: "finite (dom h0)" and "dup_chunks M nest attr tbc region = Some r"
  shows "allocator_ok M new \<longrightarrow> (\<forall>hr. owns h0 region hr \<longrightarrow>
           (\<exists>hr'. mem_dup_chunks M new nest attr tbc hr = Some (fst r, hr') \<and> owns h0 (snd r) hr'))"
  using assms(2)
proof (rule dup_chunks.raw_induct [rotated, where P = "\<lambda>M nest attr tbc region r. allocator_ok M new \<longrightarrow>
      (\<forall>hr. owns h0 region hr \<longrightarrow>
        (\<exists>hr'. mem_dup_chunks M new nest attr tbc hr = Some (fst r, hr') \<and> owns h0 (snd r) hr'))"],
    intro impI allI)
  fix f M nest attr tbc region r hr
  assume IH: "\<And>M nest attr tbc region r. f M nest attr tbc region = Some r \<Longrightarrow>
      allocator_ok M new \<longrightarrow> (\<forall>hr. owns h0 region hr \<longrightarrow>
        (\<exists>hr'. mem_dup_chunks M new nest attr tbc hr = Some (fst r, hr') \<and> owns h0 (snd r) hr'))"
    and body: "(if \<not> nest_ok M nest attr then Some (CB_OK, region)
      else do {
        (err, attr, tbc, region) \<leftarrow> dup_chunk M attr tbc region;
        if err \<noteq> CB_OK then Some (CB_ERROR, region)
        else case attr of None \<Rightarrow> None | Some a \<Rightarrow> f M nest (attr_next M a) tbc region
      }) = Some r"
    and alloc: "allocator_ok M new" and o: "owns h0 region hr"
  show "\<exists>hr'. mem_dup_chunks M new nest attr tbc hr = Some (fst r, hr') \<and> owns h0 (snd r) hr'"
  proof (cases "nest_ok M nest attr")
    case False
    then show ?thesis using body o by (subst mem_dup_chunks.simps) auto
  next
    case True
    then obtain err attr' tbc' region' where c: "dup_chunk M attr tbc region = Some (err, attr', tbc', region')"
      using body by (auto split: Option.bind_splits)
    obtain hr' where m: "mem_dup_chunk M new attr tbc hr = Some (err, attr', tbc', hr')" "owns h0 region' hr'"
      using dup_chunk_owns [OF alloc fin o c] by blast
    show ?thesis
    proof (cases "err = CB_OK")
      case False
      then show ?thesis
        using body True c m by (subst mem_dup_chunks.simps) auto
    next
      case ok: True
      then obtain a where a: "attr' = Some a" "f M nest (attr_next M a) tbc' region' = Some r"
        using body True c by (auto split: option.splits)
      obtain hr'' where "mem_dup_chunks M new nest (attr_next M a) tbc' hr' = Some (fst r, hr'')"
          "owns h0 (snd r) hr''"
        using IH [OF a(2)] alloc m(2) by blast
      then show ?thesis
        using a(1) m ok True by (subst mem_dup_chunks.simps) simp
    qed
  qed
qed

lemma dup_cb_owns:
  assumes "allocator_ok M new" and "finite (dom h0)" and "owns h0 region hr"
    and "devlink_region_dup_cb M msg region = Some (err, region')"
  shows "\<exists>hr'. mem_region_dup_cb M new msg hr = Some (err, hr') \<and> owns h0 region' hr'"
proof -
  obtain tb where tb: "devlink_parse M msg (\<lambda>_. None) = Some tb"
    using assms(4) by (auto simp: devlink_region_dup_cb_def split: Option.bind_splits)
  show ?thesis
  proof (cases "tb DEVLINK_ATTR_BUS_NAME = None \<or> tb DEVLINK_ATTR_DEV_NAME = None \<or>
      tb DEVLINK_ATTR_REGION_CHUNKS = None")
    case True
    then show ?thesis
      using assms(3,4) tb
      by (cases hr) (auto simp: devlink_region_dup_cb_def mem_region_dup_cb_def split: if_splits)
  next
    case False
    then obtain nest where nest: "tb DEVLINK_ATTR_REGION_CHUNKS = Some nest"
        "dup_chunks M nest (nest_first M nest) (\<lambda>_. None) region = Some (err, region')"
      using assms(4) tb by (auto simp: devlink_region_dup_cb_def)
    obtain hr' where "mem_dup_chunks M new nest (nest_first M nest) (\<lambda>_. None) hr = Some (err, hr')"
        "owns h0 region' hr'"
      using dup_chunks_owns [OF assms(2) nest(2), of new] assms(1,3)
      unfolding fst_conv snd_conv by blast
    then show ?thesis
      using False tb nest(1) by (cases hr') (auto simp: mem_region_dup_cb_def)
  qed
qed

text \<open>Callbacks that do the same do the same in a query.\<close>

lemma recv_run_follows:
  assumes "\<And>msg d1 d2 err d1'. R d1 d2 \<Longrightarrow> f msg d1 = Some (err, d1') \<Longrightarrow>
             \<exists>d2'. g msg d2 = Some (err, d2') \<and> R d1' d2'"
    and "recv_run (Some f) evs d1 = Some (err, d1')" and "R d1 d2"
  shows "\<exists>d2'. recv_run (Some g) evs d2 = Some (err, d2') \<and> R d1' d2'"
  using assms(2,3)
proof (induction "Some f" evs d1 arbitrary: d2 rule: recv_run.induct)
  case (3 m evs d1)
  obtain e d where e: "cb_dispatch (Some f) m d1 = Some (e, d)"
    using 3(2) by (auto split: Option.bind_splits)
  obtain d' where d': "cb_dispatch (Some g) m d2 = Some (e, d')" "R d d'"
    using e 3(3) assms(1) by (cases m) (fastforce simp: cb_dispatch_def)+
  show ?case
    using 3(1) [OF e refl _ _ d'(2)] 3(2) e d' by (auto split: if_splits)
qed auto

lemma region_get_follows:
  assumes "\<And>msg d1 d2 err d1'. R d1 d2 \<Longrightarrow> f msg d1 = Some (err, d1') \<Longrightarrow>
             \<exists>d2'. g msg d2 = Some (err, d2') \<and> R d1' d2'"
    and "devlink_region_get K dl addr name f d1 k = Some (err, d1', k')" and "R d1 d2"
  shows "\<exists>d2'. devlink_region_get K dl addr name g d2 k = Some (err, d2', k') \<and> R d1' d2'"
proof -
  have query: "\<exists>d2'. devlink_query K rq (Some g) d2 k = Some (err, d2', k') \<and> R d1' d2'"
    if q: "devlink_query K rq (Some f) d1 k = Some (err, d1', k')" and d: "R d1 d2" for rq d1 d2 k err d1' k'
  proof -
    obtain sent evs k2 where K: "K rq k = (sent, evs, k2)" by (metis prod.collapse)
    show ?thesis
    proof (cases "sent < 0")
      case True
      then show ?thesis using q d K by (auto simp: devlink_query_def)
    next
      case False
      then have "recv_run (Some f) evs d1 = Some (err, d1')" "k2 = k'"
        using q K by (auto simp: devlink_query_def split: Option.bind_splits)
      moreover have "\<exists>d2'. recv_run (Some g) evs d2 = Some (err, d2') \<and> R d1' d2'"
        by (rule recv_run_follows [where R = R and f = f]) (use assms(1) calculation(1) d in auto)
      ultimately show ?thesis using K False by (auto simp: devlink_query_def)
    qed
  qed
  let ?rq = "region_msg_prepare dl addr (- 1) name"
  let ?new = "?rq DEVLINK_CMD_REGION_NEW [NLM_F_REQUEST, NLM_F_ACK]"
  obtain e1 k1 where new: "devlink_query K ?new None () k = Some (e1, (), k1)"
    using assms(2) by (auto simp: devlink_region_get_def devlink_port_region_get_def split: Option.bind_splits)
  show ?thesis
  proof (cases "e1 = 0")
    case False
    then show ?thesis
      using assms(2,3) new by (auto simp: devlink_region_get_def devlink_port_region_get_def)
  next
    case True
    then obtain d k2 e3 where
      rd: "devlink_query K (?rq DEVLINK_CMD_REGION_READ [NLM_F_REQUEST, NLM_F_ACK, NLM_F_DUMP]) (Some f) d1 k1 =
        Some (err, d, k2)" and
      del: "devlink_query K (?rq DEVLINK_CMD_REGION_DEL [NLM_F_REQUEST, NLM_F_ACK]) (Some f) d k2 =
        Some (e3, d1', k')"
      using assms(2) new
      by (auto simp: devlink_region_get_def devlink_port_region_get_def split: Option.bind_splits)
    obtain d' where rd': "devlink_query K (?rq DEVLINK_CMD_REGION_READ [NLM_F_REQUEST, NLM_F_ACK, NLM_F_DUMP])
        (Some g) d2 k1 = Some (err, d', k2)" "R d d'"
      using query [OF rd assms(3)] by blast
    obtain d2' where "devlink_query K (?rq DEVLINK_CMD_REGION_DEL [NLM_F_REQUEST, NLM_F_ACK]) (Some g) d' k2 =
        Some (e3, d2', k')" "R d1' d2'"
      using query [OF del rd'(2)] by blast
    then show ?thesis
      using True new rd'(1) by (simp add: devlink_region_get_def devlink_port_region_get_def)
  qed
qed

section \<open>Property\<close>

definition all_read :: "'a mnl \<Rightarrow> ('k, 'a) dl_kernel \<Rightarrow> devlink \<Rightarrow> string \<Rightarrow> dev list \<Rightarrow> bool" where
  "all_read M K dl name devs \<longleftrightarrow>
     (\<forall>dev \<in> set devs. \<forall>k err rg k'.
        devlink_region_get K dl (d_devlink dev) name (devlink_region_dup_cb M) [] k = Some (err, rg, k') \<longrightarrow>
        err = 0)"

lemma all_read_tl: "all_read M K dl name (dev # devs) \<Longrightarrow> all_read M K dl name devs"
  unfolding all_read_def by (meson list.set_intros(2))

text \<open>
  C24. A listing on regions in memory prints exactly what the listing on lists of bytes prints, and
  frees what it allocates: no block is freed twice or used after it was freed, and when every region
  could be read the heap is as before. When reading a region fails, which ends the listing, at most
  the block of this region stays allocated.
\<close>

theorem listing_in_memory:
  assumes "allocator_ok M new" and "finite (dom h)"
    and "foreach_region M K dl name head body devs s k = Some (printed, s', k')"
  shows "\<exists>h' region.
           mem_foreach_region M new K dl name head body devs s (h, null_region) k =
             Some (printed, s', (h', region), k') \<and>
           one_block_more h (h', region) \<and> (all_read M K dl name devs \<longrightarrow> h' = h)"
  using assms(3)
proof (induction devs arbitrary: s k printed)
  case (Cons dev devs)
  let ?get = "devlink_region_get K dl (d_devlink dev) name"
  obtain err rg k1 where get: "?get (devlink_region_dup_cb M) [] k = Some (err, rg, k1)"
    using Cons.prems by (auto split: Option.bind_splits)
  obtain h1 r1 where mem: "?get (mem_region_dup_cb M new) (h, null_region) k = Some (err, (h1, r1), k1)"
      "owns h rg (h1, r1)"
  proof -
    have "\<exists>hr. ?get (mem_region_dup_cb M new) (h, null_region) k = Some (err, hr, k1) \<and> owns h rg hr"
      by (rule region_get_follows [where R = "owns h" and f = "devlink_region_dup_cb M"])
         (use dup_cb_owns [OF assms(1,2)] get in auto)
    then show ?thesis using that by auto
  qed
  show ?case
  proof (cases "err = 0")
    case False
    then have res: "printed = head dev" "s' = s" "k' = k1" using Cons.prems get by auto
    have "\<not> all_read M K dl name (dev # devs)"
      using get False by (auto simp: all_read_def)
    then show ?thesis
      using owns_one_block [OF mem(2)] mem(1) False by (simp add: res)
  next
    case True
    obtain t s1 ts where t: "body dev rg s = Some (t, s1)"
        "foreach_region M K dl name head body devs s1 k1 = Some (ts, s', k')" "printed = head dev @ t @ ts"
      using Cons.prems get True by (auto split: Option.bind_splits)
    show ?thesis
      using Cons.IH [OF t(2)] mem(1) t(1,3) get True owns_block [OF mem(2)] owns_free [OF mem(2)]
      by (auto simp: devlink_region_free_def dest: all_read_tl)
  qed
qed (simp add: one_block_more_def)

text \<open>An allocator that takes the lowest free address.\<close>

definition lowest_free :: "heap \<Rightarrow> nat" where
  "lowest_free h = (LEAST a. h a = None)"

lemma lowest_free_ok: "allocator_ok x_mnl lowest_free"
proof -
  have "h (lowest_free h) = None" if "finite (dom h)" for h
  proof -
    have "\<exists>a. a \<notin> dom h" by (rule ex_new_if_finite [OF infinite_UNIV_nat that])
    then show ?thesis unfolding lowest_free_def by (auto simp: domIff intro: LeastI)
  qed
  then show ?thesis by (auto simp: allocator_ok_def x_mnl_def x_realloc_def)
qed

definition two_devs :: "dev list" where
  "two_devs = map (\<lambda>d. \<lparr>d_devlink = \<lparr>da_bus = ''mdio_bus'', da_dev = d\<rparr>, d_chip = hd chips, d_index = 0,
     d_ports = [], d_global1 = [], d_pvt = []\<rparr>) [''sw0'', ''sw1'']"

text \<open>A listing that counts the bytes of the regions of two devices.\<close>

theorem listing_in_memory_witness:
  "\<exists>hr. mem_foreach_region x_mnl lowest_free x_region_kernel \<lparr>dl_family = 20\<rparr> ''atu'' (da_dev \<circ> d_devlink)
     (\<lambda>dev rg n. Some ('' '', n + length rg)) two_devs 0 (\<lambda>_. None, null_region) () =
     Some (''sw0 sw1 '', 8, hr, ()) \<and> fst hr = (\<lambda>_. None)"
proof -
  let ?body = "\<lambda>(dev :: dev) rg n. Some ('' '', n + length rg)"
  have run: "foreach_region x_mnl x_region_kernel \<lparr>dl_family = 20\<rparr> ''atu'' (da_dev \<circ> d_devlink) ?body two_devs 0 () =
      Some (''sw0 sw1 '', 8, ())"
    by (simp add: two_devs_def devlink_region_get_def x_region_get)
  have "all_read x_mnl x_region_kernel \<lparr>dl_family = 20\<rparr> ''atu'' two_devs"
    by (simp add: all_read_def devlink_region_get_def x_region_get)
  with listing_in_memory [OF lowest_free_ok _ run, of "\<lambda>_. None"] obtain h' r where
    "mem_foreach_region x_mnl lowest_free x_region_kernel \<lparr>dl_family = 20\<rparr> ''atu'' (da_dev \<circ> d_devlink) ?body
       two_devs 0 (\<lambda>_. None, null_region) () = Some (''sw0 sw1 '', 8, (h', r), ())" "h' = (\<lambda>_. None)"
    by auto
  then show ?thesis by (intro exI [of _ "(h', r)"] conjI) simp_all
qed

end
