(* ===== verification/Print_Phy.thy ===== *)
theory Print_Phy
  imports Paged_Phy
begin

text \<open>
  \<^verbatim>\<open>src/mdio/print-phy.c\<close>: the text of the status reports. The registers' bits and fields are named by
  the headers \<^verbatim>\<open>linux/mii.h\<close> and \<^verbatim>\<open>linux/mdio.h\<close> of the platform, which are not part of the repository:
  the value of each name is a parameter, \<open>C ''NAME''\<close>.
\<close>

section \<open>Pieces of text\<close>

type_synonym uapi = "string \<Rightarrow> u32"

definition nl :: string where "nl = [CHR 0x0A]"

text \<open>\<^verbatim>\<open>%#.4x\<close>: the prefix is left out for 0.\<close>

definition alt_hex :: "nat \<Rightarrow> nat \<Rightarrow> string" where
  "alt_hex w n = (if n = 0 then [] else ''0x'') @ hex_pad w n"

definition has :: "'a::len word \<Rightarrow> u32 \<Rightarrow> bool" where
  "has val m \<longleftrightarrow> ucast val AND m \<noteq> 0"

definition print_bool :: "string \<Rightarrow> bool \<Rightarrow> string" where
  "print_bool name on =
     (if on then CHR 0x1B # ''[1m+'' else ''-'') @ name @ (if on then CHR 0x1B # ''[0m'' else [])"

text \<open>A row of flags with \<^verbatim>\<open>putchar(' ')\<close> between them.\<close>

fun flags :: "(string \<times> bool) list \<Rightarrow> string" where
  "flags [] = []"
| "flags [(name, on)] = print_bool name on"
| "flags ((name, on) # fs) = print_bool name on @ '' '' @ flags fs"

definition get_speed :: "uapi \<Rightarrow> u16 \<Rightarrow> string" where
  "get_speed C val =
     (let ext = C ''MDIO_CTRL1_SPEEDSELEXT'';
          sel1 = ucast val AND ext;
          sel2 = ucast val AND C ''MDIO_CTRL1_SPEEDSEL'' in
      if sel1 = C ''MDIO_PMA_CTRL1_SPEED1000'' then ''1000''
      else if sel1 = C ''MDIO_PMA_CTRL1_SPEED100'' then ''100''
      else if sel1 = 0 then ''10''
      else if sel2 = ext OR 0x24 then ''400g''
      else if sel2 = ext OR 0x20 then ''200g''
      else if sel2 = ext OR 0x0c then ''100g''
      else if sel2 = ext OR 0x08 then ''40g''
      else if sel2 = ext OR 0x10 then ''25g''
      else if sel2 = C ''MDIO_CTRL1_SPEED10G'' then ''10g''
      else if sel2 = C ''MDIO_CTRL1_SPEED2_5G'' then ''2.5g''
      else if sel2 = C ''MDIO_CTRL1_SPEED5G'' then ''5g''
      else if sel2 = C ''MDIO_CTRL1_SPEED10P2B'' then ''10-ts/2-tl''
      else ''unknown'')"

section \<open>Clause 22\<close>

definition print_phy_bmcr :: "uapi \<Rightarrow> u16 \<Rightarrow> string" where
  "print_phy_bmcr C val =
     ''BMCR(0x00): '' @ alt_hex 4 (unat val) @ nl @ ''  flags: '' @
     flags
       [(''reset'', has val (C ''BMCR_RESET'')), (''loopback'', has val (C ''BMCR_LOOPBACK'')),
        (''aneg-enable'', has val (C ''BMCR_ANENABLE'')), (''power-down'', has val (C ''BMCR_PDOWN'')),
        (''isolate'', has val (C ''BMCR_ISOLATE'')),
        (''aneg-restart'', has val (C ''BMCR_ANRESTART''))] @
     nl @ ''         '' @
     flags
       [(''collision-test'', has val (C ''BMCR_CTST''))] @
     nl @ ''  speed: '' @ get_speed C val @ ''-'' @
     (if has val (C ''BMCR_FULLDPLX'') then ''full'' else ''half'') @ nl"

definition print_phy_bmsr :: "uapi \<Rightarrow> u16 \<Rightarrow> string" where
  "print_phy_bmsr C val =
     ''BMSR(0x01): '' @ alt_hex 4 (unat val) @ nl @ ''  capabilities: '' @
     flags
       [(''100-t4'', has val (C ''BMSR_100BASE4'')), (''100-tx-f'', has val (C ''BMSR_100FULL'')),
        (''100-tx-h'', has val (C ''BMSR_100HALF'')), (''10-t-f'', has val (C ''BMSR_10FULL'')),
        (''10-t-h'', has val (C ''BMSR_10HALF'')), (''100-t2-f'', has val (C ''BMSR_100FULL2'')),
        (''100-t2-h'', has val (C ''BMSR_100HALF2''))] @
     nl @ ''  flags:        '' @
     flags
       [(''ext-status'', has val (C ''BMSR_ESTATEN'')),
        (''aneg-complete'', has val (C ''BMSR_ANEGCOMPLETE'')),
        (''remote-fault'', has val (C ''BMSR_RFAULT'')),
        (''aneg-capable'', has val (C ''BMSR_ANEGCAPABLE'')), (''link'', has val (C ''BMSR_LSTATUS''))] @
     nl @ ''                '' @
     flags
       [(''jabber'', has val (C ''BMSR_JCD'')), (''ext-register'', has val (C ''BMSR_ERCAP''))] @
     nl"

definition print_id :: "string \<Rightarrow> u16 \<Rightarrow> u16 \<Rightarrow> string" where
  "print_id name id_hi id_lo =
     name @ '': '' @ alt_hex 8 (unat (push_bit 16 (ucast id_hi) OR ucast id_lo :: u32)) @ nl"

definition print_phy_id :: "u16 \<Rightarrow> u16 \<Rightarrow> string" where
  "print_phy_id = print_id ''ID(0x02/0x03)''"

definition print_phy_estatus :: "uapi \<Rightarrow> u16 \<Rightarrow> string" where
  "print_phy_estatus C val =
     ''ESTATUS(0x0F): '' @ alt_hex 4 (unat val) @ nl @ ''  capabilities: '' @
     flags
       [(''1000-x-f'', has val (C ''ESTATUS_1000_XFULL'')),
        (''1000-x-h'', has val (C ''ESTATUS_1000_XHALF'')),
        (''1000-t-f'', has val (C ''ESTATUS_1000_TFULL'')),
        (''1000-t-h'', has val (C ''ESTATUS_1000_THALF''))] @
     nl"

section \<open>Clause 45, all devices\<close>

definition print_mmd_devid :: "u16 \<Rightarrow> u16 \<Rightarrow> string" where
  "print_mmd_devid = print_id ''DEVID(0x02/0x03)''"

definition print_mmd_pkgid :: "u16 \<Rightarrow> u16 \<Rightarrow> string" where
  "print_mmd_pkgid = print_id ''PKGID(0x0E/0x0F)''"

definition print_mmd_devs :: "uapi \<Rightarrow> u16 \<Rightarrow> u16 \<Rightarrow> string" where
  "print_mmd_devs C devs_hi devs_lo =
     (let devs = push_bit 16 (ucast devs_hi) OR ucast devs_lo :: u32 in
     ''DEVS(0x06/0x05): '' @ alt_hex 8 (unat devs) @ nl @ ''  devices: '' @
     flags
       [(''vendor2'', has devs (C ''MDIO_DEVS_VEND2'')),
        (''vendor1'', has devs (C ''MDIO_DEVS_VEND1'')),
        (''c22-ext'', has devs (C ''MDIO_DEVS_C22EXT'')),
        (''power-unit'', has devs (C ''MDIO_DEVS_PRESENT(13)'')),
        (''ofdm'', has devs (C ''MDIO_DEVS_PRESENT(12)'')),
        (''pma4'', has devs (C ''MDIO_DEVS_PRESENT(11)'')),
        (''pma3'', has devs (C ''MDIO_DEVS_PRESENT(10)'')),
        (''pma2'', has devs (C ''MDIO_DEVS_PRESENT(9)'')),
        (''pma1'', has devs (C ''MDIO_DEVS_PRESENT(8)''))] @
     nl @ ''           '' @
     flags
       [(''aneg'', has devs (C ''MDIO_DEVS_AN'')), (''tc'', has devs (C ''MDIO_DEVS_TC'')),
        (''dte-xs'', has devs (C ''MDIO_DEVS_DTEXS'')), (''phy-xs'', has devs (C ''MDIO_DEVS_PHYXS'')),
        (''pcs'', has devs (C ''MDIO_DEVS_PCS'')), (''wis'', has devs (C ''MDIO_DEVS_WIS'')),
        (''pma/pmd'', has devs (C ''MDIO_DEVS_PMAPMD'')),
        (''c22'', has devs (C ''MDIO_DEVS_C22PRESENT''))] @
     nl)"

definition print_mmd_stat2_flags :: "uapi \<Rightarrow> u16 \<Rightarrow> string" where
  "print_mmd_stat2_flags C val =
     ''  flags:        '' @
     flags
       [(''present'', ucast val AND C ''MDIO_STAT2_DEVPRST'' = C ''MDIO_STAT2_DEVPRST_VAL''),
        (''tx-fault'', has val (C ''MDIO_STAT2_TXFAULT'')),
        (''rx-fault'', has val (C ''MDIO_STAT2_RXFAULT''))] @
     nl"

text \<open>
  A name out of a table with \<open>places\<close> places, given by its designated initialisers; of two for the
  same place the later one counts. \<open>None\<close> is a read outside the table.
\<close>

definition table_name :: "nat \<Rightarrow> (nat \<times> string) list \<Rightarrow> nat \<Rightarrow> string option" where
  "table_name places tbl n =
     (if n < places then Some (case map_of (rev tbl) n of Some s \<Rightarrow> s | None \<Rightarrow> ''unknown'') else None)"

section \<open>PMA/PMD\<close>

definition print_pma_ctrl1 :: "uapi \<Rightarrow> u16 \<Rightarrow> string" where
  "print_pma_ctrl1 C val =
     ''CTRL1(0x00): '' @ alt_hex 4 (unat val) @ nl @ ''  flags: '' @
     flags
       [(''reset'', has val (C ''MDIO_CTRL1_RESET'')),
        (''low-power'', has val (C ''MDIO_CTRL1_LPOWER'')),
        (''remote-loopback'', has val (push_bit 1 1)),
        (''local-loopback'', has val (C ''MDIO_PMA_CTRL1_LOOPBACK''))] @
     nl @ ''  speed: '' @ get_speed C val @ nl"

definition print_pma_stat1 :: "uapi \<Rightarrow> u16 \<Rightarrow> string" where
  "print_pma_stat1 C val =
     ''STAT1(0x01): '' @ alt_hex 4 (unat val) @ nl @ ''  capabilities: '' @
     flags
       [(''pias'', has val (push_bit 9 1)), (''peas'', has val (push_bit 8 1)),
        (''low-power'', has val (C ''MDIO_STAT1_LPOWERABLE''))] @
     nl @ ''  flags:        '' @
     flags
       [(''fault'', has val (C ''MDIO_STAT1_FAULT'')), (''link'', has val (C ''MDIO_STAT1_LSTATUS''))] @
     nl"

definition print_pma_speed :: "uapi \<Rightarrow> u16 \<Rightarrow> string" where
  "print_pma_speed C val =
     ''SPEED(0x04): '' @ alt_hex 4 (unat val) @ nl @ ''  capabilities: '' @
     flags
       [(''400g'', has val (push_bit 15 1)), (''5g'', has val (push_bit 14 1)),
        (''2.5g'', has val (push_bit 13 1)), (''200g'', has val (push_bit 12 1)),
        (''25g'', has val (push_bit 11 1)), (''10g-xr'', has val (push_bit 10 1)),
        (''100g'', has val (push_bit 9 1)), (''40g'', has val (push_bit 8 1)),
        (''10g/1g'', has val (push_bit 7 1)), (''10'', has val (C ''MDIO_PMA_SPEED_10'')),
        (''100'', has val (C ''MDIO_PMA_SPEED_100''))] @
     nl @ ''                '' @
     flags
       [(''1000'', has val (C ''MDIO_PMA_SPEED_1000'')),
        (''10-ts'', has val (C ''MDIO_PMA_SPEED_10P'')), (''2-tl'', has val (C ''MDIO_PMA_SPEED_2B'')),
        (''10g'', has val (C ''MDIO_SPEED_10G''))] @
     nl"

definition pma_type :: "uapi \<Rightarrow> (nat \<times> string) list" where
  "pma_type C =
     [(0x5c, ''400g-lr8''), (0x5b, ''400g-fr8''), (0x5a, ''400g-dr4''), (0x59, ''400g-sr16''),
      (0x55, ''200g-lr4''), (0x54, ''200g-fr4''), (0x53, ''200g-dr4''), (0x3d, ''-t1''),
      (0x3a, ''25g-sr''), (0x39, ''25g-kr''), (0x38, ''25g-cr''), (0x37, ''25g-t''),
      (0x36, ''25g-er''), (0x35, ''25g-lr''), (0x34, ''-h''), (0x33, ''10g-xr-u''),
      (0x32, ''10g-xr-d''), (unat (C ''MDIO_PMA_CTRL2_5GBT''), ''5g-t''),
      (unat (C ''MDIO_PMA_CTRL2_2_5GBT''), ''2.5g-t''), (0x2f, ''100g-sr4''), (0x2e, ''100g-cr4''),
      (0x2d, ''100g-kr4''), (0x2c, ''100g-kp4''), (0x2b, ''100g-er4''), (0x2a, ''100g-lr4''),
      (0x29, ''100g-sr10''), (0x28, ''100g-cr10''), (0x26, ''40g-t''), (0x25, ''40g-er4''),
      (0x24, ''40g-fr''), (0x23, ''40g-lr4''), (0x22, ''40g-sr4''), (0x21, ''40g-cr4''),
      (0x20, ''40g-kr4''), (0x1f, ''10/1g-prx-u4''), (0x1e, ''10g-pr-u4''),
      (0x1d, ''10/1g-prx-d4''), (0x1c, ''10g-pr-d4''), (0x1a, ''10g-pr-u3''),
      (0x19, ''10g-pr-u1''), (0x18, ''10/1g-prx-u3''), (0x17, ''10/1g-prx-u2''),
      (0x16, ''10/1g-prx-u1''), (0x15, ''10g-pr-d3''), (0x14, ''10g-pr-d2''),
      (0x13, ''10g-pr-d1''), (0x12, ''10/1g-prx-d3''), (0x11, ''10/1g-prx-d2''),
      (0x10, ''10/1g-prx-d1''), (unat (C ''MDIO_PMA_CTRL2_10BT''), ''10-t''),
      (unat (C ''MDIO_PMA_CTRL2_100BTX''), ''100-tx''),
      (unat (C ''MDIO_PMA_CTRL2_1000BKX''), ''1000-kx''),
      (unat (C ''MDIO_PMA_CTRL2_1000BT''), ''1000-t''),
      (unat (C ''MDIO_PMA_CTRL2_10GBKR''), ''10g-kr''),
      (unat (C ''MDIO_PMA_CTRL2_10GBKX4''), ''10g-kx4''),
      (unat (C ''MDIO_PMA_CTRL2_10GBT''), ''10g-t''),
      (unat (C ''MDIO_PMA_CTRL2_10GBLRM''), ''10g-lrm''),
      (unat (C ''MDIO_PMA_CTRL2_10GBSR''), ''10g-sr''),
      (unat (C ''MDIO_PMA_CTRL2_10GBLR''), ''10g-lr''),
      (unat (C ''MDIO_PMA_CTRL2_10GBER''), ''10g-er''),
      (unat (C ''MDIO_PMA_CTRL2_10GBLX4''), ''10g-lx4''),
      (unat (C ''MDIO_PMA_CTRL2_10GBSW''), ''10g-sw''),
      (unat (C ''MDIO_PMA_CTRL2_10GBLW''), ''10g-lw''),
      (unat (C ''MDIO_PMA_CTRL2_10GBEW''), ''10g-ew''),
      (unat (C ''MDIO_PMA_CTRL2_10GBCX4''), ''10g-cx4'')]"

definition pma_type_name :: "uapi \<Rightarrow> u16 \<Rightarrow> string option" where
  "pma_type_name C val =
     table_name 0x80 (pma_type C) (unat (FIELD_GET (C ''MDIO_PMA_CTRL2_TYPE'') (ucast val)))"

definition print_pma_ctrl2 :: "uapi \<Rightarrow> u16 \<Rightarrow> string option" where
  "print_pma_ctrl2 C val =
     map_option
       (\<lambda>ty. ''CTRL2(0x07): '' @ alt_hex 4 (unat val) @ nl @ ''  flags: '' @
          flags [(''pias'', has val (push_bit 9 1)), (''peas'', has val (push_bit 8 1))] @ nl @
          ''  type:  '' @ ty @ nl)
       (pma_type_name C val)"

definition print_pma_stat2 :: "uapi \<Rightarrow> u16 \<Rightarrow> string" where
  "print_pma_stat2 C val =
     ''STAT2(0x08): '' @ alt_hex 4 (unat val) @ nl @ ''  capabilities: '' @
     flags
       [(''tx-fault'', has val (C ''MDIO_PMA_STAT2_TXFLTABLE'')),
        (''rx-fault'', has val (C ''MDIO_PMA_STAT2_RXFLTABLE'')),
        (''ext-register'', has val (C ''MDIO_PMA_STAT2_EXTABLE'')),
        (''tx-disable'', has val (C ''MDIO_PMD_STAT2_TXDISAB'')),
        (''local-loopback'', has val (C ''MDIO_PMA_STAT2_LBABLE''))] @
     nl @ ''                '' @
     flags
       [(''10g-sr'', has val (C ''MDIO_PMA_STAT2_10GBSR'')),
        (''10g-lr'', has val (C ''MDIO_PMA_STAT2_10GBLR'')),
        (''10g-er'', has val (C ''MDIO_PMA_STAT2_10GBER'')),
        (''10g-lx4'', has val (C ''MDIO_PMA_STAT2_10GBLX4'')),
        (''10g-sw'', has val (C ''MDIO_PMA_STAT2_10GBSW'')),
        (''10g-lw'', has val (C ''MDIO_PMA_STAT2_10GBLW'')),
        (''10g-ew'', has val (C ''MDIO_PMA_STAT2_10GBEW''))] @
     nl @ print_mmd_stat2_flags C val"

definition print_pma_extable :: "uapi \<Rightarrow> u16 \<Rightarrow> string" where
  "print_pma_extable C val =
     ''EXTABLE(0x0B): '' @ alt_hex 4 (unat val) @ nl @ ''  capabilities: '' @
     flags
       [(''10g-cx4'', has val (C ''MDIO_PMA_EXTABLE_10GCX4'')),
        (''10g-lrm'', has val (C ''MDIO_PMA_EXTABLE_10GBLRM'')),
        (''10g-t'', has val (C ''MDIO_PMA_EXTABLE_10GBT'')),
        (''10g-kx4'', has val (C ''MDIO_PMA_EXTABLE_10GBKX4'')),
        (''10g-kr'', has val (C ''MDIO_PMA_EXTABLE_10GBKR'')),
        (''1000-t'', has val (C ''MDIO_PMA_EXTABLE_1000BT'')),
        (''1000-kx'', has val (C ''MDIO_PMA_EXTABLE_1000BKX''))] @
     nl @ ''                '' @
     flags
       [(''100-tx'', has val (C ''MDIO_PMA_EXTABLE_100BTX'')),
        (''10-t'', has val (C ''MDIO_PMA_EXTABLE_10BT'')), (''p2mp'', has val (push_bit 9 1)),
        (''40g/100g'', has val (push_bit 10 1)), (''1000/100-t1'', has val (push_bit 11 1)),
        (''25g'', has val (push_bit 12 1)), (''200g/400g'', has val (push_bit 13 1))] @
     nl @ ''                '' @
     flags
       [(''2.5g/5g'', has val (C ''MDIO_PMA_EXTABLE_NBT'')), (''1000-h'', has val (push_bit 15 1))] @
     nl"

definition print_pma_extra :: "uapi \<Rightarrow> u32 list \<Rightarrow> string option" where
  "print_pma_extra C data =
     map_option
       (\<lambda>t. t @ nl @ print_pma_stat2 C (ucast (data ! 8)) @
          (if has (data ! 8) (C ''MDIO_PMA_STAT2_EXTABLE'')
           then nl @ print_pma_extable C (ucast (data ! 11)) else []))
       (print_pma_ctrl2 C (ucast (data ! 7)))"

section \<open>PCS\<close>

definition print_pcs_ctrl1 :: "uapi \<Rightarrow> u16 \<Rightarrow> string" where
  "print_pcs_ctrl1 C val =
     ''CTRL1(0x00): '' @ alt_hex 4 (unat val) @ nl @ ''  flags: '' @
     flags
       [(''reset'', has val (C ''MDIO_CTRL1_RESET'')),
        (''loopback'', has val (C ''MDIO_PCS_CTRL1_LOOPBACK'')),
        (''low-power'', has val (C ''MDIO_CTRL1_LPOWER'')),
        (''lpi-clock-stop'', has val (C ''MDIO_PCS_CTRL1_CLKSTOP_EN''))] @
     '' '' @ nl @ ''  speed: '' @ get_speed C val @ nl"

definition print_pcs_stat1 :: "uapi \<Rightarrow> u16 \<Rightarrow> string" where
  "print_pcs_stat1 C val =
     ''STAT1(0x01): '' @ alt_hex 4 (unat val) @ nl @ ''  capabilities: '' @
     flags
       [(''lpi-clock-stop'', has val (push_bit 6 1)),
        (''low-power'', has val (C ''MDIO_STAT1_LPOWERABLE''))] @
     nl @ ''  flags:        '' @
     flags
       [(''rx-lpi-recv'', has val (push_bit 11 1)), (''tx-lpi-recv'', has val (push_bit 10 1)),
        (''rx-lpi-ind'', has val (push_bit 9 1)), (''tx-lpi-ind'', has val (push_bit 8 1)),
        (''fault'', has val (C ''MDIO_STAT1_FAULT'')), (''link'', has val (C ''MDIO_STAT1_LSTATUS''))] @
     nl"

definition print_pcs_speed :: "uapi \<Rightarrow> u16 \<Rightarrow> string" where
  "print_pcs_speed C val =
     ''SPEED(0x04): '' @ alt_hex 4 (unat val) @ nl @ ''  capabilities: '' @
     flags
       [(''400g'', has val (push_bit 9 1)), (''200g'', has val (push_bit 8 1)),
        (''5g'', has val (push_bit 7 1)), (''2.5g'', has val (push_bit 5 1)),
        (''25g'', has val (push_bit 4 1)), (''100g'', has val (push_bit 3 1)),
        (''40g'', has val (push_bit 2 1)), (''10-ts/2-tl'', has val (C ''MDIO_PCS_SPEED_10P2B'')),
        (''10g'', has val (C ''MDIO_SPEED_10G''))] @
     nl"

definition pcs_type :: "uapi \<Rightarrow> (nat \<times> string) list" where
  "pcs_type C =
     [(0xd, ''400g-r''), (0xc, ''200g-r''), (0xb, ''5g-t''), (0xa, ''2.5g-t''), (0x9, ''25g-t''),
      (0x7, ''25g-r''), (0x6, ''40g-t''), (0x5, ''100g-r''), (0x4, ''40g-r''),
      (unat (C ''MDIO_PCS_CTRL2_10GBT''), ''10g-t''),
      (unat (C ''MDIO_PCS_CTRL2_10GBW''), ''10g-w''),
      (unat (C ''MDIO_PCS_CTRL2_10GBX''), ''10g-x''),
      (unat (C ''MDIO_PCS_CTRL2_10GBR''), ''10g-r'')]"

definition pcs_type_name :: "uapi \<Rightarrow> u16 \<Rightarrow> string option" where
  "pcs_type_name C val =
     table_name 0x10 (pcs_type C) (unat (FIELD_GET (C ''MDIO_PCS_CTRL2_TYPE'') (ucast val)))"

definition print_pcs_ctrl2 :: "uapi \<Rightarrow> u16 \<Rightarrow> string option" where
  "print_pcs_ctrl2 C val =
     map_option (\<lambda>ty. ''CTRL2(0x07): '' @ alt_hex 4 (unat val) @ nl @ ''  type: '' @ ty @ nl)
       (pcs_type_name C val)"

definition print_pcs_stat2 :: "uapi \<Rightarrow> u16 \<Rightarrow> string" where
  "print_pcs_stat2 C val =
     ''STAT2(0x08): '' @ alt_hex 4 (unat val) @ nl @ ''  capabilities: '' @
     flags
       [(''5g-t'', has val (push_bit 13 1)), (''2.5g-t'', has val (push_bit 12 1)),
        (''25g-t'', has val (push_bit 9 1)), (''25g-r'', has val (push_bit 7 1)),
        (''40g-t'', has val (push_bit 6 1)), (''100g-r'', has val (push_bit 5 1)),
        (''40g-r'', has val (push_bit 4 1)), (''10g-t'', has val (push_bit 3 1)),
        (''10g-w'', has val (C ''MDIO_PCS_STAT2_10GBW''))] @
     nl @ ''                '' @
     flags
       [(''10g-x'', has val (C ''MDIO_PCS_STAT2_10GBX'')),
        (''10g-r'', has val (C ''MDIO_PCS_STAT2_10GBR''))] @
     nl @ print_mmd_stat2_flags C val"

definition print_pcs_extra :: "uapi \<Rightarrow> u32 list \<Rightarrow> string option" where
  "print_pcs_extra C data =
     map_option (\<lambda>t. t @ nl @ print_pcs_stat2 C (ucast (data ! 8))) (print_pcs_ctrl2 C (ucast (data ! 7)))"

section \<open>Auto-negotiation\<close>

definition print_an_ctrl1 :: "uapi \<Rightarrow> u16 \<Rightarrow> string" where
  "print_an_ctrl1 C val =
     ''CTRL1(0x00): '' @ alt_hex 4 (unat val) @ nl @ ''  flags: '' @
     flags
       [(''reset'', has val (C ''MDIO_CTRL1_RESET'')),
        (''ext-page'', has val (C ''MDIO_AN_CTRL1_XNP'')),
        (''aneg-enable'', has val (C ''MDIO_AN_CTRL1_ENABLE'')),
        (''aneg-restart'', has val (C ''MDIO_AN_CTRL1_RESTART''))] @
     nl"

definition print_an_stat1 :: "uapi \<Rightarrow> u16 \<Rightarrow> string" where
  "print_an_stat1 C val =
     ''STAT1(0x01): '' @ alt_hex 4 (unat val) @ nl @ ''  capabilities: '' @
     flags
       [(''aneg-capable'', has val (C ''MDIO_AN_STAT1_ABLE'')),
        (''partner-capable'', has val (C ''MDIO_AN_STAT1_LPABLE''))] @
     nl @ ''  flags:        '' @
     flags
       [(''ext-page'', has val (C ''MDIO_AN_STAT1_XNP'')),
        (''parallel-fault'', has val (C ''MDIO_STAT1_FAULT'')),
        (''page'', has val (C ''MDIO_AN_STAT1_PAGE'')),
        (''aneg-complete'', has val (C ''MDIO_AN_STAT1_COMPLETE'')),
        (''remote-fault'', has val (C ''MDIO_AN_STAT1_RFAULT''))] @
     nl @ ''                '' @
     flags
       [(''link'', has val (C ''MDIO_STAT1_LSTATUS''))] @
     nl"

section \<open>Reports as text\<close>

text \<open>The printers of a device; the reports of an MMD name only those that its device has.\<close>

record mmd_printers =
  mp_ctrl1 :: "(u16 \<Rightarrow> string) option"
  mp_stat1 :: "(u16 \<Rightarrow> string) option"
  mp_speed :: "(u16 \<Rightarrow> string) option"
  mp_extra :: "(u32 list \<Rightarrow> string option) option"

definition pma_print_device :: "uapi \<Rightarrow> mmd_printers" where
  "pma_print_device C =
     \<lparr>mp_ctrl1 = Some (print_pma_ctrl1 C), mp_stat1 = Some (print_pma_stat1 C),
      mp_speed = Some (print_pma_speed C), mp_extra = Some (print_pma_extra C)\<rparr>"

definition pcs_print_device :: "uapi \<Rightarrow> mmd_printers" where
  "pcs_print_device C =
     \<lparr>mp_ctrl1 = Some (print_pcs_ctrl1 C), mp_stat1 = Some (print_pcs_stat1 C),
      mp_speed = Some (print_pcs_speed C), mp_extra = Some (print_pcs_extra C)\<rparr>"

definition an_print_device :: "uapi \<Rightarrow> mmd_printers" where
  "an_print_device C =
     \<lparr>mp_ctrl1 = Some (print_an_ctrl1 C), mp_stat1 = Some (print_an_stat1 C),
      mp_speed = None, mp_extra = None\<rparr>"

definition null_print_device :: mmd_printers where
  "null_print_device = \<lparr>mp_ctrl1 = None, mp_stat1 = None, mp_speed = None, mp_extra = None\<rparr>"

definition mmd_printers_of :: "phy_uapi \<Rightarrow> uapi \<Rightarrow> u16 \<Rightarrow> mmd_printers" where
  "mmd_printers_of U C dev_id =
     (let devad = FIELD_GET (MDIO_PHY_ID_DEVAD U) dev_id in
      if devad = MDIO_MMD_PMAPMD U then pma_print_device C
      else if devad = MDIO_MMD_PCS U then pcs_print_device C
      else if devad = MDIO_MMD_AN U then an_print_device C
      else null_print_device)"

text \<open>What a report prints on the standard output.\<close>

definition report_text :: "uapi \<Rightarrow> mmd_printers \<Rightarrow> report \<Rightarrow> string option" where
  "report_text C P rep =
     (case rep of
        Text s \<Rightarrow> Some s
      | No_Device_Found \<Rightarrow> Some []
      | Bmcr v \<Rightarrow> Some (print_phy_bmcr C v)
      | Bmsr v \<Rightarrow> Some (print_phy_bmsr C v)
      | Phy_Id hi lo \<Rightarrow> Some (print_phy_id hi lo)
      | Estatus v \<Rightarrow> Some (print_phy_estatus C v)
      | Current_Page p \<Rightarrow> Some (''Current page: '' @ dec (unat p) @ nl)
      | Mmd_Ctrl1 v \<Rightarrow> map_option (\<lambda>f. f v) (mp_ctrl1 P)
      | Mmd_Stat1 v \<Rightarrow> map_option (\<lambda>f. f v) (mp_stat1 P)
      | Mmd_Devid hi lo \<Rightarrow> Some (print_mmd_devid hi lo)
      | Mmd_Speed v \<Rightarrow> map_option (\<lambda>f. f v) (mp_speed P)
      | Mmd_Devs hi lo \<Rightarrow> Some (print_mmd_devs C hi lo)
      | Mmd_Extra data \<Rightarrow> Option.bind (mp_extra P) (\<lambda>f. f data)
      | Mmd_Pkgid hi lo \<Rightarrow> Some (print_mmd_pkgid hi lo))"

text \<open>An empty line separates two reports, except before the page of a paged PHY.\<close>

fun reports_text :: "uapi \<Rightarrow> mmd_printers \<Rightarrow> report list \<Rightarrow> string option" where
  "reports_text C P [] = Some []"
| "reports_text C P [r] = report_text C P r"
| "reports_text C P (r # s # rs) = do {
     t \<leftarrow> report_text C P r;
     ts \<leftarrow> reports_text C P (s # rs);
     Some (t @ (case s of Current_Page _ \<Rightarrow> [] | _ \<Rightarrow> nl) @ ts)
   }"

section \<open>Properties\<close>

lemma field_get_low:
  assumes "0 < n" and "n \<le> 32"
  shows "FIELD_GET (mask n :: u32) r = take_bit n r"
proof -
  have "bf_shf (mask n :: u32) = 0"
    using bf_shf_field_at [of n 0, where ?'a = 32] assms by (simp add: field_at_def)
  then show ?thesis by (simp add: FIELD_GET_def take_bit_eq_mask)
qed

lemma unat_take_bit_ucast: "unat (take_bit n (ucast (val :: u16) :: u32)) = unat val mod 2 ^ n"
proof -
  have "unat (ucast val :: u32) = unat val"
    using unsigned_less [of val, where ?'a = nat] by (simp add: unsigned_ucast_eq take_bit_nat_eq_self)
  then show ?thesis by (simp only: unsigned_take_bit_eq) (simp add: take_bit_nat_def)
qed

lemma type_names:
  assumes "C ''MDIO_PMA_CTRL2_TYPE'' = 0xf" and "C ''MDIO_PCS_CTRL2_TYPE'' = 0x3"
  shows "pma_type_name C val = table_name 0x80 (pma_type C) (unat val mod 16)"
    and "pcs_type_name C val = table_name 0x10 (pcs_type C) (unat val mod 4)"
proof -
  have types: "FIELD_GET 0xf (ucast val :: u32) = take_bit 4 (ucast val)"
    "FIELD_GET 0x3 (ucast val :: u32) = take_bit 2 (ucast val)"
    using field_get_low [of 4 "ucast val"] field_get_low [of 2 "ucast val"]
    by (simp_all add: mask_eq_exp_minus_1)
  show "pma_type_name C val = table_name 0x80 (pma_type C) (unat val mod 16)"
    by (simp only: pma_type_name_def assms types unat_take_bit_ucast) simp
  show "pcs_type_name C val = table_name 0x10 (pcs_type C) (unat val mod 4)"
    by (simp only: pcs_type_name_def assms types unat_take_bit_ucast) simp
qed

lemma extra_printed:
  assumes "C ''MDIO_PMA_CTRL2_TYPE'' = 0xf" and "C ''MDIO_PCS_CTRL2_TYPE'' = 0x3"
  shows "print_pma_extra C data \<noteq> None" and "print_pcs_extra C data \<noteq> None"
proof -
  have "unat v mod 16 < 0x80" "unat v mod 4 < 0x10" for v :: u16
    using mod_less_divisor [of 16 "unat v"] mod_less_divisor [of 4 "unat v"] by linarith+
  then show "print_pma_extra C data \<noteq> None" "print_pcs_extra C data \<noteq> None"
    by (simp_all add: print_pma_extra_def print_pma_ctrl2_def print_pcs_extra_def print_pcs_ctrl2_def
        type_names [OF assms] table_name_def)
qed

lemma reports_text_printed:
  "(\<And>r. r \<in> set reps \<Longrightarrow> report_text C P r \<noteq> None) \<Longrightarrow> reports_text C P reps \<noteq> None"
proof (induction reps rule: induct_list012)
  case (3 r s rs)
  then obtain t ts where "report_text C P r = Some t" "reports_text C P (s # rs) = Some ts"
    by (metis list.set_intros not_None_eq)
  then show ?case by simp
qed simp_all

text \<open>
  C36. The status report of an MMD is printed for every register content: no callback that the
  device lacks is called, and no name is taken from outside a table. The masks are those of
  \<^verbatim>\<open>linux/mdio.h\<close>, of four and two bits: of the 0x80 and 0x10 places of the tables of PMA/PMD and PCS
  types only the first 16 and 4 are ever used, so that what stands behind them is never printed.
\<close>

theorem mmd_status_printed:
  assumes "C ''MDIO_PMA_CTRL2_TYPE'' = 0xf" and "C ''MDIO_PCS_CTRL2_TYPE'' = 0x3"
  shows "reports_text C (mmd_printers_of U C dev_id)
           (snd (mmd_status_cb (mmd_printer U dev_id) data err)) \<noteq> None \<and>
         pma_type_name C val = table_name 0x80 (pma_type C) (unat val mod 16) \<and>
         pcs_type_name C val = table_name 0x10 (pcs_type C) (unat val mod 4)"
proof (intro conjI reports_text_printed type_names assms)
  fix r
  assume "r \<in> set (snd (mmd_status_cb (mmd_printer U dev_id) data err))"
  then show "report_text C (mmd_printers_of U C dev_id) r \<noteq> None"
    using extra_printed [OF assms]
    by (auto simp: mmd_status_cb_def mmd_printer_def mmd_printers_of_def Let_def report_text_def
        pma_print_device_def pcs_print_device_def an_print_device_def null_print_device_def
        split: if_splits)
qed

text \<open>The numbers of the types in \<^verbatim>\<open>linux/mdio.h\<close>.\<close>

definition linux_types :: uapi where
  "linux_types name =
     (case map_of
        [(''MDIO_PMA_CTRL2_TYPE'', 0xf), (''MDIO_PCS_CTRL2_TYPE'', 0x3),
         (''MDIO_PMA_CTRL2_10GBCX4'', 0x0), (''MDIO_PMA_CTRL2_10GBEW'', 0x1),
         (''MDIO_PMA_CTRL2_10GBLW'', 0x2), (''MDIO_PMA_CTRL2_10GBSW'', 0x3),
         (''MDIO_PMA_CTRL2_10GBLX4'', 0x4), (''MDIO_PMA_CTRL2_10GBER'', 0x5),
         (''MDIO_PMA_CTRL2_10GBLR'', 0x6), (''MDIO_PMA_CTRL2_10GBSR'', 0x7),
         (''MDIO_PMA_CTRL2_10GBLRM'', 0x8), (''MDIO_PMA_CTRL2_10GBT'', 0x9),
         (''MDIO_PMA_CTRL2_10GBKX4'', 0xa), (''MDIO_PMA_CTRL2_10GBKR'', 0xb),
         (''MDIO_PMA_CTRL2_1000BT'', 0xc), (''MDIO_PMA_CTRL2_1000BKX'', 0xd),
         (''MDIO_PMA_CTRL2_100BTX'', 0xe), (''MDIO_PMA_CTRL2_10BT'', 0xf),
         (''MDIO_PMA_CTRL2_2_5GBT'', 0x30), (''MDIO_PMA_CTRL2_5GBT'', 0x31),
         (''MDIO_PCS_CTRL2_10GBR'', 0x0), (''MDIO_PCS_CTRL2_10GBX'', 0x1),
         (''MDIO_PCS_CTRL2_10GBW'', 0x2), (''MDIO_PCS_CTRL2_10GBT'', 0x3)] name of
        Some n \<Rightarrow> n | None \<Rightarrow> 0)"

theorem mmd_status_printed_witness:
  "reports_text linux_types (mmd_printers_of linux_uapi linux_types 0)
     (snd (mmd_status_cb (mmd_printer linux_uapi 0) (replicate 16 0x5) 0)) \<noteq> None \<and>
   pma_type_name linux_types 0x30 = Some ''10g-cx4'' \<and> pcs_type_name linux_types 0x30 = Some ''10g-r''"
proof -
  have C: "linux_types ''MDIO_PMA_CTRL2_TYPE'' = 0xf" "linux_types ''MDIO_PCS_CTRL2_TYPE'' = 0x3"
    by (simp_all add: linux_types_def)
  have "table_name 0x80 (pma_type linux_types) (unat (0x30 :: u16) mod 16) = Some ''10g-cx4''"
    "table_name 0x10 (pcs_type linux_types) (unat (0x30 :: u16) mod 4) = Some ''10g-r''"
    by (simp_all add: table_name_def pma_type_def pcs_type_def linux_types_def)
  then show ?thesis
    using mmd_status_printed [where U = linux_uapi and dev_id = 0 and data = "replicate 16 0x5"
        and err = 0 and val = "0x30", OF C]
    by (simp only: simp_thms)
qed

end
