(* ===== verification/Spec2Isabelle.thy ===== *)
theory Spec2Isabelle
  imports Socket_Stack Nl_Compat Nl_Socket Mdio_Main Mvls_Chip Mvls_Correct Mvls_Tool_Correct Mvls_Heap Mvls_Memory Print_Phy Mdio_Client
begin

text \<open>
  A verification library for mdio-tools: the kernel module \<^verbatim>\<open>mdio-netlink\<close>, which runs small
  programs against an MDIO bus, the tool \<^verbatim>\<open>mdio\<close>, which generates these programs, and the tool
  \<^verbatim>\<open>mvls\<close>, which shows the tables of LinkStreet switches.

  \<^bold>\<open>The program.\<close> The tool turns its arguments into a list of instructions (read, write, and, or,
  add, two conditional jumps, emit), sends it over generic netlink and prints the values that
  come back. The module validates the instructions, interprets them with the bus lock held and
  streams every emitted value into reply messages. The two sides share the instruction format
  and nothing else. \<^verbatim>\<open>mvls\<close> takes snapshots of the switches' memory regions through devlink, decodes
  the address, VLAN and spanning tree tables in them and prints them as text or as JSON.

  \<^bold>\<open>Theories.\<close>

  \<^item> \<open>Mdio_Prelude\<close>: word types, faults as values (\<open>crash\<close>), errno values.
  \<^item> \<open>Mdio_Insn\<close>: \<^verbatim>\<open>include/linux/mdio-netlink.h\<close> and the macros and the growing program of
    \<^verbatim>\<open>src/mdio/mdio.h\<close>. \<open>Vm_Spec\<close> is the abstract specification: decoded instructions and a
    machine with eight registers, a bus and an output (\<open>vm_run\<close>, with fuel). \<open>Vm_Logic\<close> has
    the denotations of its programs: sequence, forward skip and bottom-tested loop.
  \<^item> \<open>Nl_Validate\<close>, \<open>Nl_Xfer\<close>, \<open>Nl_Eval\<close>: \<^verbatim>\<open>kernel/mdio-netlink.c\<close> function by function. The state
    of a transfer (\<open>xfer\<close>) holds the message pointer, which can be null, live or freed; a
    \<^verbatim>\<open>BUG_ON\<close> that trips and a use of a dead message are the values of \<open>crash\<close>. The netlink and
    MDIO core of Linux are parameters (\<open>nl_api\<close>, \<open>bus_api\<close>, \<open>kernel\<close>) with their documented
    behaviour as the hypotheses \<open>netlink_ok\<close> and \<open>netlink_reliable\<close>. \<open>Nl_Stream\<close>, \<open>Vm_Refine\<close> and
    \<open>Nl_Correct\<close> prove that the interpreter refines the machine; \<open>Nl_Example\<close> is a concrete
    kernel for the instances, and \<open>Nl_Theorems\<close> holds the properties. The interface between the
    interpreter and its reply buffer is the locale \<open>reply_buffer\<close> of \<open>Vm_Refine\<close>; \<open>Nl_Messages\<close>
    interprets it a second time on messages as sequences of attributes (\<open>netlink_bytes\<close>), which
    gives the exact chain of replies of a transfer (\<open>reply_views\<close>).
  \<^item> \<open>Nl_Module\<close>: the attribute policy, the operations and the registration of the generic netlink
    family, and which requests reach the handler (\<open>genl_admits\<close>). \<open>Nl_Compat\<close>:
    \<^verbatim>\<open>kernel/compat.h\<close>, the accesses and the bus lookup on kernels that lack them.
  \<^item> \<open>Bus_Monad\<close>, \<open>Prog_Logic\<close>: the language of specifications of generated programs (bus reads and
    writes, emitted values, polling) and the rules of \<open>performs\<close>, by which code that a driver
    pushes is shown to do what a specification says.
  \<^item> \<open>Cstr\<close>, \<open>Mdio_Parse\<close>, \<open>Mdio_Xfer\<close>, \<open>Mdio_Device\<close>: the C string functions the tool calls, and
    \<^verbatim>\<open>src/mdio/mdio.c\<close>: arguments, the client side of a transfer, and the \<^verbatim>\<open>raw\<close>, \<^verbatim>\<open>bench\<close> and
    \<^verbatim>\<open>dump\<close> commands. \<open>Mdio_Driver\<close> states the contract of a driver (\<open>mdio_driver\<close>, extended by
    \<open>mdio_reg_driver\<close>) and proves the commands against it once; \<open>Mdio_Run\<close> adds the exit status
    and the output on a kernel that does what the machine does (locale \<open>machine_kernel\<close>).
  \<^item> \<open>Mdio_Client\<close>: the netlink side of \<^verbatim>\<open>mdio.c\<close> and the start of \<^verbatim>\<open>main\<close>. Requests, datagrams and the
    receive loop; \<open>Mdio_Xfer\<close>, where a transfer yields a list of replies, is an abstraction of it
    (\<open>xfer_over_socket\<close>). The lookup of the family and the loading of the module.
  \<^item> \<open>Nl_Socket\<close>: sequence numbers and the datagrams that wait in a socket. \<^verbatim>\<open>mdio.c\<close> opens a socket for
    each request (\<open>seq_msg_query_plain\<close>); the devlink client of \<^verbatim>\<open>mvls\<close> has one for all, which stays in
    step with the kernel until a callback fails (\<open>socket_region_get\<close>), and not after it
    (\<open>unread_answer_stays\<close>, by rule induction over the steps \<open>sock_step\<close>).
  \<^item> \<open>Bitfield\<close>: \<^verbatim>\<open>include/linux/bitfield.h\<close>. \<open>Phy\<close>, \<open>Paged_Phy\<close>, \<open>Xrs\<close>, \<open>Mvls_Switch\<close>: the drivers of
    \<^verbatim>\<open>phy.c\<close>, \<^verbatim>\<open>paged-phy.c\<close>, \<^verbatim>\<open>xrs.c\<close> and \<^verbatim>\<open>mvls.c\<close> under \<^verbatim>\<open>src/mdio\<close>, each an interpretation of the
    contract. \<open>Mvls_Chip\<close> has register accesses on a switch that is busy for any time,
    \<open>Mvls_Commands\<close> and \<open>Mvls_Correct\<close> the \<^verbatim>\<open>lag\<close>, \<^verbatim>\<open>counter\<close> and \<^verbatim>\<open>atu\<close> commands. \<open>Bus_Cmd\<close> is
    \<^verbatim>\<open>bus.c\<close>, \<open>Mdio_Main\<close> is \<^verbatim>\<open>main.c\<close>.
  \<^item> \<open>Print_Phy\<close>: \<^verbatim>\<open>src/mdio/print-phy.c\<close>, the text of the reports that the status commands of \<open>Phy\<close>
    hand over (\<open>report\<close>), and that it exists for every register content.
  \<^item> \<open>End_To_End\<close> joins the two halves: the commands on any \<open>machine_kernel\<close>, and one transfer through
    the handler. \<open>Full_Stack\<close> makes the module such a kernel (\<open>module_link\<close>: admission, handler,
    interpreter and replies), so that its properties are about the output and the exit status of
    the tool with the real module below it; \<open>Socket_Stack\<close> puts the module behind the socket of
    \<open>Mdio_Client\<close>, where its messages arrive as datagrams.
  \<^item> \<open>Mvls_Tables\<close>: registers, table entries and their layout on each chip family
    (\<^verbatim>\<open>src/mvls/mvls.h\<close>, \<^verbatim>\<open>src/mvls/mvls.c\<close>), with the round trips of the decoders. \<open>Mvls_Devlink\<close>:
    \<^verbatim>\<open>src/mvls/devlink.c\<close>, requests, the receive loop and the reading of regions through a snapshot.
    \<open>Mvls_Env\<close>: the devices and ports that the devlink dumps name, and their order. \<open>Mvls_Json\<close> and
    \<open>Mvls_Show\<close>: \<^verbatim>\<open>mvls-json.c\<close> and \<^verbatim>\<open>mvls-show.c\<close>. \<open>Mvls_Tool\<close>: options and commands (\<open>mvls_main\<close>).
  \<^item> \<open>Tail_Queue\<close>: the tail queues of \<^verbatim>\<open>src/mvls/queue.h\<close> on a store of pointers, with the list they
    stand for. \<open>Mvls_Heap\<close>: \<^verbatim>\<open>env_init\<close> as it links devices and ports in memory; it builds the
    lists on which the rest of the tool's model works. \<open>Mvls_Memory\<close>: the allocated blocks behind the
    memory regions, with \<^verbatim>\<open>realloc\<close> and \<^verbatim>\<open>free\<close>, as a refinement of the lists of bytes that
    \<open>Mvls_Devlink\<close> has; what a listing allocates and frees.
  \<^item> \<open>Mvls_Json_Correct\<close> has the grammar of JSON texts (\<open>json_text\<close>) and the contract of a listing by
    rows (locale \<open>json_rows\<close>, interpreted for the ATU, VTU and STU); \<open>Mvls_Tool_Correct\<close> the
    properties of the whole tool, with a concrete kernel for their instances.

  \<^bold>\<open>Bounds and fuel.\<close> The interpreter loop has fuel; \<open>cmd_xfer_returns\<close> shows that the deadline
  bounds it for every program, and \<open>cmd_xfer_complete\<close> that the number of steps of the machine
  is enough. Words have the width of the C types; an encoded operand has 18 bits. Loops of the
  generated programs are least fixed points (\<open>None\<close> when they do not end); that polling ends is
  proved where the chip's busy time is finite.

  In the \<^verbatim>\<open>mvls\<close> tool \<open>None\<close> is a read or write outside a region or an entry, a null pointer, or a
  receive that blocks for ever; its loops are structural or end by a measure (the sort of the
  devices by the list behind the current element), and messages from the kernel are a finite
  list.

  In \<open>Nl_Messages\<close> a message holds at least 48 bytes, room for the header, one emitted word, the
  closing of the nested attribute and the error.

  \<^bold>\<open>Not modelled.\<close> libmnl and the kernel's devlink and generic netlink are parameters (\<open>libmnl\<close> and
  \<open>nl_env\<close> in \<open>Mdio_Client\<close>, \<open>mnl\<close> and \<open>dl_kernel\<close> in \<open>Mvls_Devlink\<close>, \<open>nl_api\<close> and \<open>linux_genl\<close> on the
  side of the module), as are the values of the headers \<^verbatim>\<open>linux/mii.h\<close> and \<^verbatim>\<open>linux/mdio.h\<close>, which are
  not in the repository. Left out are \<^verbatim>\<open>getopt\<close> and the usage texts, what goes to
  the standard error stream, the buffers of the generated programs and their \<^verbatim>\<open>free\<close>, and the kinds of list in \<^verbatim>\<open>queue.h\<close> that no file uses (the others are
  in \<open>Tail_Queue\<close>). Region contents are read as on a little-endian host.
\<close>

end
